theory Spec2Isabelle
  imports Complex_Main "HOL-Library.Word"
begin

unbundle bit_operations_syntax

section \<open>Memory: bytes, pointers and the allocator\<close>

text \<open>
  The wrappers of nav-rcn and nmgen-rcn move raw bytes with \<^verbatim>\<open>memcpy\<close> between caller
  buffers and blocks obtained from \<^verbatim>\<open>rcAlloc\<close> / \<^verbatim>\<open>dtAlloc\<close>. A pointer is an address,
  \<open>0\<close> is the null pointer. The heap maps a live address to the bytes of its block. An
  allocation may fail: the list \<open>outcomes\<close> scripts the results of the coming allocations
  (\<open>False\<close>: the allocator returns null); once the script is used up, allocations succeed.
  A request of negative size (an \<^verbatim>\<open>int\<close> passed where the allocator takes a size) returns
  null. Signed sizes are 32-bit \<^verbatim>\<open>int\<close>s, and the target is the 32-bit one of the plugin,
  where \<^verbatim>\<open>long\<close> and pointers are four bytes, little-endian.
\<close>

type_synonym byte = "8 word"
type_synonym ptr = nat

record heap =
  blocks :: "ptr \<Rightarrow> byte list option"
  brk :: nat
  outcomes :: "bool list"

definition alloc :: "int \<Rightarrow> heap \<Rightarrow> ptr \<times> heap" where
  "alloc n h =
     (case outcomes h of
        False # bs \<Rightarrow> (0, h\<lparr>outcomes := bs\<rparr>)
      | _ \<Rightarrow>
          if n < 0 then (0, h\<lparr>outcomes := tl (outcomes h)\<rparr>)
          else (Suc (brk h),
                h\<lparr>blocks := (blocks h)(Suc (brk h) \<mapsto> replicate (nat n) 0),
                  brk := Suc (brk h),
                  outcomes := tl (outcomes h)\<rparr>))"

definition free :: "ptr \<Rightarrow> heap \<Rightarrow> heap" where
  "free p h = (if p = 0 then h else h\<lparr>blocks := (blocks h)(p := None)\<rparr>)"

text \<open>
  The allocator hands out the addresses 1, 2, ... in turn and \<open>brk\<close> is the last one it
  gave. A pointer that a caller may hold is null or one of these.
\<close>

definition issued :: "heap \<Rightarrow> ptr \<Rightarrow> bool" where
  "issued h p = (p \<le> brk h)"

definition live :: "heap \<Rightarrow> ptr \<Rightarrow> bool" where
  "live h p = (blocks h p \<noteq> None)"

definition heap0 :: "bool list \<Rightarrow> heap" where
  "heap0 bs = \<lparr>blocks = (\<lambda>p. None), brk = 0, outcomes = bs\<rparr>"

section \<open>Detour status words and tile references\<close>

text \<open>
  \<^verbatim>\<open>dtStatus\<close> is an unsigned 32-bit word; the high bits say failure or success, the low
  bits give the detail (the constants of Detour's \<^verbatim>\<open>DetourStatus.h\<close>, which the wrappers
  compile against). A tile reference \<^verbatim>\<open>dtTileRef\<close> is the unsigned 64-bit handle that the
  spec's external interface names.
\<close>

type_synonym dtStatus = "32 word"
type_synonym dtTileRef = "64 word"

definition DT_FAILURE :: dtStatus where "DT_FAILURE = 0x80000000"
definition DT_SUCCESS :: dtStatus where "DT_SUCCESS = 0x40000000"
definition DT_WRONG_MAGIC :: dtStatus where "DT_WRONG_MAGIC = 1"
definition DT_WRONG_VERSION :: dtStatus where "DT_WRONG_VERSION = 2"
definition DT_OUT_OF_MEMORY :: dtStatus where "DT_OUT_OF_MEMORY = 4"
definition DT_INVALID_PARAM :: dtStatus where "DT_INVALID_PARAM = 8"
definition DT_TILE_FREE_DATA :: int where "DT_TILE_FREE_DATA = 1"

definition dtStatusSucceed :: "dtStatus \<Rightarrow> bool" where
  "dtStatusSucceed s = (s AND DT_SUCCESS \<noteq> 0)"

definition dtStatusFailed :: "dtStatus \<Rightarrow> bool" where
  "dtStatusFailed s = (s AND DT_FAILURE \<noteq> 0)"

section \<open>Bytes of a buffer\<close>

text \<open>
  A four-byte field is read and written little-endian. A read or a write through a
  pointer is checked against the extent of the buffer behind it: outside it the C++ is
  undefined, and the model's result is \<open>None\<close>. Offsets and lengths are the \<^verbatim>\<open>int\<close>s of the
  source; a negative length stands for the huge \<^verbatim>\<open>size_t\<close> it converts to.
\<close>

definition le32 :: "byte list \<Rightarrow> 32 word" where
  "le32 bs = foldr (\<lambda>b acc. ucast b OR push_bit 8 acc) (take 4 bs) 0"

definition bytes32 :: "32 word \<Rightarrow> byte list" where
  "bytes32 w = map (\<lambda>k. ucast (drop_bit (8 * k) w)) [0, 1, 2, 3]"

definition le64 :: "byte list \<Rightarrow> 64 word" where
  "le64 bs = foldr (\<lambda>b acc. ucast b OR push_bit 8 acc) (take 8 bs) 0"

definition bytes64 :: "64 word \<Rightarrow> byte list" where
  "bytes64 w = map (\<lambda>k. ucast (drop_bit (8 * k) w)) [0, 1, 2, 3, 4, 5, 6, 7]"

definition field32 :: "byte list \<Rightarrow> nat \<Rightarrow> 32 word" where
  "field32 bs off = le32 (drop off bs)"

definition rdbytes :: "byte list \<Rightarrow> int \<Rightarrow> int \<Rightarrow> byte list option" where
  "rdbytes src off n =
     (if off < 0 \<or> n < 0 \<or> int (length src) < off + n then None
      else Some (take (nat n) (drop (nat off) src)))"

definition wrbytes :: "byte list \<Rightarrow> int \<Rightarrow> byte list \<Rightarrow> byte list option" where
  "wrbytes dst off bs =
     (if off < 0 \<or> int (length dst) < off + int (length bs) then None
      else Some (take (nat off) dst @ bs @ drop (nat off + length bs) dst))"

text \<open>The bytes behind a pointer: none behind null or a freed block.\<close>

definition deref :: "heap \<Rightarrow> ptr \<Rightarrow> byte list" where
  "deref h p = (case blocks h p of None \<Rightarrow> [] | Some bs \<Rightarrow> bs)"

definition store :: "heap \<Rightarrow> ptr \<Rightarrow> byte list \<Rightarrow> heap" where
  "store h p bs = h\<lparr>blocks := (blocks h)(p \<mapsto> bs)\<rparr>"

text \<open>\<^verbatim>\<open>memcpy(dst + doff, src + soff, n)\<close> into the heap block at \<open>dst\<close>.\<close>

definition memcpy_to :: "heap \<Rightarrow> ptr \<Rightarrow> int \<Rightarrow> byte list \<Rightarrow> int \<Rightarrow> int \<Rightarrow> heap option" where
  "memcpy_to h dst doff src soff n =
     (case rdbytes src soff n of
        None \<Rightarrow> None
      | Some bs \<Rightarrow>
          (case wrbytes (deref h dst) doff bs of
             None \<Rightarrow> None
           | Some d \<Rightarrow> Some (store h dst d)))"

text \<open>An element of a typed array, read or written at an index, with the same check.\<close>

definition rd :: "'a list \<Rightarrow> int \<Rightarrow> 'a option" where
  "rd xs i = (if 0 \<le> i \<and> i < int (length xs) then Some (xs ! nat i) else None)"

definition wr :: "'a list \<Rightarrow> int \<Rightarrow> 'a \<Rightarrow> 'a list option" where
  "wr xs i x = (if 0 \<le> i \<and> i < int (length xs) then Some (xs[nat i := x]) else None)"

section \<open>Tile data buffers and their ownership tag (DetourNavmeshEx.cpp, DetourNavMeshBuildEx.cpp)\<close>

text \<open>
  The container \<^verbatim>\<open>dtNavMesh\<close> is Detour's. The wrappers reach it through the calls below,
  which are parameters of the model: \<open>'m\<close> is the container's state, and each call gets
  and returns the heap it may allocate in or free from. \<^verbatim>\<open>dtAllocNavMesh\<close> returns
  \<open>None\<close> for a null pointer; \<^verbatim>\<open>addTile\<close> receives the data pointer, the data size, the
  flags and the last reference, and returns the new tile's reference with its status.
  \<^verbatim>\<open>dtNavMeshParams\<close> is the 28 bytes of the struct, which the wrappers only copy.
\<close>

type_synonym dtNavMeshParams = "byte list"

record 'm detour =
  dtAllocNavMesh :: "heap \<Rightarrow> 'm option \<times> heap"
  init :: "'m \<Rightarrow> heap \<Rightarrow> dtNavMeshParams \<Rightarrow> dtStatus \<times> 'm \<times> heap"
  addTile :: "'m \<Rightarrow> heap \<Rightarrow> ptr \<Rightarrow> 32 word \<Rightarrow> int \<Rightarrow> dtTileRef
              \<Rightarrow> dtStatus \<times> 'm \<times> heap \<times> dtTileRef"
  dtFreeNavMesh :: "'m \<Rightarrow> heap \<Rightarrow> heap"

text \<open>
  \<^verbatim>\<open>rcnTileData\<close> carries a data pointer, its size and the flag \<^verbatim>\<open>isOwned\<close>. A null
  \<^verbatim>\<open>rcnTileData*\<close> or \<^verbatim>\<open>dtNavMesh*\<close> argument is \<open>None\<close>. The result of
  \<^verbatim>\<open>dtnmAddTile\<close> is the status, the heap, the container, the buffer and the reference
  that \<^verbatim>\<open>addTile\<close> gave, if it was called.
\<close>

record rcnTileData =
  td_data :: ptr
  td_dataSize :: "32 word"
  td_isOwned :: bool

definition dtnmAddTile ::
  "'m detour \<Rightarrow> heap \<Rightarrow> 'm option \<Rightarrow> rcnTileData option \<Rightarrow> dtTileRef
   \<Rightarrow> dtStatus \<times> heap \<times> 'm option \<times> rcnTileData option \<times> dtTileRef option" where
  "dtnmAddTile ops h navMesh tileData lastRef =
     (case (navMesh, tileData) of
        (Some m, Some td) \<Rightarrow>
          if td_data td = 0 \<or> sint (td_dataSize td) < 1 \<or> td_isOwned td
          then (DT_FAILURE + DT_INVALID_PARAM, h, navMesh, tileData, None)
          else
            (case addTile ops m h (td_data td) (td_dataSize td) DT_TILE_FREE_DATA lastRef of
               (status, m', h', r) \<Rightarrow>
                 (status, h', Some m',
                  Some (if dtStatusSucceed status then td\<lparr>td_isOwned := True\<rparr> else td), Some r))
      | _ \<Rightarrow> (DT_FAILURE + DT_INVALID_PARAM, h, navMesh, tileData, None))"

definition dtnmFreeTileData :: "heap \<Rightarrow> rcnTileData option \<Rightarrow> heap \<times> rcnTileData option" where
  "dtnmFreeTileData h tileData =
     (case tileData of
        None \<Rightarrow> (h, tileData)
      | Some td \<Rightarrow>
          if td_data td = 0 \<or> td_isOwned td then (h, tileData)
          else (free (td_data td) h, Some (td\<lparr>td_data := 0, td_dataSize := 0\<rparr>)))"

section \<open>The message arena of the build context (NMGen.h, BuildContext.cpp)\<close>

text \<open>
  \<^verbatim>\<open>nmgBuildContext\<close> holds a fixed pool of \<^verbatim>\<open>MESSAGE_POOL_SIZE\<close> bytes and a table of
  \<^verbatim>\<open>MAX_MESSAGES\<close> pointers into it; a pointer is an offset into the pool. The constructor
  initialises the two counters only, so the first contents of the table and of the pool are
  whatever the memory held: they are the arguments of \<open>nmgBuildContext_new\<close>. A message is
  the C string \<^verbatim>\<open>rcContext::log\<close> formats: \<open>message\<close> holds its characters,
  \<^verbatim>\<open>messageLength\<close> is their number, and a NUL follows them in the source buffer.
\<close>

definition MAX_MESSAGES :: int where "MAX_MESSAGES = 1024"
definition MESSAGE_POOL_SIZE :: int where "MESSAGE_POOL_SIZE = 65536"

record nmgBuildContext =
  m_logEnabled :: bool
  mMessages :: "nat list"
  mMessageCount :: int
  mTextPool :: "byte list"
  mTextPoolSize :: int

definition nmgBuildContext_new :: "nat list \<Rightarrow> byte list \<Rightarrow> nmgBuildContext" where
  "nmgBuildContext_new table0 pool0 =
     \<lparr>m_logEnabled = True, mMessages = table0, mMessageCount = 0,
      mTextPool = pool0, mTextPoolSize = 0\<rparr>"

definition doResetLog :: "nmgBuildContext \<Rightarrow> nmgBuildContext" where
  "doResetLog c = c\<lparr>mMessageCount := 0, mTextPoolSize := 0\<rparr>"

definition doLog :: "nmgBuildContext \<Rightarrow> byte list \<Rightarrow> nmgBuildContext" where
  "doLog c message =
     (let messageLength = int (length message) in
      if \<not> m_logEnabled c \<or> messageLength = 0 \<or> mMessageCount c \<ge> MAX_MESSAGES then c
      else
        let remainingSpace = MESSAGE_POOL_SIZE - mTextPoolSize c in
        if remainingSpace < 1 then c
        else
          let realLength = min (messageLength + 1) (remainingSpace - 1);
              pEntry = nat (mTextPoolSize c);
              copied = take pEntry (mTextPool c) @ take (nat realLength) (message @ [0])
                         @ drop (pEntry + nat realLength) (mTextPool c);
              terminated = copied[nat (mTextPoolSize c + realLength - 1) := 0]
          in c\<lparr>mTextPool := terminated,
                mTextPoolSize := mTextPoolSize c + realLength,
                mMessages := (mMessages c)[nat (mMessageCount c) := pEntry],
                mMessageCount := mMessageCount c + 1\<rparr>)"

definition getMessageCount :: "nmgBuildContext \<Rightarrow> int" where
  "getMessageCount c = mMessageCount c"

definition getMessage :: "nmgBuildContext \<Rightarrow> nat \<Rightarrow> nat" where
  "getMessage c i = mMessages c ! i"

text \<open>
  A stored message is read as a C string from its entry pointer; it is terminated within
  the pool when a NUL byte lies at or after that offset inside the pool.
\<close>

definition terminatedInPool :: "nmgBuildContext \<Rightarrow> nat \<Rightarrow> bool" where
  "terminatedInPool c p = (0 \<in> set (drop p (mTextPool c)))"

text \<open>The state after \<open>k\<close> messages of 511 characters on a fresh context.\<close>

definition filled :: "nat \<Rightarrow> nmgBuildContext \<Rightarrow> bool" where
  "filled k c = (m_logEnabled c \<and> mMessageCount c = int k \<and> mTextPoolSize c = 512 * int k \<and>
     length (mTextPool c) = 65536 \<and> mTextPool c ! 65535 = 0xCD \<and> length (mMessages c) = 1024)"

text \<open>
  What every log call and reset keeps: the count within the table, the write offset inside
  the pool, the pool's size, and a NUL in the byte before the write offset.
\<close>

definition arena_inv :: "nmgBuildContext \<Rightarrow> bool" where
  "arena_inv c =
     (0 \<le> mMessageCount c \<and> mMessageCount c \<le> MAX_MESSAGES \<and>
      0 \<le> mTextPoolSize c \<and> mTextPoolSize c < MESSAGE_POOL_SIZE \<and>
      int (length (mTextPool c)) = MESSAGE_POOL_SIZE \<and>
      (0 < mTextPoolSize c \<longrightarrow> mTextPool c ! nat (mTextPoolSize c - 1) = 0))"

section \<open>Vertex deduplication and flattening (NMGen.h, PolyMeshDetailEx.cpp)\<close>

text \<open>
  Coordinates are \<^verbatim>\<open>float\<close>s: IEEE 754 binary32 values, held here as their 32-bit patterns
  (one sign bit, eight exponent bits, 23 fraction bits). A finite binary32 value is an
  integer multiple of \<^verbatim>\<open>2^-149\<close>, and \<open>Finite k\<close> stands for \<open>k\<close> times \<^verbatim>\<open>2^-149\<close>; the two
  zeros compare equal and are both \<open>Finite 0\<close>. \<open>Infinity s\<close> is the infinity of sign \<open>s\<close>
  (\<open>True\<close>: negative). Each operation is rounded to binary32, to nearest with ties to
  even, with no wider intermediate (the \<^verbatim>\<open>float\<close> evaluation of SSE code). A vertex array
  \<^verbatim>\<open>(x, y, z, x, y, z, ...)\<close> is a list of triples: entry \<open>i\<close> stands for the floats at
  \<open>3i\<close>, \<open>3i + 1\<close> and \<open>3i + 2\<close>.
\<close>

type_synonym float32 = "32 word"

datatype fval = Finite int | Infinity bool | NaN

definition fsign :: "float32 \<Rightarrow> bool" where
  "fsign w = (2 ^ 31 \<le> uint w)"

definition fexp :: "float32 \<Rightarrow> int" where
  "fexp w = (uint w div 2 ^ 23) mod 256"

definition ffrac :: "float32 \<Rightarrow> int" where
  "ffrac w = uint w mod 2 ^ 23"

definition valof :: "float32 \<Rightarrow> fval" where
  "valof w =
     (if fexp w = 255 then (if ffrac w = 0 then Infinity (fsign w) else NaN)
      else Finite ((if fsign w then - 1 else 1) *
                   (if fexp w = 0 then ffrac w
                    else (2 ^ 23 + ffrac w) * 2 ^ nat (fexp w - 1))))"

text \<open>
  Rounding a magnitude \<open>n\<close> (in units of \<^verbatim>\<open>2^-149\<close>) to 24 significant bits: \<open>excess n\<close> is
  the number of low bits that do not fit, \<open>roundmag n\<close> the nearest multiple of
  \<open>2 ^ excess n\<close>, the even one of two equally near. A result of \<open>2 ^ 277\<close> or more is past
  the largest finite binary32 value and becomes an infinity.
\<close>

fun excess :: "int \<Rightarrow> nat" where
  "excess n = (if n < 2 ^ 24 then 0 else Suc (excess (n div 2)))"

definition roundmag :: "int \<Rightarrow> int" where
  "roundmag n =
     (let k = excess n; q = n div 2 ^ k; r = n mod 2 ^ k
      in (if 2 ^ k < 2 * r \<or> (2 * r = 2 ^ k \<and> odd q) then q + 1 else q) * 2 ^ k)"

definition fround :: "int \<Rightarrow> fval" where
  "fround x =
     (let m = roundmag \<bar>x\<bar>
      in if 2 ^ 277 \<le> m then Infinity (x < 0) else Finite (sgn x * m))"

fun fadd :: "fval \<Rightarrow> fval \<Rightarrow> fval" where
  "fadd (Finite x) (Finite y) = fround (x + y)"
| "fadd (Finite x) (Infinity t) = Infinity t"
| "fadd (Infinity s) (Finite y) = Infinity s"
| "fadd (Infinity s) (Infinity t) = (if s = t then Infinity s else NaN)"
| "fadd NaN b = NaN"
| "fadd a NaN = NaN"

fun fneg :: "fval \<Rightarrow> fval" where
  "fneg (Finite x) = Finite (- x)"
| "fneg (Infinity s) = Infinity (\<not> s)"
| "fneg NaN = NaN"

definition fsub :: "fval \<Rightarrow> fval \<Rightarrow> fval" where
  "fsub a b = fadd a (fneg b)"

text \<open>The comparison \<^verbatim>\<open><\<close>; it is false when an operand is not a number.\<close>

fun fless :: "fval \<Rightarrow> fval \<Rightarrow> bool" where
  "fless (Finite x) (Finite y) = (x < y)"
| "fless (Finite x) (Infinity t) = (\<not> t)"
| "fless (Infinity s) (Finite y) = s"
| "fless (Infinity s) (Infinity t) = (s \<and> \<not> t)"
| "fless NaN b = False"
| "fless a NaN = False"

type_synonym vert = "float32 \<times> float32 \<times> float32"

text \<open>\<^verbatim>\<open>NMG_TOLERANCE = 0.0001f\<close>, the binary32 value 13743895 times \<^verbatim>\<open>2^-37\<close>.\<close>

definition NMG_TOLERANCE :: float32 where "NMG_TOLERANCE = 0x38D1B717"

text \<open>
  \<^verbatim>\<open>nmgSloppyEquals\<close> at \<^verbatim>\<open>T = float\<close>:
  \<^verbatim>\<open>!(b < a - NMG_TOLERANCE || b > a + NMG_TOLERANCE)\<close>.
\<close>

definition nmgSloppyEquals :: "float32 \<Rightarrow> float32 \<Rightarrow> bool" where
  "nmgSloppyEquals a b =
     (\<not> (fless (valof b) (fsub (valof a) (valof NMG_TOLERANCE))
         \<or> fless (fadd (valof a) (valof NMG_TOLERANCE)) (valof b)))"

text \<open>The three-axis test of the inner loop: \<open>s\<close> a source vertex, \<open>r\<close> a result vertex.\<close>

fun vertSloppyEquals :: "vert \<Rightarrow> vert \<Rightarrow> bool" where
  "vertSloppyEquals (sx, sy, sz) (rx, ry, rz) =
     (nmgSloppyEquals sx rx \<and> nmgSloppyEquals sy ry \<and> nmgSloppyEquals sz rz)"

text \<open>
  The inner loop over \<open>j\<close>: the index of the first result vertex that matches, or the
  result count when none does (\<open>index\<close> keeps its initial value).
\<close>

fun seenIndex :: "vert \<Rightarrow> vert list \<Rightarrow> nat \<Rightarrow> nat" where
  "seenIndex v [] j = j"
| "seenIndex v (r # rs) j = (if vertSloppyEquals v r then j else seenIndex v rs (Suc j))"

text \<open>
  The outer loop over \<open>i\<close>, with the result vertices written so far and the index map
  written so far as its state.
\<close>

fun dedupLoop :: "vert list \<Rightarrow> vert list \<Rightarrow> nat list \<Rightarrow> vert list \<times> nat list" where
  "dedupLoop [] resultVerts indicesMap = (resultVerts, indicesMap)"
| "dedupLoop (v # vs) resultVerts indicesMap =
     (let index = seenIndex v resultVerts 0
      in dedupLoop vs
           (if index = length resultVerts then resultVerts @ [v] else resultVerts)
           (indicesMap @ [index]))"

text \<open>
  \<^verbatim>\<open>removeDuplicateVerts\<close> returns the result count; the written part of \<^verbatim>\<open>resultVerts\<close>
  and of \<^verbatim>\<open>indicesMap\<close> are returned with it. It reads \<open>vertCount\<close> source vertices.
\<close>

definition removeDuplicateVerts :: "nat \<Rightarrow> vert list \<Rightarrow> nat \<times> vert list \<times> nat list" where
  "removeDuplicateVerts vertCount sourceVerts =
     (case dedupLoop (take vertCount sourceVerts) [] [] of
        (resultVerts, indicesMap) \<Rightarrow> (length resultVerts, resultVerts, indicesMap))"

text \<open>
  \<^verbatim>\<open>rcPolyMeshDetail\<close> as \<^verbatim>\<open>rcpdFlattenMesh\<close> reads it: the sub-mesh table (four unsigned
  ints per sub-mesh: vertex base, vertex count, triangle base, triangle count), the
  vertices, the triangles (four bytes each: three indices and the flags) and the three
  counts. A read or a write outside an array has no defined result (\<open>None\<close>).
\<close>

record rcPolyMeshDetail =
  dm_meshes :: "32 word list"
  dm_verts :: "vert list"
  dm_tris :: "byte list"
  dm_nmeshes :: int
  dm_nverts :: int
  dm_ntris :: int

text \<open>The innermost loop: the three corners of the triangle at \<open>tri\<close>.\<close>

fun flattenCorners ::
  "nat list \<Rightarrow> byte list \<Rightarrow> int \<Rightarrow> int \<Rightarrow> nat list \<Rightarrow> int list \<times> int \<Rightarrow> (int list \<times> int) option" where
  "flattenCorners vertMap tris vBase tri [] st = Some st"
| "flattenCorners vertMap tris vBase tri (i # is) (out, pCurrentTri) =
     (case rd tris (tri + int i) of
        None \<Rightarrow> None
      | Some c \<Rightarrow>
          (case rd vertMap (vBase + uint c) of
             None \<Rightarrow> None
           | Some g \<Rightarrow>
               (case wr out pCurrentTri (int g) of
                  None \<Rightarrow> None
                | Some out' \<Rightarrow> flattenCorners vertMap tris vBase tri is (out', pCurrentTri + 1))))"

text \<open>The loop over the triangles \<open>iTri\<close> of one sub-mesh.\<close>

fun flattenTris ::
  "nat list \<Rightarrow> byte list \<Rightarrow> int \<Rightarrow> int \<Rightarrow> nat list \<Rightarrow> int list \<times> int \<Rightarrow> (int list \<times> int) option" where
  "flattenTris vertMap tris vBase tBase [] st = Some st"
| "flattenTris vertMap tris vBase tBase (iTri # rest) st =
     (case flattenCorners vertMap tris vBase ((tBase + int iTri) * 4) [0, 1, 2] st of
        None \<Rightarrow> None
      | Some st' \<Rightarrow> flattenTris vertMap tris vBase tBase rest st')"

text \<open>The loop over the sub-meshes \<open>iMesh\<close>; the table entries are read as \<^verbatim>\<open>int\<close>.\<close>

fun flattenMeshes ::
  "nat list \<Rightarrow> 32 word list \<Rightarrow> byte list \<Rightarrow> nat list \<Rightarrow> int list \<times> int \<Rightarrow> (int list \<times> int) option" where
  "flattenMeshes vertMap meshes tris [] st = Some st"
| "flattenMeshes vertMap meshes tris (iMesh # rest) st =
     (case (rd meshes (int iMesh * 4 + 0), rd meshes (int iMesh * 4 + 2), rd meshes (int iMesh * 4 + 3)) of
        (Some vBase, Some tBase, Some tCount) \<Rightarrow>
          (case flattenTris vertMap tris (sint vBase) (sint tBase) [0..<nat (sint tCount)] st of
             None \<Rightarrow> None
           | Some st' \<Rightarrow> flattenMeshes vertMap meshes tris rest st')
      | _ \<Rightarrow> None)"

text \<open>
  \<^verbatim>\<open>rcpdFlattenMesh\<close>. A null pointer argument is \<open>None\<close>; an output argument that is not
  null carries what the caller's buffer or counter holds. The result is the returned flag
  and the four outputs after the call.
\<close>

definition rcpdFlattenMesh ::
  "rcPolyMeshDetail option \<Rightarrow> vert list option \<Rightarrow> int option \<Rightarrow> int
   \<Rightarrow> int list option \<Rightarrow> int option \<Rightarrow> int
   \<Rightarrow> (bool \<times> vert list option \<times> int option \<times> int list option \<times> int option) option" where
  "rcpdFlattenMesh detailMesh verts vertCount vertsSize tris triCount trisSize =
     (case (detailMesh, verts, vertCount, tris, triCount) of
        (Some dm, Some vbuf, Some vc, Some tbuf, Some tc) \<Rightarrow>
          if trisSize < dm_ntris dm then Some (False, verts, vertCount, tris, triCount)
          else if dm_nverts dm < 0 \<or> int (length (dm_verts dm)) < dm_nverts dm then None
          else
            (case removeDuplicateVerts (nat (dm_nverts dm)) (dm_verts dm) of
               (resultVertCount, uniqueVerts, vertMap) \<Rightarrow>
                 if vertsSize < int resultVertCount then Some (False, verts, vertCount, tris, triCount)
                 else if length vbuf < resultVertCount then None
                 else
                   (case flattenMeshes vertMap (dm_meshes dm) (dm_tris dm)
                           [0..<nat (dm_nmeshes dm)] (tbuf, 0) of
                      None \<Rightarrow> None
                    | Some (tbuf', pCurrentTri) \<Rightarrow>
                        Some (True, Some (uniqueVerts @ drop resultVertCount vbuf),
                              Some (int resultVertCount), Some tbuf', Some (dm_ntris dm))))
      | _ \<Rightarrow> Some (False, verts, vertCount, tris, triCount))"

text \<open>
  The vertices of the examples: three points on the x axis, the floats \<^verbatim>\<open>0.0f\<close>,
  \<^verbatim>\<open>0.00009f\<close> and \<^verbatim>\<open>0.00018f\<close>.
\<close>

definition chain3 :: "vert list" where
  "chain3 = [(0, 0, 0), (0x38BCBE62, 0, 0), (0x393CBE62, 0, 0)]"

text \<open>
  The exact distance of two finite floats is at most \<open>1/10000\<close>: the tolerance test
  without rounding, on the scaled values.
\<close>

definition withinExact :: "float32 \<Rightarrow> float32 \<Rightarrow> bool" where
  "withinExact a b =
     (case (valof a, valof b) of
        (Finite x, Finite y) \<Rightarrow> 10000 * \<bar>x - y\<bar> \<le> 2 ^ 149
      | _ \<Rightarrow> False)"

text \<open>
  The first result vertex that the inner loop accepts for a source vertex: \<open>k\<close> matches
  and no earlier result vertex does.
\<close>

definition firstMatch :: "vert \<Rightarrow> vert list \<Rightarrow> nat \<Rightarrow> bool" where
  "firstMatch v res k =
     (k < length res \<and> vertSloppyEquals v (res ! k)
      \<and> list_all (\<lambda>r. \<not> vertSloppyEquals v r) (take k res))"

text \<open>
  A binary32 magnitude: at most 24 significant bits, and an exponent in the finite range.
\<close>

definition representable :: "int \<Rightarrow> bool" where
  "representable x = (\<exists>m j. x = m * 2 ^ j \<and> 0 \<le> m \<and> m < 2 ^ 24 \<and> j \<le> 253)"

text \<open>
  The loop invariant of \<^verbatim>\<open>removeDuplicateVerts\<close>, for the source vertices \<open>src\<close> read so
  far: every index maps to the first result vertex matching its vertex, and every result
  vertex \<open>k\<close> is the source vertex of the first index mapped to \<open>k\<close>, before which only
  smaller indices were given out.
\<close>

definition dedup_inv :: "vert list \<Rightarrow> vert list \<Rightarrow> nat list \<Rightarrow> bool" where
  "dedup_inv src res imap =
     (length imap = length src \<and>
      (\<forall>i<length src. imap ! i = seenIndex (src ! i) res 0 \<and> imap ! i < length res) \<and>
      (\<forall>k<length res. \<exists>i<length src. imap ! i = k \<and> src ! i = res ! k \<and> (\<forall>i'<i. imap ! i' < k)))"

text \<open>
  A two-sub-mesh detail mesh for the examples: six vertices, one shared, two triangles.
  The coordinates are the floats \<^verbatim>\<open>0.0f\<close>, \<^verbatim>\<open>1.0f\<close> and \<^verbatim>\<open>2.0f\<close>; \<open>nines\<close> is a caller's
  buffer of six vertices, all \<^verbatim>\<open>9.0f\<close>.
\<close>

definition twoTris :: rcPolyMeshDetail where
  "twoTris = \<lparr>dm_meshes = [0, 3, 0, 1, 3, 3, 1, 1],
               dm_verts = [(0, 0, 0), (0x3F800000, 0, 0), (0, 0, 0x3F800000),
                           (0, 0, 0x3F800000), (0x40000000, 0, 0), (0x40000000, 0, 0x40000000)],
               dm_tris = [0, 1, 2, 0, 0, 1, 2, 0],
               dm_nmeshes = 2, dm_nverts = 6, dm_ntris = 2\<rparr>"

definition nines :: "vert list" where
  "nines = replicate 6 (0x41100000, 0x41100000, 0x41100000)"

section \<open>The detail-mesh record and its serializer (PolyMeshDetailEx.cpp)\<close>

text \<open>
  \<^verbatim>\<open>nmgPolyMeshDetail\<close>: the three array pointers and three counts of \<^verbatim>\<open>rcPolyMeshDetail\<close>,
  then the three capacities and the resource type. The serializer copies the arrays as raw
  bytes, so here an array is the heap block behind its pointer. The header
  \<^verbatim>\<open>nmgPolyMeshDetailHeader\<close> is seven four-byte fields: \<^verbatim>\<open>nmeshes\<close>, \<^verbatim>\<open>nverts\<close>,
  \<^verbatim>\<open>ntris\<close>, \<^verbatim>\<open>maxmeshes\<close>, \<^verbatim>\<open>maxverts\<close>, \<^verbatim>\<open>maxtris\<close>, \<^verbatim>\<open>version\<close>. Sizes are computed in
  32-bit arithmetic, which wraps.
\<close>

definition NMG_ALLOC_TYPE_EXTERN :: byte where "NMG_ALLOC_TYPE_EXTERN = 0"
definition NMG_ALLOC_TYPE_LOCAL :: byte where "NMG_ALLOC_TYPE_LOCAL = 1"
definition NMG_ALLOC_TYPE_MANAGED_LOCAL :: byte where "NMG_ALLOC_TYPE_MANAGED_LOCAL = 2"

definition NMG_POLYMESHDETAIL_VERSION :: "32 word" where "NMG_POLYMESHDETAIL_VERSION = 1"

record nmgPolyMeshDetail =
  pd_meshes :: ptr
  pd_verts :: ptr
  pd_tris :: ptr
  pd_nmeshes :: "32 word"
  pd_nverts :: "32 word"
  pd_ntris :: "32 word"
  pd_maxmeshes :: "32 word"
  pd_maxverts :: "32 word"
  pd_maxtris :: "32 word"
  pd_resourcetype :: byte

definition pd_headerSize :: "32 word" where "pd_headerSize = 28"

definition pd_vertSize :: "32 word \<Rightarrow> 32 word" where
  "pd_vertSize vertCount = 4 * (vertCount * 3)"

definition pd_meshSize :: "32 word \<Rightarrow> 32 word" where
  "pd_meshSize meshCount = 4 * (meshCount * 4)"

definition pd_trisSize :: "32 word \<Rightarrow> 32 word" where
  "pd_trisSize triCount = 1 * (triCount * 4)"

definition rcpdFreeMeshData :: "heap \<Rightarrow> nmgPolyMeshDetail option \<Rightarrow> bool \<times> heap" where
  "rcpdFreeMeshData h mesh =
     (case mesh of
        None \<Rightarrow> (False, h)
      | Some m \<Rightarrow>
          if pd_resourcetype m = NMG_ALLOC_TYPE_LOCAL
          then (True, free (pd_tris m) (free (pd_verts m) (free (pd_meshes m) h)))
          else (False, h))"

text \<open>
  \<^verbatim>\<open>rcpdGetSerializedData\<close>. The two output arguments carry what the caller's variables
  hold (\<open>None\<close>: a null pointer). The result is the returned flag, the heap and the two
  outputs.
\<close>

definition rcpdGetSerializedData ::
  "heap \<Rightarrow> nmgPolyMeshDetail option \<Rightarrow> bool \<Rightarrow> ptr option \<Rightarrow> 32 word option
   \<Rightarrow> (bool \<times> heap \<times> ptr option \<times> 32 word option) option" where
  "rcpdGetSerializedData h mesh includeBuffer resultData dataSize =
     (case (mesh, resultData, dataSize) of
        (Some m, Some rd0, Some ds0) \<Rightarrow>
          if pd_maxmeshes m = 0 then Some (False, h, resultData, dataSize)
          else
            let meshCount = (if includeBuffer then pd_maxmeshes m else pd_nmeshes m);
                vertCount = (if includeBuffer then pd_maxverts m else pd_nverts m);
                triCount = (if includeBuffer then pd_maxtris m else pd_ntris m);
                header = bytes32 (pd_nmeshes m) @ bytes32 (pd_nverts m) @ bytes32 (pd_ntris m)
                           @ bytes32 meshCount @ bytes32 vertCount @ bytes32 triCount
                           @ bytes32 NMG_POLYMESHDETAIL_VERSION;
                headerSize = pd_headerSize;
                vertSize = pd_vertSize vertCount;
                meshSize = pd_meshSize meshCount;
                trisSize = pd_trisSize triCount;
                totalDataSize = headerSize + vertSize + meshSize + trisSize
            in
              (case alloc (sint totalDataSize) h of
                 (p, h0) \<Rightarrow>
                   if p = 0 then Some (False, h0, resultData, dataSize)
                   else
                     (case memcpy_to h0 p 0 header 0 (sint headerSize) of
                        None \<Rightarrow> None
                      | Some h1 \<Rightarrow>
                     (case memcpy_to h1 p (sint headerSize) (deref h1 (pd_meshes m)) 0 (sint meshSize) of
                        None \<Rightarrow> None
                      | Some h2 \<Rightarrow>
                     (case memcpy_to h2 p (sint (headerSize + meshSize)) (deref h2 (pd_tris m)) 0
                             (sint trisSize) of
                        None \<Rightarrow> None
                      | Some h3 \<Rightarrow>
                     (case memcpy_to h3 p (sint (headerSize + meshSize + trisSize))
                             (deref h3 (pd_verts m)) 0 (sint vertSize) of
                        None \<Rightarrow> None
                      | Some h4 \<Rightarrow> Some (True, h4, Some p, Some totalDataSize))))))
      | _ \<Rightarrow> Some (False, h, resultData, dataSize))"

text \<open>
  \<^verbatim>\<open>rcpdBuildFromMeshData\<close>. \<open>meshData\<close> is the caller's buffer with its true extent,
  \<open>dataSize\<close> the size the caller states. The result is the returned flag, the heap and the
  target record after the call.
\<close>

definition rcpdBuildFromMeshData ::
  "heap \<Rightarrow> byte list option \<Rightarrow> 32 word \<Rightarrow> nmgPolyMeshDetail option
   \<Rightarrow> (bool \<times> heap \<times> nmgPolyMeshDetail option) option" where
  "rcpdBuildFromMeshData h meshData dataSize resultMesh =
     (case (meshData, resultMesh) of
        (Some d, Some rm) \<Rightarrow>
          if pd_maxmeshes rm \<noteq> 0 \<or> sint dataSize < sint pd_headerSize
          then Some (False, h, resultMesh)
          else
            (case rdbytes d 0 (sint pd_headerSize) of
               None \<Rightarrow> None
             | Some header \<Rightarrow>
                 if field32 header 24 \<noteq> NMG_POLYMESHDETAIL_VERSION then Some (False, h, resultMesh)
                 else
                   let headerSize = pd_headerSize;
                       vertSize = pd_vertSize (field32 header 16);
                       meshSize = pd_meshSize (field32 header 12);
                       trisSize = pd_trisSize (field32 header 20);
                       totalDataSize = headerSize + vertSize + meshSize + trisSize
                   in
                     if sint dataSize < sint totalDataSize then Some (False, h, resultMesh)
                     else
                       let rm0 = rm\<lparr>pd_resourcetype := NMG_ALLOC_TYPE_LOCAL\<rparr> in
                       (case alloc (sint meshSize) h of (pm, h1) \<Rightarrow>
                        let rm1 = rm0\<lparr>pd_meshes := pm\<rparr> in
                        if pm = 0 then Some (False, snd (rcpdFreeMeshData h1 (Some rm1)), Some rm1)
                        else
                       (case alloc (sint trisSize) h1 of (pt, h2) \<Rightarrow>
                        let rm2 = rm1\<lparr>pd_tris := pt\<rparr> in
                        if pt = 0 then Some (False, snd (rcpdFreeMeshData h2 (Some rm2)), Some rm2)
                        else
                       (case alloc (sint vertSize) h2 of (pv, h3) \<Rightarrow>
                        let rm3 = rm2\<lparr>pd_verts := pv\<rparr> in
                        if pv = 0 then Some (False, snd (rcpdFreeMeshData h3 (Some rm3)), Some rm3)
                        else
                          let rm4 = rm3\<lparr>pd_nmeshes := field32 header 0,
                                          pd_nverts := field32 header 4,
                                          pd_ntris := field32 header 8,
                                          pd_maxmeshes := field32 header 12,
                                          pd_maxverts := field32 header 16,
                                          pd_maxtris := field32 header 20\<rparr>
                          in
                          (case memcpy_to h3 pm 0 d (sint headerSize) (sint meshSize) of
                             None \<Rightarrow> None
                           | Some h4 \<Rightarrow>
                          (case memcpy_to h4 pt 0 d (sint (headerSize + meshSize)) (sint trisSize) of
                             None \<Rightarrow> None
                           | Some h5 \<Rightarrow>
                          (case memcpy_to h5 pv 0 d (sint (headerSize + meshSize + trisSize))
                                  (sint vertSize) of
                             None \<Rightarrow> None
                           | Some h6 \<Rightarrow> Some (True, h6, Some rm4))))))))
      | _ \<Rightarrow> Some (False, h, resultMesh))"

text \<open>An empty detail-mesh record, as a zeroed struct, and a buffer for the examples.\<close>

definition pd_empty :: nmgPolyMeshDetail where
  "pd_empty = \<lparr>pd_meshes = 0, pd_verts = 0, pd_tris = 0, pd_nmeshes = 0, pd_nverts = 0,
                pd_ntris = 0, pd_maxmeshes = 0, pd_maxverts = 0, pd_maxtris = 0,
                pd_resourcetype = NMG_ALLOC_TYPE_EXTERN\<rparr>"

definition pd_buffer1 :: "byte list" where
  "pd_buffer1 = bytes32 1 @ bytes32 1 @ bytes32 1 @ bytes32 1 @ bytes32 1 @ bytes32 1 @ bytes32 1
                 @ replicate 16 0x11 @ replicate 4 0x22 @ replicate 12 0x33"

text \<open>A heap with the three arrays of a one-element detail mesh, and that mesh.\<close>

definition pdHeap :: heap where
  "pdHeap = \<lparr>blocks = (\<lambda>p. None)(1 \<mapsto> replicate 16 0x11, 2 \<mapsto> replicate 4 0x22, 3 \<mapsto> replicate 12 0x33),
              brk = 3, outcomes = []\<rparr>"

definition pdMesh1 :: nmgPolyMeshDetail where
  "pdMesh1 = \<lparr>pd_meshes = 1, pd_verts = 3, pd_tris = 2, pd_nmeshes = 1, pd_nverts = 1,
               pd_ntris = 1, pd_maxmeshes = 1, pd_maxverts = 1, pd_maxtris = 1,
               pd_resourcetype = NMG_ALLOC_TYPE_LOCAL\<rparr>"

section \<open>The polygon-mesh record and its deserializer (PolyMeshEx.cpp)\<close>

text \<open>
  \<^verbatim>\<open>rcPolyMesh\<close> as the wrapper uses it: five array pointers, then the fields that
  \<^verbatim>\<open>nmgPolyMeshHeader\<close> mirrors. A \<^verbatim>\<open>float\<close> is kept as its four bytes (a 32-bit word);
  \<^verbatim>\<open>bmin\<close> and \<^verbatim>\<open>bmax\<close> are three of them each. The header is 72 bytes: \<^verbatim>\<open>nverts\<close> at 0,
  \<^verbatim>\<open>npolys\<close> at 4, \<^verbatim>\<open>maxpolys\<close> at 8, \<^verbatim>\<open>nvp\<close> at 12, \<^verbatim>\<open>bmin\<close> at 16, \<^verbatim>\<open>bmax\<close> at 28,
  \<^verbatim>\<open>cs\<close> at 40, \<^verbatim>\<open>ch\<close> at 44, \<^verbatim>\<open>borderSize\<close> at 48, \<^verbatim>\<open>maxverts\<close> at 52, the three
  walkable values at 56, 60 and 64, \<^verbatim>\<open>version\<close> at 68. The populating \<^verbatim>\<open>memcpy\<close> copies
  \<^verbatim>\<open>headerSize - cap\<close> = 56 bytes from the header to \<^verbatim>\<open>&resultMesh->nverts\<close>: the
  thirteen words up to \<^verbatim>\<open>borderSize\<close>, and four bytes more that land behind the fields
  listed here.
\<close>

definition NMG_POLYMESH_VERSION :: "32 word" where "NMG_POLYMESH_VERSION = 1"

record rcPolyMesh =
  pm_verts :: ptr
  pm_polys :: ptr
  pm_regs :: ptr
  pm_flags :: ptr
  pm_areas :: ptr
  pm_nverts :: "32 word"
  pm_npolys :: "32 word"
  pm_maxpolys :: "32 word"
  pm_nvp :: "32 word"
  pm_bmin :: "32 word list"
  pm_bmax :: "32 word list"
  pm_cs :: "32 word"
  pm_ch :: "32 word"
  pm_borderSize :: "32 word"

definition pm_headerSize :: "32 word" where "pm_headerSize = 72"

definition rcpmFreeMeshData :: "heap \<Rightarrow> rcPolyMesh option \<Rightarrow> bool \<times> heap \<times> rcPolyMesh option" where
  "rcpmFreeMeshData h mesh =
     (case mesh of
        None \<Rightarrow> (False, h, None)
      | Some m \<Rightarrow>
          (True,
           free (pm_flags m) (free (pm_areas m) (free (pm_regs m) (free (pm_verts m) (free (pm_polys m) h)))),
           Some (m\<lparr>pm_polys := 0, pm_verts := 0, pm_regs := 0, pm_areas := 0, pm_flags := 0,
                   pm_borderSize := 0, pm_ch := 0, pm_cs := 0, pm_maxpolys := 0, pm_npolys := 0,
                   pm_nverts := 0, pm_nvp := 0, pm_bmin := [0, 0, 0], pm_bmax := [0, 0, 0]\<rparr>)))"

text \<open>
  \<^verbatim>\<open>rcpmBuildSerializedData\<close>. The four output arguments carry what the caller's variables
  hold (\<open>None\<close>: a null pointer). The result is the returned flag, the heap, the target
  record and the four outputs.
\<close>

definition rcpmBuildSerializedData ::
  "heap \<Rightarrow> byte list option \<Rightarrow> 32 word \<Rightarrow> rcPolyMesh option
   \<Rightarrow> 32 word option \<Rightarrow> 32 word option \<Rightarrow> 32 word option \<Rightarrow> 32 word option
   \<Rightarrow> (bool \<times> heap \<times> rcPolyMesh option
        \<times> 32 word option \<times> 32 word option \<times> 32 word option \<times> 32 word option) option" where
  "rcpmBuildSerializedData h meshData dataSize resultMesh maxVerts walkableHeight walkableRadius walkableStep =
     (case (meshData, resultMesh, maxVerts, walkableHeight, walkableRadius, walkableStep) of
        (Some d, Some rm, Some mv0, Some wh0, Some wr0, Some ws0) \<Rightarrow>
          if pm_polys rm \<noteq> 0 \<or> sint dataSize < sint pm_headerSize
          then Some (False, h, resultMesh, maxVerts, walkableHeight, walkableRadius, walkableStep)
          else
            (case rdbytes d 0 (sint pm_headerSize) of
               None \<Rightarrow> None
             | Some header \<Rightarrow>
                 if field32 header 68 \<noteq> NMG_POLYMESH_VERSION
                 then Some (False, h, resultMesh, maxVerts, walkableHeight, walkableRadius, walkableStep)
                 else
                   let headerSize = pm_headerSize;
                       h_maxverts = field32 header 52;
                       h_maxpolys = field32 header 8;
                       h_nvp = field32 header 12;
                       vertSize = 2 * (h_maxverts * 3);
                       polySize = 2 * (h_maxpolys * 2 * h_nvp);
                       regionFlagSize = 2 * h_maxpolys;
                       areaSize = 1 * h_maxpolys;
                       totalDataSize = headerSize + vertSize + polySize + 2 * regionFlagSize + areaSize;
                       fail = (\<lambda>hh r. case rcpmFreeMeshData hh (Some r) of
                                 (b, hh', r') \<Rightarrow>
                                   Some (False, hh', r', maxVerts, walkableHeight, walkableRadius, walkableStep))
                   in
                     if sint dataSize < sint totalDataSize
                     then Some (False, h, resultMesh, maxVerts, walkableHeight, walkableRadius, walkableStep)
                     else
                       (case alloc (sint vertSize) h of (pv, h1) \<Rightarrow>
                        let rm1 = rm\<lparr>pm_verts := pv\<rparr> in
                        if pv = 0 then fail h1 rm1 else
                       (case alloc (sint polySize) h1 of (pp, h2) \<Rightarrow>
                        let rm2 = rm1\<lparr>pm_polys := pp\<rparr> in
                        if pp = 0 then fail h2 rm2 else
                       (case alloc (sint regionFlagSize) h2 of (pr, h3) \<Rightarrow>
                        let rm3 = rm2\<lparr>pm_regs := pr\<rparr> in
                        if pr = 0 then fail h3 rm3 else
                       (case alloc (sint regionFlagSize) h3 of (pf, h4) \<Rightarrow>
                        let rm4 = rm3\<lparr>pm_flags := pf\<rparr> in
                        if pf = 0 then fail h4 rm4 else
                       (case alloc (sint areaSize) h4 of (pa, h5) \<Rightarrow>
                        let rm5 = rm4\<lparr>pm_areas := pa\<rparr> in
                        if pa = 0 then fail h5 rm5 else
                          let rm6 = rm5\<lparr>pm_nverts := field32 header 0,
                                          pm_npolys := field32 header 4,
                                          pm_maxpolys := field32 header 8,
                                          pm_nvp := field32 header 12,
                                          pm_bmin := [field32 header 16, field32 header 20, field32 header 24],
                                          pm_bmax := [field32 header 28, field32 header 32, field32 header 36],
                                          pm_cs := field32 header 40,
                                          pm_ch := field32 header 44,
                                          pm_borderSize := field32 header 48\<rparr>
                          in
                          (case memcpy_to h5 pv 0 d (sint headerSize) (sint vertSize) of
                             None \<Rightarrow> None
                           | Some h6 \<Rightarrow>
                          (case memcpy_to h6 pp 0 d (sint (headerSize + vertSize)) (sint polySize) of
                             None \<Rightarrow> None
                           | Some h7 \<Rightarrow>
                          (case memcpy_to h7 pr 0 d (sint (headerSize + vertSize + polySize))
                                  (sint regionFlagSize) of
                             None \<Rightarrow> None
                           | Some h8 \<Rightarrow>
                          (case memcpy_to h8 pf 0 d
                                  (sint (headerSize + vertSize + polySize + regionFlagSize))
                                  (sint regionFlagSize) of
                             None \<Rightarrow> None
                           | Some h9 \<Rightarrow>
                          (case memcpy_to h9 pa 0 d
                                  (sint (headerSize + vertSize + polySize + regionFlagSize + regionFlagSize))
                                  (sint areaSize) of
                             None \<Rightarrow> None
                           | Some h10 \<Rightarrow>
                               Some (True, h10, Some rm6, Some (field32 header 52),
                                     Some (field32 header 56), Some (field32 header 60),
                                     Some (field32 header 64)))))))))))))
      | _ \<Rightarrow> Some (False, h, resultMesh, maxVerts, walkableHeight, walkableRadius, walkableStep))"

text \<open>An empty polygon-mesh record, as a zeroed struct, and a buffer for the examples.\<close>

definition pm_empty :: rcPolyMesh where
  "pm_empty = \<lparr>pm_verts = 0, pm_polys = 0, pm_regs = 0, pm_flags = 0, pm_areas = 0,
                pm_nverts = 0, pm_npolys = 0, pm_maxpolys = 0, pm_nvp = 0,
                pm_bmin = [0, 0, 0], pm_bmax = [0, 0, 0], pm_cs = 0, pm_ch = 0,
                pm_borderSize = 0\<rparr>"

definition pm_buffer1 :: "byte list" where
  "pm_buffer1 = bytes32 1 @ bytes32 1 @ bytes32 1 @ bytes32 3 @ replicate 24 0 @ bytes32 7 @ bytes32 7
                 @ bytes32 0 @ bytes32 1 @ bytes32 5 @ bytes32 5 @ bytes32 5 @ bytes32 1
                 @ replicate 6 0x11 @ replicate 12 0x22 @ replicate 2 0x33 @ replicate 2 0x44 @ [0x55]"

section \<open>The tile-set archive (DetourNavMeshBuildEx.cpp)\<close>

text \<open>
  \<^verbatim>\<open>rcnNavMeshSetHeader\<close> is 36 bytes: \<^verbatim>\<open>version\<close> at 0, \<^verbatim>\<open>tileCount\<close> at 4 and the 28
  bytes of \<^verbatim>\<open>dtNavMeshParams\<close> at 8.
\<close>

definition RCN_NAVMESH_VERSION :: "32 word" where "RCN_NAVMESH_VERSION = 1"

definition setHeaderSize :: "32 word" where "setHeaderSize = 36"

text \<open>
  Modelled from the spec: the layout of \<^verbatim>\<open>rcnNavMeshTileHeader\<close>, whose field type
  \<^verbatim>\<open>dtTileRef\<close> is declared in Detour's headers. The spec's external interface gives
  \<^verbatim>\<open>TileRecordHeader { uint64 tileRef; int32 dataSize }\<close>, packed: 12 bytes, the reference
  at 0 and the size at 8.
\<close>

definition tileHeaderSize :: "32 word" where "tileHeaderSize = 12"

text \<open>
  One pass of the loop over the tile records, at offset \<open>pos\<close>: \<open>Inl\<close> is the
  \<^verbatim>\<open>break\<close> with \<^verbatim>\<open>success = false\<close> and the status set, \<open>Inr\<close> the state at the
  end of the pass.
\<close>

definition tileStep ::
  "'m detour \<Rightarrow> byte list \<Rightarrow> bool \<Rightarrow> 32 word \<times> heap \<times> 'm
   \<Rightarrow> ((dtStatus \<times> heap \<times> 'm) + (32 word \<times> heap \<times> 'm)) option" where
  "tileStep ops d safeStorage st =
     (case st of (pos, h, mesh) \<Rightarrow>
        (case rdbytes d (sint pos) (sint tileHeaderSize) of
           None \<Rightarrow> None
         | Some tileHeader \<Rightarrow>
             let pos1 = pos + tileHeaderSize;
                 tileRef = le64 tileHeader;
                 tsize = field32 tileHeader 8
             in
               if tileRef = 0 \<or> tsize = 0
               then Some (Inl (DT_FAILURE + DT_INVALID_PARAM, h, mesh))
               else
                 (case alloc (sint tsize) h of
                    (tileData, h1) \<Rightarrow>
                      if tileData = 0 then Some (Inl (DT_FAILURE + DT_OUT_OF_MEMORY, h1, mesh))
                      else
                        (case memcpy_to h1 tileData 0 d (sint pos1) (sint tsize) of
                           None \<Rightarrow> None
                         | Some h2 \<Rightarrow>
                             (case addTile ops mesh h2 tileData tsize
                                     (if safeStorage then DT_TILE_FREE_DATA else 0) tileRef of
                                (status, mesh', h3, r) \<Rightarrow>
                                  if dtStatusFailed status then Some (Inl (status, h3, mesh'))
                                  else Some (Inr (pos1 + tsize, h3, mesh')))))))"

text \<open>The loop, for the \<open>n\<close> records still to read.\<close>

fun readTiles ::
  "'m detour \<Rightarrow> byte list \<Rightarrow> bool \<Rightarrow> nat \<Rightarrow> 32 word \<times> heap \<times> 'm
   \<Rightarrow> ((dtStatus \<times> heap \<times> 'm) + (32 word \<times> heap \<times> 'm)) option" where
  "readTiles ops d safeStorage 0 st = Some (Inr st)"
| "readTiles ops d safeStorage (Suc n) st =
     (case tileStep ops d safeStorage st of
        None \<Rightarrow> None
      | Some (Inl failure) \<Rightarrow> Some (Inl failure)
      | Some (Inr st') \<Rightarrow> readTiles ops d safeStorage n st')"

text \<open>
  \<^verbatim>\<open>dtnmBuildDTNavMeshFromRaw\<close>. \<open>data\<close> is the caller's buffer with its true extent,
  \<open>dataSize\<close> the size the caller states; the first guard compares it with a \<^verbatim>\<open>sizeof\<close>,
  so as an unsigned number. \<open>ppNavMesh\<close> carries what the caller's pointer variable holds
  (\<open>None\<close>: \<^verbatim>\<open>ppNavMesh\<close> itself is null; \<open>Some None\<close>: it holds a null container
  pointer). The result is the status, the heap and that variable after the call.
\<close>

definition dtnmBuildDTNavMeshFromRaw ::
  "'m detour \<Rightarrow> heap \<Rightarrow> byte list option \<Rightarrow> 32 word \<Rightarrow> bool \<Rightarrow> 'm option option
   \<Rightarrow> (dtStatus \<times> heap \<times> 'm option option) option" where
  "dtnmBuildDTNavMeshFromRaw ops h data dataSize safeStorage ppNavMesh =
     (case (data, ppNavMesh) of
        (Some d, Some pp0) \<Rightarrow>
          if uint dataSize < uint setHeaderSize
          then Some (DT_FAILURE + DT_INVALID_PARAM, h, ppNavMesh)
          else
            (case rdbytes d 0 (sint setHeaderSize) of
               None \<Rightarrow> None
             | Some header \<Rightarrow>
                 if field32 header 0 \<noteq> RCN_NAVMESH_VERSION
                 then Some (DT_FAILURE + DT_WRONG_VERSION, h, Some None)
                 else
                   (case dtAllocNavMesh ops h of
                      (None, h1) \<Rightarrow> Some (DT_FAILURE + DT_OUT_OF_MEMORY, h1, Some None)
                    | (Some mesh, h1) \<Rightarrow>
                        (case init ops mesh h1 (take 28 (drop 8 header)) of
                           (status, mesh1, h2) \<Rightarrow>
                             if dtStatusFailed status then Some (status, h2, Some None)
                             else
                               (case readTiles ops d safeStorage (nat (sint (field32 header 4)))
                                       (setHeaderSize, h2, mesh1) of
                                  None \<Rightarrow> None
                                | Some (Inl (status', h3, mesh3)) \<Rightarrow>
                                    Some (status', dtFreeNavMesh ops mesh3 h3, Some None)
                                | Some (Inr (pos, h3, mesh3)) \<Rightarrow>
                                    Some (DT_SUCCESS, h3, Some (Some mesh3))))))
      | _ \<Rightarrow> Some (DT_FAILURE + DT_INVALID_PARAM, h, ppNavMesh))"

text \<open>The state after \<open>k\<close> passes of the loop that all reached their end.\<close>

fun passesDone ::
  "'m detour \<Rightarrow> byte list \<Rightarrow> bool \<Rightarrow> nat \<Rightarrow> 32 word \<times> heap \<times> 'm
   \<Rightarrow> (32 word \<times> heap \<times> 'm) option" where
  "passesDone ops d safeStorage 0 st = Some st"
| "passesDone ops d safeStorage (Suc k) st =
     (case tileStep ops d safeStorage st of
        Some (Inr st') \<Rightarrow> passesDone ops d safeStorage k st'
      | _ \<Rightarrow> None)"

text \<open>
  The tiles of a container as \<^verbatim>\<open>dtnmGetNavMeshRawData\<close> reads them. A \<^verbatim>\<open>dtMeshTile\<close> has
  a header pointer, a data size and a data pointer; a tile pointer is the index of its
  slot. The calls on the container are again parameters.
\<close>

record dtMeshTile =
  t_header :: ptr
  t_dataSize :: "32 word"
  t_data :: ptr

record 'm detourView =
  getMaxTiles :: "'m \<Rightarrow> int"
  getTile :: "'m \<Rightarrow> int \<Rightarrow> (nat \<times> dtMeshTile) option"
  getTileRef :: "'m \<Rightarrow> nat \<Rightarrow> dtTileRef"
  getTileByRef :: "'m \<Rightarrow> dtTileRef \<Rightarrow> (nat \<times> dtMeshTile) option"
  getParams :: "'m \<Rightarrow> dtNavMeshParams"

text \<open>The test both loops over the slots make: the slot holds a tile with header and data.\<close>

definition liveTile :: "'m detourView \<Rightarrow> 'm \<Rightarrow> int \<Rightarrow> (nat \<times> dtMeshTile) option" where
  "liveTile view m i =
     (case getTile view m i of
        None \<Rightarrow> None
      | Some (k, tile) \<Rightarrow> if t_header tile = 0 \<or> t_dataSize tile = 0 then None else Some (k, tile))"

text \<open>The first loop: counting the live tiles.\<close>

fun countTiles :: "'m detourView \<Rightarrow> 'm \<Rightarrow> nat list \<Rightarrow> 32 word \<Rightarrow> 32 word" where
  "countTiles view m [] tileCount = tileCount"
| "countTiles view m (i # rest) tileCount =
     countTiles view m rest (if liveTile view m (int i) = None then tileCount else tileCount + 1)"

text \<open>
  The second loop: it fills \<^verbatim>\<open>tileHeaders[i]\<close> for each live slot \<open>i\<close> and adds up the
  data sizes. The array comes from \<^verbatim>\<open>new\<close> with \<^verbatim>\<open>tileCount\<close> entries, none of them
  initialised (\<open>None\<close>).
\<close>

fun fillHeaders ::
  "'m detourView \<Rightarrow> 'm \<Rightarrow> nat list \<Rightarrow> (dtTileRef \<times> 32 word) option list \<times> 32 word
   \<Rightarrow> ((dtTileRef \<times> 32 word) option list \<times> 32 word) option" where
  "fillHeaders view m [] st = Some st"
| "fillHeaders view m (i # rest) (tileHeaders, totalDataSize) =
     (case liveTile view m (int i) of
        None \<Rightarrow> fillHeaders view m rest (tileHeaders, totalDataSize)
      | Some (k, tile) \<Rightarrow>
          (case wr tileHeaders (int i) (Some (getTileRef view m k, t_dataSize tile)) of
             None \<Rightarrow> None
           | Some tileHeaders' \<Rightarrow>
               fillHeaders view m rest (tileHeaders', totalDataSize + t_dataSize tile)))"

text \<open>The third loop: it writes record \<open>i\<close> from \<^verbatim>\<open>tileHeaders[i]\<close>, for \<open>i\<close> below the count.\<close>

fun writeTiles ::
  "'m detourView \<Rightarrow> 'm \<Rightarrow> (dtTileRef \<times> 32 word) option list \<Rightarrow> ptr \<Rightarrow> nat list
   \<Rightarrow> heap \<times> 32 word \<Rightarrow> (heap \<times> 32 word) option" where
  "writeTiles view m tileHeaders p [] st = Some st"
| "writeTiles view m tileHeaders p (i # rest) (h, pos) =
     (case rd tileHeaders (int i) of
        Some (Some (tileRef, tsize)) \<Rightarrow>
          (case memcpy_to h p (sint pos) (bytes64 tileRef @ bytes32 tsize) 0 (sint tileHeaderSize) of
             None \<Rightarrow> None
           | Some h1 \<Rightarrow>
               (case getTileByRef view m tileRef of
                  None \<Rightarrow> None
                | Some (k, tile) \<Rightarrow>
                    (case memcpy_to h1 p (sint (pos + tileHeaderSize)) (deref h1 (t_data tile)) 0
                            (sint tsize) of
                       None \<Rightarrow> None
                     | Some h2 \<Rightarrow>
                         writeTiles view m tileHeaders p rest (h2, pos + tileHeaderSize + tsize))))
      | _ \<Rightarrow> None)"

text \<open>
  \<^verbatim>\<open>dtnmGetNavMeshRawData\<close>. The two output arguments carry what the caller's variables
  hold (\<open>None\<close>: a null pointer, which the first branch would write through). The result
  is the heap and the two outputs.
\<close>

definition dtnmGetNavMeshRawData ::
  "'m detourView \<Rightarrow> heap \<Rightarrow> 'm option \<Rightarrow> ptr option \<Rightarrow> 32 word option
   \<Rightarrow> (heap \<times> ptr option \<times> 32 word option) option" where
  "dtnmGetNavMeshRawData view h navMesh resultData dataSize =
     (case (navMesh, resultData, dataSize) of
        (Some m, Some rd0, Some ds0) \<Rightarrow>
          let slots = [0..<nat (getMaxTiles view m)];
              tileCount = countTiles view m slots 0;
              header = bytes32 RCN_NAVMESH_VERSION @ bytes32 tileCount @ take 28 (getParams view m)
          in
            (case fillHeaders view m slots (replicate (nat (sint tileCount)) None, 0) of
               None \<Rightarrow> None
             | Some (tileHeaders, sizes) \<Rightarrow>
                 let totalDataSize = sizes + setHeaderSize + tileHeaderSize * tileCount in
                 (case alloc (sint totalDataSize) h of
                    (p, h0) \<Rightarrow>
                      (case memcpy_to h0 p 0 header 0 (sint setHeaderSize) of
                         None \<Rightarrow> None
                       | Some h1 \<Rightarrow>
                           (case writeTiles view m tileHeaders p [0..<nat (sint tileCount)]
                                   (h1, setHeaderSize) of
                              None \<Rightarrow> None
                            | Some (h2, pos) \<Rightarrow> Some (h2, Some p, Some totalDataSize)))))
      | (None, Some rd0, Some ds0) \<Rightarrow> Some (h, Some 0, Some 0)
      | _ \<Rightarrow> None)"

section \<open>A small container for the examples\<close>

text \<open>
  The container of the examples keeps its slots in a list; the reference of slot \<open>k\<close> is
  \<open>k + 1\<close>. An insert takes the next slot and keeps the data pointer; the reference
  \<open>0xBAD\<close> is refused.
\<close>

definition listView :: "dtMeshTile list detourView" where
  "listView =
     \<lparr>getMaxTiles = (\<lambda>m. int (length m)),
      getTile = (\<lambda>m i. if 0 \<le> i \<and> i < int (length m) then Some (nat i, m ! nat i) else None),
      getTileRef = (\<lambda>m k. word_of_nat k + 1),
      getTileByRef = (\<lambda>m r. if r = 0 \<or> length m < unat r then None
                              else Some (unat r - 1, m ! (unat r - 1))),
      getParams = (\<lambda>m. replicate 28 0)\<rparr>"

definition listOps :: "dtMeshTile list detour" where
  "listOps =
     \<lparr>dtAllocNavMesh = (\<lambda>h. case alloc 64 h of (p, h') \<Rightarrow> (if p = 0 then None else Some [], h')),
      init = (\<lambda>m h params. (DT_SUCCESS, [], h)),
      addTile = (\<lambda>m h p n flags r.
                   if r = 0xBAD then (DT_FAILURE + DT_INVALID_PARAM, m, h, 0)
                   else (DT_SUCCESS, m @ [\<lparr>t_header = p, t_dataSize = n, t_data = p\<rparr>], h,
                         word_of_nat (length m) + 1)),
      dtFreeNavMesh = (\<lambda>m h. foldr (\<lambda>t. free (t_data t)) m h)\<rparr>"

text \<open>A container whose only live tile sits in the second of two slots.\<close>

definition gapMesh :: "dtMeshTile list" where
  "gapMesh = [\<lparr>t_header = 0, t_dataSize = 0, t_data = 0\<rparr>,
              \<lparr>t_header = 7, t_dataSize = 4, t_data = 7\<rparr>]"

definition gapHeap :: heap where
  "gapHeap = \<lparr>blocks = (\<lambda>p. None)(7 \<mapsto> [1, 2, 3, 4]), brk = 7, outcomes = []\<rparr>"

text \<open>The same tile in the first slot.\<close>

definition packedMesh :: "dtMeshTile list" where
  "packedMesh = [\<lparr>t_header = 7, t_dataSize = 4, t_data = 7\<rparr>,
                 \<lparr>t_header = 0, t_dataSize = 0, t_data = 0\<rparr>]"

text \<open>
  Archives: a set header alone that declares one tile; and a set header that declares two
  tiles, followed by a record with four bytes of data and a record whose size is zero.
\<close>

definition headerOnly :: "byte list" where
  "headerOnly = bytes32 1 @ bytes32 1 @ replicate 28 0"

definition secondCorrupt :: "byte list" where
  "secondCorrupt = bytes32 1 @ bytes32 2 @ replicate 28 0
                    @ bytes64 1 @ bytes32 4 @ [1, 2, 3, 4]
                    @ bytes64 2 @ bytes32 0"

section \<open>Bytes: reading back what was written\<close>

lemma le32_bytes32: "le32 (bytes32 w @ xs) = w"
  unfolding le32_def bytes32_def
  apply simp
  apply (rule bit_word_eqI)
  apply (auto simp: bit_simps)
  subgoal for n by (cases "n < 24") simp_all
  done

lemma length_bytes32: "length (bytes32 w) = 4"
  by (simp add: bytes32_def)

lemma field32_take: "off + 4 \<le> n \<Longrightarrow> field32 (take n d) off = field32 d off"
  by (simp add: field32_def le32_def drop_take min_def)

lemma low_byte_rest: "ucast (ucast v :: byte) OR push_bit 8 (drop_bit 8 v) = (v :: 64 word)"
proof (rule bit_word_eqI)
  fix n assume "n < LENGTH(64)"
  then show "bit (ucast (ucast v :: byte) OR push_bit 8 (drop_bit 8 v)) n = bit v n"
    by (cases "n < 8") (auto simp: bit_simps)
qed

lemma drop_bit_64_word: "drop_bit 64 (w :: 64 word) = 0"
  by (rule bit_word_eqI) (simp add: bit_simps)

lemma le64_bytes64: "le64 (bytes64 w @ xs) = w"
proof -
  have e: "le64 (bytes64 w @ xs) =
      ucast (ucast w :: byte) OR push_bit 8
     (ucast (ucast (drop_bit 8 w) :: byte) OR push_bit 8
     (ucast (ucast (drop_bit 16 w) :: byte) OR push_bit 8
     (ucast (ucast (drop_bit 24 w) :: byte) OR push_bit 8
     (ucast (ucast (drop_bit 32 w) :: byte) OR push_bit 8
     (ucast (ucast (drop_bit 40 w) :: byte) OR push_bit 8
     (ucast (ucast (drop_bit 48 w) :: byte) OR push_bit 8
     (ucast (ucast (drop_bit 56 w) :: byte) OR push_bit 8 (drop_bit 64 w))))))))"
    by (simp add: le64_def bytes64_def drop_bit_64_word)
  have s: "drop_bit (k + 8) w = drop_bit 8 (drop_bit k w)" for k
    by (simp add: drop_bit_drop_bit add.commute)
  have "ucast (ucast (drop_bit k w) :: byte) OR push_bit 8 (drop_bit (k + 8) w) = drop_bit k w" for k
    unfolding s by (rule low_byte_rest)
  from this [of 56] this [of 48] this [of 40] this [of 32] this [of 24] this [of 16] this [of 8]
    low_byte_rest [of w]
  show ?thesis unfolding e by simp
qed

lemma length_bytes64: "length (bytes64 w) = 8"
  by (simp add: bytes64_def)

lemma sint_add_in_range:
  fixes a b :: "32 word"
  assumes "0 \<le> sint a" and "0 \<le> sint b" and "sint a + sint b < 2147483648"
  shows "sint (a + b) = sint a + sint b"
proof -
  have "sint (a + b) = signed_take_bit 31 (sint a + sint b)"
    by (simp add: sint_word_add)
  also have "\<dots> = sint a + sint b"
    using assms by (intro signed_take_bit_int_eq_self) simp_all
  finally show ?thesis .
qed

lemma sint_32_lt: "sint (w :: 32 word) < 2147483648"
  using sint_lt [of w] by simp

lemma alloc_nonnull:
  assumes "alloc n h = (p, h')" and "p \<noteq> 0"
  shows "0 \<le> n" and "p = Suc (brk h)" and "deref h' p = replicate (nat n) 0"
  using assms
  by (auto simp: alloc_def deref_def split: list.splits bool.splits if_splits)

lemma alloc_succeeds:
  assumes "0 \<le> n" and "list_all (\<lambda>b. b) (take (Suc k) (outcomes h))"
  shows "alloc n h = (Suc (brk h),
           h\<lparr>blocks := (blocks h)(Suc (brk h) \<mapsto> replicate (nat n) 0),
             brk := Suc (brk h), outcomes := tl (outcomes h)\<rparr>)"
  using assms by (auto simp: alloc_def split: list.splits bool.splits)

lemma outcomes_tl:
  "list_all (\<lambda>b. b) (take (Suc k) bs) \<Longrightarrow> list_all (\<lambda>b. b) (take k (tl bs))"
  by (cases bs) simp_all

lemma rdbytes_SomeD:
  assumes "rdbytes src off n = Some bs"
  shows "0 \<le> off" and "0 \<le> n" and "off + n \<le> int (length src)"
    and "bs = take (nat n) (drop (nat off) src)" and "length bs = nat n"
  using assms by (auto simp: rdbytes_def split: if_splits)

lemma wrbytes_SomeD:
  assumes "wrbytes dst off bs = Some d"
  shows "0 \<le> off" and "off + int (length bs) \<le> int (length dst)"
    and "d = take (nat off) dst @ bs @ drop (nat off + length bs) dst"
  using assms by (auto simp: wrbytes_def split: if_splits)

lemma memcpy_to_SomeD:
  assumes "memcpy_to h dst doff src soff n = Some h'"
  shows "0 \<le> soff" and "0 \<le> n" and "soff + n \<le> int (length src)"
    and "0 \<le> doff" and "doff + n \<le> int (length (deref h dst))"
    and "h' = store h dst (take (nat doff) (deref h dst) @ take (nat n) (drop (nat soff) src)
                @ drop (nat doff + nat n) (deref h dst))"
proof -
  from assms obtain bs d where r: "rdbytes src soff n = Some bs"
    and w: "wrbytes (deref h dst) doff bs = Some d" and h': "h' = store h dst d"
    by (auto simp: memcpy_to_def split: option.splits)
  note R = rdbytes_SomeD [OF r] and W = wrbytes_SomeD [OF w]
  show "0 \<le> soff" "0 \<le> n" "soff + n \<le> int (length src)" "0 \<le> doff"
    using R W by simp_all
  show "doff + n \<le> int (length (deref h dst))"
    using R(2,5) W(2) by simp
  show "h' = store h dst (take (nat doff) (deref h dst) @ take (nat n) (drop (nat soff) src)
                @ drop (nat doff + nat n) (deref h dst))"
    using h' W(3) R(4,5) by simp
qed

lemma memcpy_to_fresh:
  assumes "0 \<le> soff" and "0 \<le> n" and "soff + n \<le> int (length src)"
    and "length (deref h dst) = nat n"
  shows "memcpy_to h dst 0 src soff n = Some (store h dst (take (nat n) (drop (nat soff) src)))"
  using assms
  by (auto simp: memcpy_to_def rdbytes_def wrbytes_def min_def)

lemma deref_store: "deref (store h p bs) q = (if q = p then bs else deref h q)"
  by (simp add: deref_def store_def)

lemma alloc_keeps_issued:
  assumes "alloc n h = (p, h')" and "issued h q"
  shows "deref h' q = deref h q"
  using assms
  by (auto simp: alloc_def deref_def issued_def split: list.splits bool.splits if_splits)

lemma memcpy_to_other:
  assumes "memcpy_to h dst doff src soff n = Some h'" and "q \<noteq> dst"
  shows "deref h' q = deref h q"
  using memcpy_to_SomeD(6) [OF assms(1)] assms(2) by (simp add: deref_store)

lemma memcpy_to_region:
  assumes "memcpy_to h dst doff src soff n = Some h'"
  shows "take (nat n) (drop (nat doff) (deref h' dst)) = take (nat n) (drop (nat soff) src)"
proof -
  note D = memcpy_to_SomeD [OF assms]
  have l: "length (take (nat n) (drop (nat soff) src)) = nat n"
    using D(1,2,3) by simp
  have a: "length (take (nat doff) (deref h dst)) = nat doff"
    using D(2,4,5) by simp
  from D(6) have e: "deref h' dst = take (nat doff) (deref h dst) @ take (nat n) (drop (nat soff) src)
                @ drop (nat doff + nat n) (deref h dst)"
    by (simp add: deref_store)
  show ?thesis
    unfolding e using a l by simp
qed

lemma region_kept:
  assumes "take j xs' = take j xs" and "k + n \<le> j"
  shows "take n (drop k xs') = take n (drop k xs)"
proof -
  have r: "take n (drop k ys) = take n (drop k (take j ys))" for ys :: "'a list"
    using assms(2) by (simp add: drop_take min_def)
  show ?thesis
    using r [of xs'] r [of xs] assms(1) by simp
qed


lemma le32_bytes32_plain: "le32 (bytes32 w) = w"
  using le32_bytes32 [of w "[]"] by simp

lemma pd_header_fields:
  "field32 (bytes32 a @ bytes32 b @ bytes32 c @ bytes32 d @ bytes32 e @ bytes32 f @ bytes32 g) 0 = a"
  "field32 (bytes32 a @ bytes32 b @ bytes32 c @ bytes32 d @ bytes32 e @ bytes32 f @ bytes32 g) 4 = b"
  "field32 (bytes32 a @ bytes32 b @ bytes32 c @ bytes32 d @ bytes32 e @ bytes32 f @ bytes32 g) 8 = c"
  "field32 (bytes32 a @ bytes32 b @ bytes32 c @ bytes32 d @ bytes32 e @ bytes32 f @ bytes32 g) 12 = d"
  "field32 (bytes32 a @ bytes32 b @ bytes32 c @ bytes32 d @ bytes32 e @ bytes32 f @ bytes32 g) 16 = e"
  "field32 (bytes32 a @ bytes32 b @ bytes32 c @ bytes32 d @ bytes32 e @ bytes32 f @ bytes32 g) 20 = f"
  "field32 (bytes32 a @ bytes32 b @ bytes32 c @ bytes32 d @ bytes32 e @ bytes32 f @ bytes32 g) 24 = g"
  by (simp_all add: field32_def length_bytes32 le32_bytes32 le32_bytes32_plain)

section \<open>Status words\<close>

lemma status_failed_simps:
  "dtStatusFailed (DT_FAILURE + DT_INVALID_PARAM)"
  "dtStatusFailed (DT_FAILURE + DT_WRONG_VERSION)"
  "dtStatusFailed (DT_FAILURE + DT_OUT_OF_MEMORY)"
  "\<not> dtStatusFailed DT_SUCCESS"
  by (simp_all add: dtStatusFailed_def DT_FAILURE_def DT_INVALID_PARAM_def DT_WRONG_VERSION_def
      DT_OUT_OF_MEMORY_def DT_SUCCESS_def)

section \<open>Ownership hand-off\<close>

lemma status_guard_not_succeed: "\<not> dtStatusSucceed (DT_FAILURE + DT_INVALID_PARAM)"
  by (simp add: dtStatusSucceed_def DT_FAILURE_def DT_INVALID_PARAM_def DT_SUCCESS_def)

text \<open>
  C7. When \<^verbatim>\<open>dtnmAddTile\<close> returns a success status for a tile data buffer, the buffer's
  tag \<^verbatim>\<open>isOwned\<close> is true afterwards, its data pointer and size are as before, and
  \<^verbatim>\<open>dtnmFreeTileData\<close> on it, in any heap, frees nothing and returns the buffer as it is
  (so every later call sees the same buffer and is a no-op again). When \<^verbatim>\<open>dtnmAddTile\<close>
  does not succeed, the buffer is returned unchanged, tag included.
\<close>

theorem dtnmAddTile_hands_off_ownership:
  assumes "dtnmAddTile ops h navMesh (Some td) lastRef = (status, h', navMesh', td', r)"
  shows "(dtStatusSucceed status \<longrightarrow>
            td' = Some (td\<lparr>td_isOwned := True\<rparr>) \<and>
            (\<forall>hh. dtnmFreeTileData hh td' = (hh, td'))) \<and>
         (\<not> dtStatusSucceed status \<longrightarrow> td' = Some td)"
  using assms status_guard_not_succeed
  by (auto simp: dtnmAddTile_def dtnmFreeTileData_def split: option.splits if_splits prod.splits)

theorem dtnmAddTile_hands_off_ownership_witness:
  "dtnmAddTile listOps (heap0 []) (Some []) (Some \<lparr>td_data = 1, td_dataSize = 4, td_isOwned = False\<rparr>) 0
     = (DT_SUCCESS, heap0 [], Some [\<lparr>t_header = 1, t_dataSize = 4, t_data = 1\<rparr>],
        Some \<lparr>td_data = 1, td_dataSize = 4, td_isOwned = True\<rparr>, Some 1) \<and>
   dtStatusSucceed DT_SUCCESS \<and>
   dtnmFreeTileData (heap0 []) (Some \<lparr>td_data = 1, td_dataSize = 4, td_isOwned = True\<rparr>)
     = (heap0 [], Some \<lparr>td_data = 1, td_dataSize = 4, td_isOwned = True\<rparr>) \<and>
   dtnmAddTile listOps (heap0 []) (Some []) (Some \<lparr>td_data = 1, td_dataSize = 4, td_isOwned = False\<rparr>) 0xBAD
     = (DT_FAILURE + DT_INVALID_PARAM, heap0 [], Some [],
        Some \<lparr>td_data = 1, td_dataSize = 4, td_isOwned = False\<rparr>, Some 0) \<and>
   \<not> dtStatusSucceed (DT_FAILURE + DT_INVALID_PARAM)"
proof -
  have ok: "dtnmAddTile listOps (heap0 []) (Some []) (Some \<lparr>td_data = 1, td_dataSize = 4, td_isOwned = False\<rparr>) 0
     = (DT_SUCCESS, heap0 [], Some [\<lparr>t_header = 1, t_dataSize = 4, t_data = 1\<rparr>],
        Some \<lparr>td_data = 1, td_dataSize = 4, td_isOwned = True\<rparr>, Some 1)"
    by (simp add: dtnmAddTile_def listOps_def dtStatusSucceed_def DT_SUCCESS_def)
  have bad: "dtnmAddTile listOps (heap0 []) (Some []) (Some \<lparr>td_data = 1, td_dataSize = 4, td_isOwned = False\<rparr>) 0xBAD
     = (DT_FAILURE + DT_INVALID_PARAM, heap0 [], Some [],
        Some \<lparr>td_data = 1, td_dataSize = 4, td_isOwned = False\<rparr>, Some 0)"
    by (simp add: dtnmAddTile_def listOps_def dtStatusSucceed_def DT_SUCCESS_def
        DT_FAILURE_def DT_INVALID_PARAM_def)
  have s: "dtStatusSucceed DT_SUCCESS"
    by (simp add: dtStatusSucceed_def DT_SUCCESS_def)
  from dtnmAddTile_hands_off_ownership [OF ok] s
  have "dtnmFreeTileData (heap0 []) (Some \<lparr>td_data = 1, td_dataSize = 4, td_isOwned = True\<rparr>)
     = (heap0 [], Some \<lparr>td_data = 1, td_dataSize = 4, td_isOwned = True\<rparr>)"
    by simp
  moreover from dtnmAddTile_hands_off_ownership [OF bad]
  have "\<not> dtStatusSucceed (DT_FAILURE + DT_INVALID_PARAM)"
    by (simp add: dtStatusSucceed_def DT_SUCCESS_def DT_FAILURE_def DT_INVALID_PARAM_def)
  ultimately show ?thesis using ok bad s by simp
qed

section \<open>Message arena: what log and reset keep\<close>

lemma doLog_full_table: "mMessageCount c = MAX_MESSAGES \<Longrightarrow> doLog c message = c"
  by (simp add: doLog_def)

lemma arena_inv_new:
  "length pool0 = 65536 \<Longrightarrow> arena_inv (nmgBuildContext_new table0 pool0)"
  by (simp add: arena_inv_def nmgBuildContext_new_def MAX_MESSAGES_def MESSAGE_POOL_SIZE_def)

lemma arena_inv_doResetLog:
  "arena_inv c \<Longrightarrow> arena_inv (doResetLog c) \<and> getMessageCount (doResetLog c) = 0"
  by (simp add: arena_inv_def doResetLog_def getMessageCount_def MAX_MESSAGES_def MESSAGE_POOL_SIZE_def)

lemma doLog_cases:
  assumes "arena_inv c"
  obtains (skip) "doLog c message = c"
  | (stored) realLength where "0 \<le> realLength"
      "mTextPoolSize c + realLength < MESSAGE_POOL_SIZE"
      "realLength = min (int (length message) + 1) (MESSAGE_POOL_SIZE - mTextPoolSize c - 1)"
      "mMessageCount c < MAX_MESSAGES"
      "doLog c message = c\<lparr>mTextPool := (take (nat (mTextPoolSize c)) (mTextPool c)
                               @ take (nat realLength) (message @ [0])
                               @ drop (nat (mTextPoolSize c) + nat realLength) (mTextPool c))
                              [nat (mTextPoolSize c + realLength - 1) := 0],
                            mTextPoolSize := mTextPoolSize c + realLength,
                            mMessages := (mMessages c)[nat (mMessageCount c) := nat (mTextPoolSize c)],
                            mMessageCount := mMessageCount c + 1\<rparr>"
proof (cases "\<not> m_logEnabled c \<or> int (length message) = 0 \<or> mMessageCount c \<ge> MAX_MESSAGES")
  case True
  then have "doLog c message = c" by (auto simp: doLog_def Let_def)
  then show ?thesis by (rule skip)
next
  case False
  define realLength where
    "realLength = min (int (length message) + 1) (MESSAGE_POOL_SIZE - mTextPoolSize c - 1)"
  from assms have s: "0 \<le> mTextPoolSize c" "mTextPoolSize c < MESSAGE_POOL_SIZE"
    by (simp_all add: arena_inv_def)
  have 1: "0 \<le> realLength" using s by (simp add: realLength_def)
  have 2: "mTextPoolSize c + realLength < MESSAGE_POOL_SIZE" using s by (simp add: realLength_def)
  have 3: "mMessageCount c < MAX_MESSAGES" using False by simp
  have 4: "doLog c message = c\<lparr>mTextPool := (take (nat (mTextPoolSize c)) (mTextPool c)
                               @ take (nat realLength) (message @ [0])
                               @ drop (nat (mTextPoolSize c) + nat realLength) (mTextPool c))
                              [nat (mTextPoolSize c + realLength - 1) := 0],
                            mTextPoolSize := mTextPoolSize c + realLength,
                            mMessages := (mMessages c)[nat (mMessageCount c) := nat (mTextPoolSize c)],
                            mMessageCount := mMessageCount c + 1\<rparr>"
    using False s by (simp add: doLog_def Let_def realLength_def)
  from 1 2 realLength_def 3 4 show ?thesis by (rule stored)
qed

lemma arena_inv_doLog:
  assumes "arena_inv c"
  shows "arena_inv (doLog c message)"
proof (rule doLog_cases [OF assms, of message])
  assume "doLog c message = c"
  with assms show ?thesis by simp
next
  fix realLength
  assume stored: "0 \<le> realLength"
      "mTextPoolSize c + realLength < MESSAGE_POOL_SIZE"
      "realLength = min (int (length message) + 1) (MESSAGE_POOL_SIZE - mTextPoolSize c - 1)"
      "mMessageCount c < MAX_MESSAGES"
      "doLog c message = c\<lparr>mTextPool := (take (nat (mTextPoolSize c)) (mTextPool c)
                               @ take (nat realLength) (message @ [0])
                               @ drop (nat (mTextPoolSize c) + nat realLength) (mTextPool c))
                              [nat (mTextPoolSize c + realLength - 1) := 0],
                            mTextPoolSize := mTextPoolSize c + realLength,
                            mMessages := (mMessages c)[nat (mMessageCount c) := nat (mTextPoolSize c)],
                            mMessageCount := mMessageCount c + 1\<rparr>"
  from assms have inv: "0 \<le> mMessageCount c" "0 \<le> mTextPoolSize c"
    "int (length (mTextPool c)) = MESSAGE_POOL_SIZE"
    "0 < mTextPoolSize c \<longrightarrow> mTextPool c ! nat (mTextPoolSize c - 1) = 0"
    by (simp_all add: arena_inv_def)
  define body where "body = take (nat (mTextPoolSize c)) (mTextPool c)
                               @ take (nat realLength) (message @ [0])
                               @ drop (nat (mTextPoolSize c) + nat realLength) (mTextPool c)"
  have fit: "nat (mTextPoolSize c) + nat realLength \<le> length (mTextPool c)"
    using stored(1,2) inv by simp
  have rl: "nat realLength \<le> length (message @ [0])"
    using stored(1,3) by simp
  have len: "length body = length (mTextPool c)"
    unfolding body_def using fit rl
    by (simp only: length_append length_take length_drop min_absorb2)
  have idx: "nat (mTextPoolSize c + realLength - 1) < length body"
    using stored(1,2) inv len by simp
  have e: "doLog c message = c\<lparr>mTextPool := body[nat (mTextPoolSize c + realLength - 1) := 0],
                            mTextPoolSize := mTextPoolSize c + realLength,
                            mMessages := (mMessages c)[nat (mMessageCount c) := nat (mTextPoolSize c)],
                            mMessageCount := mMessageCount c + 1\<rparr>"
    unfolding stored(5) body_def ..
  show ?thesis
    unfolding e arena_inv_def
    using stored(1,2,4) inv(1,2,3) len idx by simp
qed

text \<open>Bytes below the write offset, the stored entries, are the same after a log call.\<close>

lemma doLog_keeps_stored_bytes:
  assumes "arena_inv c"
  shows "take (nat (mTextPoolSize c)) (mTextPool (doLog c message))
           = take (nat (mTextPoolSize c)) (mTextPool c)"
proof (rule doLog_cases [OF assms, of message])
  assume "doLog c message = c"
  then show ?thesis by simp
next
  fix realLength
  assume stored: "0 \<le> realLength"
      "mTextPoolSize c + realLength < MESSAGE_POOL_SIZE"
      "realLength = min (int (length message) + 1) (MESSAGE_POOL_SIZE - mTextPoolSize c - 1)"
      "mMessageCount c < MAX_MESSAGES"
      "doLog c message = c\<lparr>mTextPool := (take (nat (mTextPoolSize c)) (mTextPool c)
                               @ take (nat realLength) (message @ [0])
                               @ drop (nat (mTextPoolSize c) + nat realLength) (mTextPool c))
                              [nat (mTextPoolSize c + realLength - 1) := 0],
                            mTextPoolSize := mTextPoolSize c + realLength,
                            mMessages := (mMessages c)[nat (mMessageCount c) := nat (mTextPoolSize c)],
                            mMessageCount := mMessageCount c + 1\<rparr>"
  from assms have inv: "0 \<le> mTextPoolSize c" "int (length (mTextPool c)) = MESSAGE_POOL_SIZE"
    "0 < mTextPoolSize c \<longrightarrow> mTextPool c ! nat (mTextPoolSize c - 1) = 0"
    by (simp_all add: arena_inv_def)
  define s where "s = nat (mTextPoolSize c)"
  define pool where "pool = mTextPool c"
  define body where "body = take s pool @ take (nat realLength) (message @ [0])
                               @ drop (s + nat realLength) pool"
  have sl: "s \<le> length pool" using inv stored(1,2) by (simp add: s_def pool_def)
  have tb: "take s body = take s pool" using sl by (simp add: body_def)
  have "take s (body[nat (mTextPoolSize c + realLength - 1) := 0]) = take s pool"
  proof (cases "realLength = 0")
    case True
    show ?thesis
    proof (cases "0 < mTextPoolSize c")
      case pos: True
      with inv have z: "pool ! (s - 1) = 0" by (simp add: s_def pool_def nat_diff_distrib)
      have i: "nat (mTextPoolSize c + realLength - 1) = s - 1"
        using True by (simp add: s_def nat_diff_distrib)
      have b: "body = pool" using True sl by (simp add: body_def)
      have "pool[s - 1 := 0] = pool"
        using z list_update_id [of pool "s - 1"] by simp
      then show ?thesis unfolding i b by simp
    next
      case False
      with inv have "s = 0" by (simp add: s_def)
      then show ?thesis by simp
    qed
  next
    case False
    with stored(1) have "s \<le> nat (mTextPoolSize c + realLength - 1)"
      using inv by (simp add: s_def)
    then show ?thesis using tb by simp
  qed
  then show ?thesis
    unfolding stored(5) by (simp add: body_def s_def pool_def)
qed

section \<open>Message arena: the entry stored when one pool byte is left\<close>

lemma doLog_step:
  assumes "m_logEnabled c" "0 \<le> mMessageCount c" "mMessageCount c < 1024"
    "0 \<le> mTextPoolSize c" "mTextPoolSize c \<le> 65535"
    "length (mTextPool c) = 65536" "message \<noteq> []"
  shows "m_logEnabled (doLog c message)"
    "mMessageCount (doLog c message) = mMessageCount c + 1"
    "mTextPoolSize (doLog c message) =
       mTextPoolSize c + min (int (length message) + 1) (65535 - mTextPoolSize c)"
    "length (mTextPool (doLog c message)) = 65536"
    "mTextPool (doLog c message) ! 65535 = mTextPool c ! 65535"
    "length (mMessages (doLog c message)) = length (mMessages c)"
    "nat (mMessageCount c) < length (mMessages c) \<Longrightarrow>
       mMessages (doLog c message) ! nat (mMessageCount c) = nat (mTextPoolSize c)"
  using assms
  apply (auto simp: doLog_def Let_def MAX_MESSAGES_def MESSAGE_POOL_SIZE_def nth_append min_def)
   apply (rule arg_cong [where f = "(!) (mTextPool c)"], linarith)+
  done

lemma foldl_replicate_Suc: "foldl f c (replicate (Suc k) x) = f (foldl f c (replicate k x)) x"
proof -
  have "replicate (Suc k) x = replicate k x @ [x]"
    by (simp add: replicate_append_same)
  then show ?thesis
    by (simp only: foldl_append foldl.simps)
qed

lemma filled_step:
  assumes "filled k c" "k < 127"
  shows "filled (Suc k) (doLog c (replicate 511 0x61))"
proof -
  have m: "replicate 511 (0x61::byte) \<noteq> []" by simp
  from assms have pre: "m_logEnabled c" "0 \<le> mMessageCount c" "mMessageCount c < 1024"
    "0 \<le> mTextPoolSize c" "mTextPoolSize c \<le> 65535" "length (mTextPool c) = 65536"
    by (simp_all add: filled_def)
  show ?thesis
    using doLog_step(1-6) [OF pre m] assms
    by (simp add: filled_def min_def)
qed

lemma filled_many:
  assumes "filled 0 c" "k \<le> 127"
  shows "filled k (foldl doLog c (replicate k (replicate 511 0x61)))"
  using assms(2)
proof (induction k)
  case 0
  then show ?case using assms(1) by simp
next
  case (Suc k)
  then have "filled k (foldl doLog c (replicate k (replicate 511 0x61)))" by simp
  then have "filled (Suc k) (doLog (foldl doLog c (replicate k (replicate 511 0x61))) (replicate 511 0x61))"
    using Suc.prems by (intro filled_step) simp_all
  then show ?case
    by (simp only: foldl_replicate_Suc)
qed

text \<open>
  C6 at a concrete log sequence. 128 messages of 511 characters fill the pool up to offset
  65535 (the last one is truncated to 510 characters and a NUL). The next message finds one
  byte left: \<^verbatim>\<open>realLength\<close> is 0, nothing is copied, the NUL goes to the byte before the
  entry, and the entry is recorded at offset 65535 and counted. The pool's last byte is
  never written by \<^verbatim>\<open>doLog\<close>, so with a pool that did not start zeroed the 129th stored
  message has no NUL within the pool.
\<close>

theorem doLog_full_pool_entry_unterminated:
  "mMessageCount (foldl doLog (nmgBuildContext_new (replicate 1024 0) (replicate 65536 0xCD))
       (replicate 128 (replicate 511 0x61) @ [[0x62]])) = 129 \<and>
   getMessage (foldl doLog (nmgBuildContext_new (replicate 1024 0) (replicate 65536 0xCD))
       (replicate 128 (replicate 511 0x61) @ [[0x62]])) 128 = 65535 \<and>
   \<not> terminatedInPool (foldl doLog (nmgBuildContext_new (replicate 1024 0) (replicate 65536 0xCD))
       (replicate 128 (replicate 511 0x61) @ [[0x62]])) 65535"
proof -
  define c0 where "c0 = nmgBuildContext_new (replicate 1024 0) (replicate 65536 (0xCD::byte))"
  define c127 where "c127 = foldl doLog c0 (replicate 127 (replicate 511 (0x61::byte)))"
  define c128 where "c128 = doLog c127 (replicate 511 0x61)"
  define c129 where "c129 = doLog c128 [0x62]"
  have "filled 0 c0"
    by (simp add: filled_def c0_def nmgBuildContext_new_def)
  then have f127: "filled 127 c127"
    unfolding c127_def by (rule filled_many) simp
  then have pre127: "m_logEnabled c127" "0 \<le> mMessageCount c127" "mMessageCount c127 < 1024"
    "0 \<le> mTextPoolSize c127" "mTextPoolSize c127 \<le> 65535" "length (mTextPool c127) = 65536"
    by (simp_all add: filled_def)
  have m: "replicate 511 (0x61::byte) \<noteq> []" by simp
  have s128: "m_logEnabled c128" "mMessageCount c128 = 128" "mTextPoolSize c128 = 65535"
    "length (mTextPool c128) = 65536" "mTextPool c128 ! 65535 = 0xCD"
    "length (mMessages c128) = 1024"
    using doLog_step(1-6) [OF pre127 m] f127
    by (simp_all add: filled_def c128_def)
  have pre128: "m_logEnabled c128" "0 \<le> mMessageCount c128" "mMessageCount c128 < 1024"
    "0 \<le> mTextPoolSize c128" "mTextPoolSize c128 \<le> 65535" "length (mTextPool c128) = 65536"
    using s128 by simp_all
  have m2: "[0x62::byte] \<noteq> []" by simp
  have s129: "mMessageCount c129 = 129" "length (mTextPool c129) = 65536"
    "mTextPool c129 ! 65535 = 0xCD" "mMessages c129 ! 128 = 65535"
    using doLog_step(2,4,5,7) [OF pre128 m2] s128
    by (simp_all add: c129_def)
  have "drop 65535 (mTextPool c129) = [0xCD]"
    using s129(2,3) by (simp add: list_eq_iff_nth_eq)
  then have nt: "\<not> terminatedInPool c129 65535"
    by (simp add: terminatedInPool_def)
  have "foldl doLog c0 (replicate (Suc 127) (replicate 511 0x61)) = c128"
    unfolding c128_def c127_def by (rule foldl_replicate_Suc)
  then have run: "foldl doLog c0 (replicate 128 (replicate 511 0x61) @ [[0x62]]) = c129"
    by (simp add: c129_def del: replicate_Suc)
  show ?thesis
    using s129(1,4) nt unfolding c0_def [symmetric] run getMessage_def by simp
qed

theorem doLog_full_pool_entry_unterminated_witness:
  "getMessageCount (foldl doLog (nmgBuildContext_new (replicate 1024 0) (replicate 65536 0xCD))
       (replicate 128 (replicate 511 0x61) @ [[0x62]])) = 129"
  using doLog_full_pool_entry_unterminated by (simp add: getMessageCount_def)

section \<open>Rounding to binary32\<close>

declare excess.simps [simp del]

lemma excess_bounds:
  "0 \<le> n \<Longrightarrow> n div 2 ^ excess n < 2 ^ 24 \<and> (0 < excess n \<longrightarrow> 2 ^ 23 \<le> n div 2 ^ excess n)"
proof (induction n rule: excess.induct)
  case (1 n)
  show ?case
  proof (cases "n < 2 ^ 24")
    case True
    then show ?thesis by (simp add: excess.simps [of n])
  next
    case False
    then have e: "excess n = Suc (excess (n div 2))" by (simp add: excess.simps [of n])
    have d: "n div 2 ^ Suc (excess (n div 2)) = n div 2 div 2 ^ excess (n div 2)"
      by (simp add: zdiv_zmult2_eq)
    from False have h: "2 ^ 23 \<le> n div 2" by simp
    then have "0 \<le> n div 2" by simp
    from "1.IH" [OF False this]
    have IH: "n div 2 div 2 ^ excess (n div 2) < 2 ^ 24"
      "0 < excess (n div 2) \<Longrightarrow> 2 ^ 23 \<le> n div 2 div 2 ^ excess (n div 2)"
      by simp_all
    have low: "2 ^ 23 \<le> n div 2 div 2 ^ excess (n div 2)"
    proof (cases "excess (n div 2)")
      case 0
      with h show ?thesis by simp
    next
      case (Suc k)
      then show ?thesis using IH(2) by simp
    qed
    show ?thesis unfolding e d using IH(1) low by simp
  qed
qed

text \<open>
  A representable magnitude never lies strictly between two neighbours of the grid that
  \<open>roundmag\<close> rounds to.
\<close>

lemma grid_gap:
  fixes m q :: int
  assumes m: "0 \<le> m" "m < 2 ^ 24" and q: "k = 0 \<or> 2 ^ 23 \<le> q"
  shows "\<not> (q * 2 ^ k < m * 2 ^ j \<and> m * 2 ^ j < (q + 1) * 2 ^ k)"
proof (cases "k \<le> j")
  case True
  then have "m * (2::int) ^ j = (m * 2 ^ (j - k)) * 2 ^ k"
    by (simp add: power_add [symmetric])
  then have e: "m * (2::int) ^ j = (m * 2 ^ (j - k)) * 2 ^ k" .
  show ?thesis
  proof
    assume "q * 2 ^ k < m * 2 ^ j \<and> m * 2 ^ j < (q + 1) * 2 ^ k"
    then have "q * 2 ^ k < (m * 2 ^ (j - k)) * 2 ^ k" "(m * 2 ^ (j - k)) * 2 ^ k < (q + 1) * 2 ^ k"
      unfolding e by simp_all
    then have "q < m * 2 ^ (j - k)" "m * 2 ^ (j - k) < q + 1"
      by (simp_all add: mult_less_cancel_right)
    then show False by simp
  qed
next
  case False
  then have jk: "Suc j \<le> k" and "k \<noteq> 0" by simp_all
  with q have q23: "2 ^ 23 \<le> q" by simp
  have "m * (2::int) ^ j \<le> 2 ^ 24 * 2 ^ j"
    using m by (intro mult_right_mono) simp_all
  also have "\<dots> = 2 ^ 23 * 2 ^ Suc j" by simp
  also have "\<dots> \<le> 2 ^ 23 * 2 ^ k"
    using jk by (intro mult_left_mono power_increasing) simp_all
  also have "\<dots> \<le> q * 2 ^ k"
    using q23 by (intro mult_right_mono) simp_all
  finally show ?thesis by simp
qed

lemma roundmag_cases:
  assumes "0 \<le> n"
  obtains q r k where "n = q * 2 ^ k + r" "0 \<le> r" "r < 2 ^ k" "k = 0 \<or> 2 ^ 23 \<le> q"
    "roundmag n = q * 2 ^ k \<or> (roundmag n = (q + 1) * 2 ^ k \<and> 0 < r)"
proof -
  define k where "k = excess n"
  define q where "q = n div 2 ^ k"
  define r where "r = n mod 2 ^ k"
  have a: "n = q * 2 ^ k + r"
    using div_mult_mod_eq [of n "2 ^ k"] by (simp add: q_def r_def)
  have b: "0 \<le> r" "r < 2 ^ k" by (simp_all add: r_def)
  have c: "k = 0 \<or> 2 ^ 23 \<le> q"
    using excess_bounds [OF assms] by (auto simp: k_def q_def)
  have rm: "roundmag n = (if 2 ^ k < 2 * r \<or> (2 * r = 2 ^ k \<and> odd q) then q + 1 else q) * 2 ^ k"
    by (simp add: roundmag_def Let_def k_def q_def r_def)
  have d: "roundmag n = q * 2 ^ k \<or> (roundmag n = (q + 1) * 2 ^ k \<and> 0 < r)"
  proof (cases "2 ^ k < 2 * r \<or> (2 * r = 2 ^ k \<and> odd q)")
    case True
    then have "2 ^ k \<le> 2 * r" by auto
    moreover have "(0::int) < 2 ^ k" by simp
    ultimately have "0 < r" by linarith
    moreover have "roundmag n = (q + 1) * 2 ^ k" by (simp only: rm True if_True)
    ultimately show ?thesis by simp
  next
    case False
    have "roundmag n = q * 2 ^ k" by (simp only: rm False if_False)
    then show ?thesis by simp
  qed
  from a b c d show ?thesis by (rule that)
qed

lemma roundmag_le:
  assumes n: "0 \<le> n" and x: "representable x" and le: "n \<le> x"
  shows "roundmag n \<le> x"
proof -
  from x obtain m j where xm: "x = m * 2 ^ j" and m: "0 \<le> m" "m < 2 ^ 24"
    by (auto simp: representable_def)
  from n obtain q r k where nq: "n = q * 2 ^ k + r" and r: "0 \<le> r" "r < 2 ^ k"
    and q: "k = 0 \<or> 2 ^ 23 \<le> q"
    and rm: "roundmag n = q * 2 ^ k \<or> (roundmag n = (q + 1) * 2 ^ k \<and> 0 < r)"
    by (rule roundmag_cases)
  from rm show ?thesis
  proof
    assume "roundmag n = q * 2 ^ k"
    with nq r le show ?thesis by simp
  next
    assume up: "roundmag n = (q + 1) * 2 ^ k \<and> 0 < r"
    with nq le have "q * 2 ^ k < m * 2 ^ j" by (simp add: xm)
    with grid_gap [OF m q, of j] have "(q + 1) * 2 ^ k \<le> m * 2 ^ j" by simp
    with up show ?thesis by (simp add: xm)
  qed
qed

lemma roundmag_ge:
  assumes n: "0 \<le> n" and x: "representable x" and le: "x \<le> n"
  shows "x \<le> roundmag n"
proof -
  from x obtain m j where xm: "x = m * 2 ^ j" and m: "0 \<le> m" "m < 2 ^ 24"
    by (auto simp: representable_def)
  from n obtain q r k where nq: "n = q * 2 ^ k + r" and r: "0 \<le> r" "r < 2 ^ k"
    and q: "k = 0 \<or> 2 ^ 23 \<le> q"
    and rm: "roundmag n = q * 2 ^ k \<or> (roundmag n = (q + 1) * 2 ^ k \<and> 0 < r)"
    by (rule roundmag_cases)
  have below: "m * 2 ^ j < (q + 1) * 2 ^ k"
    using nq r le by (simp add: xm distrib_right)
  from rm show ?thesis
  proof
    assume "roundmag n = q * 2 ^ k"
    moreover from grid_gap [OF m q, of j] below have "m * 2 ^ j \<le> q * 2 ^ k" by simp
    ultimately show ?thesis by (simp add: xm)
  next
    assume "roundmag n = (q + 1) * 2 ^ k \<and> 0 < r"
    with below show ?thesis by (simp add: xm)
  qed
qed

lemma representable_0: "representable 0"
  by (auto simp: representable_def intro: exI [of _ 0])

lemma representable_bound:
  assumes "representable x"
  shows "0 \<le> x" and "x < 2 ^ 277"
proof -
  from assms obtain m j where xm: "x = m * 2 ^ j" and m: "0 \<le> m" "m < 2 ^ 24" and j: "j \<le> 253"
    by (auto simp: representable_def)
  show "0 \<le> x" using m by (simp add: xm)
  have "m * (2::int) ^ j \<le> m * 2 ^ 253"
    using m j by (intro mult_left_mono power_increasing) simp_all
  also have "\<dots> < 2 ^ 24 * 2 ^ 253"
    using m by (intro mult_strict_right_mono) simp_all
  finally show "x < 2 ^ 277" by (simp add: xm)
qed

lemma roundmag_nonneg: "0 \<le> n \<Longrightarrow> 0 \<le> roundmag n"
  by (rule roundmag_ge [OF _ representable_0])

lemma roundmag_0: "roundmag 0 = 0"
  using roundmag_le [OF order_refl representable_0 order_refl] roundmag_nonneg [of 0] by simp

text \<open>Rounding a sum does not cross a float on the side of which the exact sum lies.\<close>

lemma fround_le:
  assumes x: "representable \<bar>x\<bar>" and le: "y \<le> x"
  shows "\<not> fless (Finite x) (fround y)"
proof (cases "0 \<le> y")
  case True
  with le have ax: "\<bar>x\<bar> = x" and ay: "\<bar>y\<bar> = y" by simp_all
  from roundmag_le [OF True x [unfolded ax] le] have m: "roundmag y \<le> x" .
  with representable_bound(2) [OF x] ax have "\<not> 2 ^ 277 \<le> roundmag y" by simp
  moreover have "sgn y * roundmag y \<le> roundmag y"
    using True roundmag_nonneg [OF True] by (cases "y = 0") (simp_all add: roundmag_0)
  ultimately show ?thesis using m by (simp add: fround_def Let_def ay)
next
  case False
  then have neg: "y < 0" and ay: "\<bar>y\<bar> = - y" and sg: "sgn y = - 1" by simp_all
  have m0: "0 \<le> roundmag (- y)" using neg by (intro roundmag_nonneg) simp
  have "- roundmag (- y) \<le> x"
  proof (cases "0 \<le> x")
    case True
    with m0 show ?thesis by simp
  next
    case False
    with le have "\<bar>x\<bar> \<le> - y" by simp
    from roundmag_ge [OF _ x this] neg have "\<bar>x\<bar> \<le> roundmag (- y)" by simp
    with False show ?thesis by simp
  qed
  then show ?thesis using neg by (simp add: fround_def Let_def ay sg)
qed

lemma fround_ge:
  assumes x: "representable \<bar>x\<bar>" and le: "x \<le> y"
  shows "\<not> fless (fround y) (Finite x)"
proof (cases "y \<le> 0")
  case True
  with le have ax: "\<bar>x\<bar> = - x" and ay: "\<bar>y\<bar> = - y" by simp_all
  have ny: "0 \<le> - y" using True by simp
  from le have "- y \<le> - x" by simp
  from roundmag_le [OF ny x [unfolded ax] this] have m: "roundmag (- y) \<le> - x" .
  with representable_bound(2) [OF x] ax have "\<not> 2 ^ 277 \<le> roundmag (- y)" by simp
  moreover have "x \<le> sgn y * roundmag (- y)"
    using True m by (cases "y = 0") (simp_all add: roundmag_0)
  ultimately show ?thesis by (simp add: fround_def Let_def ay)
next
  case False
  then have pos: "0 < y" and ay: "\<bar>y\<bar> = y" and sg: "sgn y = 1" by simp_all
  have m0: "0 \<le> roundmag y" using pos by (intro roundmag_nonneg) simp
  have "x \<le> roundmag y"
  proof (cases "0 \<le> x")
    case True
    with le have "\<bar>x\<bar> \<le> y" by simp
    from roundmag_ge [OF _ x this] pos have "\<bar>x\<bar> \<le> roundmag y" by simp
    with True show ?thesis by simp
  next
    case False
    with m0 show ?thesis by simp
  qed
  then show ?thesis using pos by (simp add: fround_def Let_def ay sg)
qed

lemma field_bounds:
  "0 \<le> ffrac w" "ffrac w < 2 ^ 23" "0 \<le> fexp w" "fexp w < 256"
  by (simp_all add: ffrac_def fexp_def)

lemma valof_representable:
  assumes "valof w = Finite x"
  shows "representable \<bar>x\<bar>"
proof (cases "fexp w = 0")
  case True
  with assms have "\<bar>x\<bar> = ffrac w"
    using field_bounds(1) [of w] by (auto simp: valof_def abs_mult split: if_splits)
  then have "\<bar>x\<bar> = ffrac w * 2 ^ 0" by simp
  moreover have "ffrac w < 2 ^ 24" using field_bounds(2) [of w] by simp
  ultimately show ?thesis
    unfolding representable_def using field_bounds(1) [of w] by blast
next
  case False
  with assms have e: "fexp w \<noteq> 255" and "\<bar>x\<bar> = \<bar>(2 ^ 23 + ffrac w) * 2 ^ nat (fexp w - 1)\<bar>"
    by (auto simp: valof_def abs_mult split: if_splits)
  then have a: "\<bar>x\<bar> = (2 ^ 23 + ffrac w) * 2 ^ nat (fexp w - 1)"
    using field_bounds(1) [of w] by (simp add: abs_mult)
  have "nat (fexp w - 1) \<le> 253" using e field_bounds(4) [of w] by simp
  moreover have "0 \<le> 2 ^ 23 + ffrac w" "2 ^ 23 + ffrac w < 2 ^ 24"
    using field_bounds(1,2) [of w] by simp_all
  ultimately show ?thesis
    unfolding representable_def using a by blast
qed

lemma valof_tolerance: "valof NMG_TOLERANCE = Finite (13743895 * 2 ^ 112)"
  by (simp add: valof_def NMG_TOLERANCE_def fexp_def ffrac_def fsign_def)

text \<open>A float is within the tolerance of itself, whatever it is.\<close>

lemma nmgSloppyEquals_refl: "nmgSloppyEquals a a"
proof (cases "valof a")
  case (Finite x)
  have x: "representable \<bar>x\<bar>" by (rule valof_representable [OF Finite])
  have "\<not> fless (Finite x) (fround (x - 13743895 * 2 ^ 112))"
    by (rule fround_le [OF x]) simp
  moreover have "\<not> fless (fround (x + 13743895 * 2 ^ 112)) (Finite x)"
    by (rule fround_ge [OF x]) simp
  ultimately show ?thesis
    by (simp add: nmgSloppyEquals_def Finite valof_tolerance fsub_def)
next
  case (Infinity s)
  then show ?thesis
    by (simp add: nmgSloppyEquals_def valof_tolerance fsub_def)
next
  case NaN
  then show ?thesis
    by (simp add: nmgSloppyEquals_def valof_tolerance fsub_def)
qed

text \<open>
  The comparison is the rounded one. \<^verbatim>\<open>1.0f\<close> and \<^verbatim>\<open>1.0001f\<close> are more than \<open>1/10000\<close>
  apart, but \<^verbatim>\<open>1.0f + 0.0001f\<close> rounds to \<^verbatim>\<open>1.0001f\<close> and the test accepts them.
  \<^verbatim>\<open>0.0001f\<close> and \<^verbatim>\<open>-1e-12f\<close> are less than \<open>1/10000\<close> apart, but the float \<^verbatim>\<open>0.0001f\<close>
  is below \<open>1/10000\<close> and the test rejects \<^verbatim>\<open>-1e-12f\<close> for \<^verbatim>\<open>0.0001f\<close>; the other way
  round it accepts, as \<^verbatim>\<open>-1e-12f + 0.0001f\<close> rounds to \<^verbatim>\<open>0.0001f\<close>: the test is not
  symmetric.
\<close>

lemma nmgSloppyEquals_rounds:
  "nmgSloppyEquals 0x3F800000 0x3F800347 \<and> \<not> withinExact 0x3F800000 0x3F800347"
  "\<not> nmgSloppyEquals 0x38D1B717 0xAB8CBCCC \<and> withinExact 0x38D1B717 0xAB8CBCCC"
  "nmgSloppyEquals 0xAB8CBCCC 0x38D1B717"
  by code_simp+

section \<open>Deduplication: what the index map is\<close>

lemma seenIndex_shift: "seenIndex v rs j = j + seenIndex v rs 0"
proof (induction rs arbitrary: j)
  case Nil
  show ?case by simp
next
  case (Cons r rs)
  from Cons [of "Suc j"] Cons [of "Suc 0"] show ?case by simp
qed

lemma seenIndex_le: "seenIndex v rs 0 \<le> length rs"
proof (induction rs)
  case Nil
  show ?case by simp
next
  case (Cons r rs)
  then show ?case using seenIndex_shift [of v rs "Suc 0"] by simp
qed

lemma seenIndex_match:
  "seenIndex v rs 0 < length rs \<Longrightarrow> vertSloppyEquals v (rs ! seenIndex v rs 0)"
proof (induction rs)
  case Nil
  then show ?case by simp
next
  case (Cons r rs)
  then show ?case using seenIndex_shift [of v rs "Suc 0"] by (cases "vertSloppyEquals v r") simp_all
qed

lemma seenIndex_first:
  "k < seenIndex v rs 0 \<Longrightarrow> \<not> vertSloppyEquals v (rs ! k)"
proof (induction rs arbitrary: k)
  case Nil
  then show ?case by simp
next
  case (Cons r rs)
  show ?case
  proof (cases "vertSloppyEquals v r")
    case True
    with Cons.prems show ?thesis by simp
  next
    case False
    with Cons.prems have "k < Suc (seenIndex v rs 0)"
      using seenIndex_shift [of v rs "Suc 0"] by simp
    with False Cons.IH show ?thesis by (cases k) simp_all
  qed
qed

lemma seenIndex_append:
  "seenIndex v (rs @ ext) 0 =
     (if seenIndex v rs 0 < length rs then seenIndex v rs 0 else length rs + seenIndex v ext 0)"
proof (induction rs)
  case Nil
  show ?case by simp
next
  case (Cons r rs)
  then show ?case
    using seenIndex_shift [of v rs "Suc 0"] seenIndex_shift [of v "rs @ ext" "Suc 0"]
    by (cases "vertSloppyEquals v r") simp_all
qed

lemma vertSloppyEquals_refl: "vertSloppyEquals v v"
  by (cases v) (simp add: nmgSloppyEquals_refl)

lemma firstMatch_seenIndex:
  "firstMatch v res k = (k < length res \<and> seenIndex v res 0 = k)"
proof
  assume f: "firstMatch v res k"
  then have k: "k < length res" and hit: "vertSloppyEquals v (res ! k)"
    and none: "\<And>k'. k' < k \<Longrightarrow> \<not> vertSloppyEquals v (res ! k')"
    by (auto simp: firstMatch_def list_all_length)
  from hit seenIndex_first [of k v res] have a: "seenIndex v res 0 \<le> k" by (rule_tac ccontr) simp
  have "\<not> seenIndex v res 0 < k"
  proof
    assume l: "seenIndex v res 0 < k"
    with k have "seenIndex v res 0 < length res" by simp
    from seenIndex_match [OF this] none [OF l] show False by simp
  qed
  with a k show "k < length res \<and> seenIndex v res 0 = k" by simp
next
  assume "k < length res \<and> seenIndex v res 0 = k"
  then have k: "k < length res" and e: "seenIndex v res 0 = k" by simp_all
  from seenIndex_match [of v res] k e have "vertSloppyEquals v (res ! k)" by simp
  moreover have "\<not> vertSloppyEquals v (res ! k')" if "k' < k" for k'
    using seenIndex_first [of k' v res] that e by simp
  ultimately show "firstMatch v res k"
    using k by (simp add: firstMatch_def list_all_length)
qed

lemma dedup_inv_seen:
  assumes inv: "dedup_inv src res imap" and hit: "seenIndex v res 0 \<noteq> length res"
  shows "dedup_inv (src @ [v]) res (imap @ [seenIndex v res 0])"
proof -
  from hit have lt: "seenIndex v res 0 < length res"
    using seenIndex_le [of v res] by simp
  from inv have len: "length imap = length src"
    and old: "\<And>i. i < length src \<Longrightarrow> imap ! i = seenIndex (src ! i) res 0"
    and bnd: "\<And>i. i < length src \<Longrightarrow> seenIndex (src ! i) res 0 < length res"
    and rep: "\<And>k. k < length res \<Longrightarrow>
        \<exists>i<length src. imap ! i = k \<and> src ! i = res ! k \<and> (\<forall>i'<i. imap ! i' < k)"
    unfolding dedup_inv_def by (blast, blast, metis, blast)
  have a: "\<forall>i<length (src @ [v]). (imap @ [seenIndex v res 0]) ! i = seenIndex ((src @ [v]) ! i) res 0
             \<and> (imap @ [seenIndex v res 0]) ! i < length res"
    using old bnd lt len by (auto simp: nth_append less_Suc_eq)
  have b: "\<forall>k<length res. \<exists>i<length (src @ [v]). (imap @ [seenIndex v res 0]) ! i = k
             \<and> (src @ [v]) ! i = res ! k \<and> (\<forall>i'<i. (imap @ [seenIndex v res 0]) ! i' < k)"
  proof (intro allI impI)
    fix k assume "k < length res"
    from rep [OF this] obtain i where i: "i < length src" "imap ! i = k" "src ! i = res ! k"
      "\<forall>i'<i. imap ! i' < k" by blast
    then show "\<exists>i<length (src @ [v]). (imap @ [seenIndex v res 0]) ! i = k
             \<and> (src @ [v]) ! i = res ! k \<and> (\<forall>i'<i. (imap @ [seenIndex v res 0]) ! i' < k)"
      using len by (intro exI [of _ i]) (auto simp: nth_append)
  qed
  show ?thesis
    unfolding dedup_inv_def by (intro conjI, simp add: len, rule a, rule b)
qed

lemma dedup_inv_new:
  assumes inv: "dedup_inv src res imap" and miss: "seenIndex v res 0 = length res"
  shows "dedup_inv (src @ [v]) (res @ [v]) (imap @ [length res])"
proof -
  from inv have len: "length imap = length src"
    and old: "\<And>i. i < length src \<Longrightarrow> imap ! i = seenIndex (src ! i) res 0"
    and bnd: "\<And>i. i < length src \<Longrightarrow> seenIndex (src ! i) res 0 < length res"
    and rep: "\<And>k. k < length res \<Longrightarrow>
        \<exists>i<length src. imap ! i = k \<and> src ! i = res ! k \<and> (\<forall>i'<i. imap ! i' < k)"
    unfolding dedup_inv_def by (blast, blast, metis, blast)
  have self: "seenIndex v (res @ [v]) 0 = length res"
    using miss vertSloppyEquals_refl [of v] by (simp add: seenIndex_append)
  have a: "\<forall>i<length (src @ [v]). (imap @ [length res]) ! i = seenIndex ((src @ [v]) ! i) (res @ [v]) 0
             \<and> (imap @ [length res]) ! i < length (res @ [v])"
  proof (intro allI impI)
    fix i assume "i < length (src @ [v])"
    then consider "i < length src" | "i = length src" by fastforce
    then show "(imap @ [length res]) ! i = seenIndex ((src @ [v]) ! i) (res @ [v]) 0
             \<and> (imap @ [length res]) ! i < length (res @ [v])"
    proof cases
      case 1
      with old [OF 1] bnd [OF 1] len show ?thesis by (simp add: nth_append seenIndex_append)
    next
      case 2
      with len self show ?thesis by (simp add: nth_append)
    qed
  qed
  have b: "\<forall>k<length (res @ [v]). \<exists>i<length (src @ [v]). (imap @ [length res]) ! i = k
             \<and> (src @ [v]) ! i = (res @ [v]) ! k \<and> (\<forall>i'<i. (imap @ [length res]) ! i' < k)"
  proof (intro allI impI)
    fix k assume "k < length (res @ [v])"
    then consider "k < length res" | "k = length res" by fastforce
    then show "\<exists>i<length (src @ [v]). (imap @ [length res]) ! i = k
             \<and> (src @ [v]) ! i = (res @ [v]) ! k \<and> (\<forall>i'<i. (imap @ [length res]) ! i' < k)"
    proof cases
      case 1
      from rep [OF 1] obtain i where i: "i < length src" "imap ! i = k" "src ! i = res ! k"
        "\<forall>i'<i. imap ! i' < k" by blast
      then show ?thesis
        using len 1 by (intro exI [of _ i]) (auto simp: nth_append)
    next
      case 2
      then show ?thesis
        using len old bnd by (intro exI [of _ "length src"]) (auto simp: nth_append)
    qed
  qed
  show ?thesis
    unfolding dedup_inv_def by (intro conjI, simp add: len, rule a, rule b)
qed

lemma dedupLoop_inv:
  "dedup_inv src res imap \<Longrightarrow> dedupLoop vs res imap = (res', imap') \<Longrightarrow>
   dedup_inv (src @ vs) res' imap'"
proof (induction vs arbitrary: src res imap)
  case Nil
  then show ?case by simp
next
  case (Cons v vs)
  show ?case
  proof (cases "seenIndex v res 0 = length res")
    case True
    with Cons.prems have run: "dedupLoop vs (res @ [v]) (imap @ [length res]) = (res', imap')"
      by simp
    from Cons.IH [OF dedup_inv_new [OF Cons.prems(1) True] run] show ?thesis by simp
  next
    case False
    with Cons.prems have run: "dedupLoop vs res (imap @ [seenIndex v res 0]) = (res', imap')"
      by simp
    from Cons.IH [OF dedup_inv_seen [OF Cons.prems(1) False] run] show ?thesis by simp
  qed
qed

lemma removeDuplicateVerts_inv:
  assumes "removeDuplicateVerts n src = (cnt, res, imap)"
  shows "dedup_inv (take n src) res imap \<and> cnt = length res"
proof -
  from assms have run: "dedupLoop (take n src) [] [] = (res, imap)" and cnt: "cnt = length res"
    by (auto simp: removeDuplicateVerts_def split: prod.splits)
  have "dedup_inv [] [] []" by (simp add: dedup_inv_def)
  from dedupLoop_inv [OF this run] cnt show ?thesis by simp
qed

text \<open>
  C5, as the code has it. For \<open>n\<close> source vertices, \<^verbatim>\<open>removeDuplicateVerts\<close> writes \<open>n\<close> map
  entries. The entry of index \<open>i\<close> is the index of the first result vertex that the
  tolerance test \<^verbatim>\<open>nmgSloppyEquals\<close> (in \<^verbatim>\<open>float\<close> arithmetic, with the \<^verbatim>\<open>float\<close> constant
  \<^verbatim>\<open>0.0001f\<close>) accepts for vertex \<open>i\<close> on all three axes: that result vertex matches, and
  no result vertex before it does. Two indices have equal entries exactly when some result
  vertex is the first match of both their vertices. The map is stable: result vertex \<open>k\<close>
  is the source vertex of the first index mapped to \<open>k\<close>, and all indices before that one
  map to smaller values, so the result indices are given out in first-occurrence order.
  This holds for all bit patterns, infinities and NaNs included.
\<close>

theorem removeDuplicateVerts_first_match:
  assumes run: "removeDuplicateVerts n src = (cnt, res, imap)" and n: "n \<le> length src"
  shows "length imap = n \<and> length res = cnt \<and>
         (\<forall>i<n. imap ! i < cnt \<and> vertSloppyEquals (src ! i) (res ! (imap ! i)) \<and>
                 (\<forall>k<imap ! i. \<not> vertSloppyEquals (src ! i) (res ! k))) \<and>
         (\<forall>i<n. \<forall>j<n. (imap ! i = imap ! j) =
                 (\<exists>k. firstMatch (src ! i) res k \<and> firstMatch (src ! j) res k)) \<and>
         (\<forall>k<cnt. \<exists>i<n. imap ! i = k \<and> res ! k = src ! i \<and> (\<forall>i'<i. imap ! i' < k))"
proof -
  from removeDuplicateVerts_inv [OF run] have inv: "dedup_inv (take n src) res imap"
    and cnt: "cnt = length res" by simp_all
  from n have ln: "length (take n src) = n" by simp
  from inv have len0: "length imap = length (take n src)"
    and old0: "\<And>i. i < length (take n src) \<Longrightarrow>
        imap ! i = seenIndex (take n src ! i) res 0 \<and> imap ! i < length res"
    and rep0: "\<And>k. k < length res \<Longrightarrow>
        \<exists>i<length (take n src). imap ! i = k \<and> take n src ! i = res ! k \<and> (\<forall>i'<i. imap ! i' < k)"
    unfolding dedup_inv_def by blast+
  from len0 ln have len: "length imap = n" by simp
  have old: "imap ! i = seenIndex (src ! i) res 0 \<and> imap ! i < length res" if "i < n" for i
  proof -
    from that ln have "i < length (take n src)" by simp
    from old0 [OF this] that show ?thesis by simp
  qed
  have rep: "\<exists>i<n. imap ! i = k \<and> take n src ! i = res ! k \<and> (\<forall>i'<i. imap ! i' < k)"
    if "k < length res" for k
  proof -
    from rep0 [OF that] obtain i where "i < length (take n src)" "imap ! i = k"
      "take n src ! i = res ! k" "\<forall>i'<i. imap ! i' < k" by blast
    with ln show ?thesis by (intro exI [of _ i]) simp
  qed
  have a: "\<forall>i<n. imap ! i < cnt \<and> vertSloppyEquals (src ! i) (res ! (imap ! i)) \<and>
                 (\<forall>k<imap ! i. \<not> vertSloppyEquals (src ! i) (res ! k))"
  proof (intro allI impI)
    fix i assume i: "i < n"
    from old [OF i] have e: "imap ! i = seenIndex (src ! i) res 0" and l: "imap ! i < length res"
      by simp_all
    from l e have "vertSloppyEquals (src ! i) (res ! (imap ! i))"
      using seenIndex_match [of "src ! i" res] by simp
    moreover have "\<forall>k<imap ! i. \<not> vertSloppyEquals (src ! i) (res ! k)"
      using seenIndex_first [of _ "src ! i" res] e by simp
    ultimately show "imap ! i < cnt \<and> vertSloppyEquals (src ! i) (res ! (imap ! i)) \<and>
                 (\<forall>k<imap ! i. \<not> vertSloppyEquals (src ! i) (res ! k))"
      using l cnt by simp
  qed
  have b: "\<forall>i<n. \<forall>j<n. (imap ! i = imap ! j) =
                 (\<exists>k. firstMatch (src ! i) res k \<and> firstMatch (src ! j) res k)"
  proof (intro allI impI)
    fix i j assume i: "i < n" and j: "j < n"
    from old [OF i] old [OF j]
    show "(imap ! i = imap ! j) = (\<exists>k. firstMatch (src ! i) res k \<and> firstMatch (src ! j) res k)"
      unfolding firstMatch_seenIndex by auto
  qed
  have c: "\<forall>k<cnt. \<exists>i<n. imap ! i = k \<and> res ! k = src ! i \<and> (\<forall>i'<i. imap ! i' < k)"
  proof (intro allI impI)
    fix k assume "k < cnt"
    with cnt rep [of k] obtain i where i: "i < n" "imap ! i = k" "take n src ! i = res ! k"
      "\<forall>i'<i. imap ! i' < k" by auto
    then show "\<exists>i<n. imap ! i = k \<and> res ! k = src ! i \<and> (\<forall>i'<i. imap ! i' < k)"
      by (intro exI [of _ i]) simp
  qed
  from len cnt a b c show ?thesis by simp
qed

lemma removeDuplicateVerts_chain3:
  "removeDuplicateVerts 3 chain3 = (2, [(0, 0, 0), (0x393CBE62, 0, 0)], [0, 0, 1])"
  by code_simp

theorem removeDuplicateVerts_first_match_witness:
  "removeDuplicateVerts 3 chain3 = (2, [(0, 0, 0), (0x393CBE62, 0, 0)], [0, 0, 1]) \<and>
   (3::nat) \<le> length chain3 \<and>
   vertSloppyEquals (chain3 ! 1) ([(0, 0, 0), (0x393CBE62, 0, 0)] ! ([0, 0, 1] ! 1)) \<and>
   [(0, 0, 0), (0x393CBE62, 0, 0)] ! 1 = chain3 ! 2"
proof -
  have n: "(3::nat) \<le> length chain3" by (simp add: chain3_def)
  note T = removeDuplicateVerts_first_match [OF removeDuplicateVerts_chain3 n]
  from T [THEN conjunct2, THEN conjunct2, THEN conjunct1, rule_format, of 1]
  have "vertSloppyEquals (chain3 ! 1) ([(0, 0, 0), (0x393CBE62, 0, 0)] ! ([0, 0, 1] ! 1))"
    by simp
  moreover have "[(0, 0, 0), (0x393CBE62, 0, 0)] ! 1 = chain3 ! 2"
    by (simp add: chain3_def)
  ultimately show ?thesis using removeDuplicateVerts_chain3 n by simp
qed

text \<open>
  C5 as the spec states it (equal map entries exactly for vertices within the tolerance of
  each other) fails on the three vertices \<^verbatim>\<open>0.0f\<close>, \<^verbatim>\<open>0.00009f\<close>, \<^verbatim>\<open>0.00018f\<close> of the x
  axis. The second and the third are within the tolerance of each other, by the code's
  test in either order and by their exact distance (their y and z are equal), but the
  second is merged into the first and the third, too far from the first, is not, so their
  map entries differ.
\<close>

theorem removeDuplicateVerts_pairwise_counterexample:
  "vertSloppyEquals (chain3 ! 1) (chain3 ! 2) \<and> vertSloppyEquals (chain3 ! 2) (chain3 ! 1) \<and>
   withinExact (fst (chain3 ! 1)) (fst (chain3 ! 2)) \<and>
   snd (chain3 ! 1) = snd (chain3 ! 2) \<and>
   snd (snd (removeDuplicateVerts 3 chain3)) ! 1 \<noteq> snd (snd (removeDuplicateVerts 3 chain3)) ! 2"
  by code_simp

section \<open>Flattening: the capacity checks\<close>

text \<open>
  C9. When the triangle capacity \<^verbatim>\<open>trisSize\<close> is below the mesh's triangle count, or the
  vertex capacity \<^verbatim>\<open>vertsSize\<close> is below the number of unique vertices that
  \<^verbatim>\<open>removeDuplicateVerts\<close> finds, \<^verbatim>\<open>rcpdFlattenMesh\<close> returns false and the four outputs
  (vertex buffer, vertex count, triangle buffer, triangle count) are as they were. The
  mesh's vertex count is taken to lie within its vertex array.
\<close>

theorem rcpdFlattenMesh_capacity_failure:
  assumes "0 \<le> dm_nverts dm" and "dm_nverts dm \<le> int (length (dm_verts dm))"
    and "trisSize < dm_ntris dm \<or>
         vertsSize < int (fst (removeDuplicateVerts (nat (dm_nverts dm)) (dm_verts dm)))"
  shows "rcpdFlattenMesh (Some dm) verts vertCount vertsSize tris triCount trisSize
           = Some (False, verts, vertCount, tris, triCount)"
  using assms
  by (auto simp: rcpdFlattenMesh_def split: option.splits prod.splits)

theorem rcpdFlattenMesh_capacity_failure_witness:
  "(0::int) \<le> dm_nverts twoTris \<and> dm_nverts twoTris \<le> int (length (dm_verts twoTris)) \<and>
   (1::int) < dm_ntris twoTris \<and>
   rcpdFlattenMesh (Some twoTris) (Some nines) (Some 0) 6 (Some (replicate 6 7)) (Some 0) 1
     = Some (False, Some nines, Some 0, Some (replicate 6 7), Some 0) \<and>
   (4::int) < int (fst (removeDuplicateVerts (nat (dm_nverts twoTris)) (dm_verts twoTris))) \<and>
   rcpdFlattenMesh (Some twoTris) (Some nines) (Some 0) 4 (Some (replicate 6 7)) (Some 0) 2
     = Some (False, Some nines, Some 0, Some (replicate 6 7), Some 0)"
proof -
  have a: "(0::int) \<le> dm_nverts twoTris" and b: "dm_nverts twoTris \<le> int (length (dm_verts twoTris))"
    and c: "(1::int) < dm_ntris twoTris"
    by (simp_all add: twoTris_def)
  have d: "(4::int) < int (fst (removeDuplicateVerts (nat (dm_nverts twoTris)) (dm_verts twoTris)))"
    by code_simp
  from c have c': "(1::int) < dm_ntris twoTris \<or>
      (6::int) < int (fst (removeDuplicateVerts (nat (dm_nverts twoTris)) (dm_verts twoTris)))" by simp
  from d have d': "(2::int) < dm_ntris twoTris \<or>
      (4::int) < int (fst (removeDuplicateVerts (nat (dm_nverts twoTris)) (dm_verts twoTris)))" by simp
  show ?thesis
    using a b c d rcpdFlattenMesh_capacity_failure [OF a b c'] rcpdFlattenMesh_capacity_failure [OF a b d']
    by simp
qed

section \<open>Version guard\<close>

lemma rcpdBuildFromMeshData_wrong_version:
  assumes "28 \<le> length d" and "field32 d 24 \<noteq> NMG_POLYMESHDETAIL_VERSION"
  shows "rcpdBuildFromMeshData h (Some d) n rm = Some (False, h, rm)"
proof (cases rm)
  case None
  then show ?thesis by (simp add: rcpdBuildFromMeshData_def)
next
  case (Some r)
  have rd: "rdbytes d 0 (sint pd_headerSize) = Some (take 28 d)"
    using assms(1) by (simp add: rdbytes_def pd_headerSize_def)
  have "field32 (take 28 d) 24 \<noteq> NMG_POLYMESHDETAIL_VERSION"
    using assms(2) by (simp add: field32_take)
  with Some rd show ?thesis
    by (simp add: rcpdBuildFromMeshData_def)
qed

lemma rcpmBuildSerializedData_wrong_version:
  assumes "72 \<le> length d" and "field32 d 68 \<noteq> NMG_POLYMESH_VERSION"
  shows "rcpmBuildSerializedData h (Some d) n pm mv wh wrd ws = Some (False, h, pm, mv, wh, wrd, ws)"
proof -
  have rd: "rdbytes d 0 (sint pm_headerSize) = Some (take 72 d)"
    using assms(1) by (simp add: rdbytes_def pm_headerSize_def)
  have "field32 (take 72 d) 68 \<noteq> NMG_POLYMESH_VERSION"
    using assms(2) by (simp add: field32_take)
  with rd show ?thesis
    by (simp add: rcpmBuildSerializedData_def split: option.splits)
qed

lemma dtnmBuildDTNavMeshFromRaw_wrong_version:
  assumes "36 \<le> length d" and "field32 d 0 \<noteq> RCN_NAVMESH_VERSION"
  shows "\<exists>st pp. dtnmBuildDTNavMeshFromRaw ops h (Some d) n safe pp0 = Some (st, h, pp) \<and>
           dtStatusFailed st \<and> (pp = pp0 \<or> pp = Some None)"
proof -
  have rd: "rdbytes d 0 (sint setHeaderSize) = Some (take 36 d)"
    using assms(1) by (simp add: rdbytes_def setHeaderSize_def)
  have "field32 (take 36 d) 0 \<noteq> RCN_NAVMESH_VERSION"
    using assms(2) by (simp add: field32_take)
  with rd show ?thesis
    by (simp add: dtnmBuildDTNavMeshFromRaw_def status_failed_simps split: option.splits)
qed

text \<open>
  C8. A buffer that holds a header whose version field is not the reader's constant is
  refused by each of the three deserializers: \<^verbatim>\<open>rcpdBuildFromMeshData\<close> and
  \<^verbatim>\<open>rcpmBuildSerializedData\<close> return false, \<^verbatim>\<open>dtnmBuildDTNavMeshFromRaw\<close> returns a failed
  status. In each case the heap is as before (nothing was allocated), the target record and
  the outputs are as before, and the container pointer variable is as before or null.
\<close>

theorem version_guard:
  "(28 \<le> length d1 \<and> field32 d1 24 \<noteq> NMG_POLYMESHDETAIL_VERSION \<longrightarrow>
      rcpdBuildFromMeshData h (Some d1) n1 rm = Some (False, h, rm)) \<and>
   (72 \<le> length d2 \<and> field32 d2 68 \<noteq> NMG_POLYMESH_VERSION \<longrightarrow>
      rcpmBuildSerializedData h (Some d2) n2 pm mv wh wrd ws = Some (False, h, pm, mv, wh, wrd, ws)) \<and>
   (36 \<le> length d3 \<and> field32 d3 0 \<noteq> RCN_NAVMESH_VERSION \<longrightarrow>
      (\<exists>st pp. dtnmBuildDTNavMeshFromRaw ops h (Some d3) n3 safe pp0 = Some (st, h, pp) \<and>
         dtStatusFailed st \<and> (pp = pp0 \<or> pp = Some None)))"
  using rcpdBuildFromMeshData_wrong_version rcpmBuildSerializedData_wrong_version
    dtnmBuildDTNavMeshFromRaw_wrong_version
  by blast

theorem version_guard_witness:
  "(28::nat) \<le> length (replicate 24 0 @ bytes32 2) \<and>
   field32 (replicate 24 0 @ bytes32 2) 24 \<noteq> NMG_POLYMESHDETAIL_VERSION \<and>
   rcpdBuildFromMeshData (heap0 []) (Some (replicate 24 0 @ bytes32 2)) 28 (Some pd_empty)
     = Some (False, heap0 [], Some pd_empty) \<and>
   (72::nat) \<le> length (replicate 68 0 @ bytes32 2) \<and>
   field32 (replicate 68 0 @ bytes32 2) 68 \<noteq> NMG_POLYMESH_VERSION \<and>
   rcpmBuildSerializedData (heap0 []) (Some (replicate 68 0 @ bytes32 2)) 72 (Some pm_empty)
       (Some 0) (Some 0) (Some 0) (Some 0)
     = Some (False, heap0 [], Some pm_empty, Some 0, Some 0, Some 0, Some 0) \<and>
   (36::nat) \<le> length (bytes32 2 @ replicate 32 0) \<and>
   field32 (bytes32 2 @ replicate 32 0) 0 \<noteq> RCN_NAVMESH_VERSION \<and>
   dtnmBuildDTNavMeshFromRaw listOps (heap0 []) (Some (bytes32 2 @ replicate 32 0)) 36 True (Some None)
     = Some (DT_FAILURE + DT_WRONG_VERSION, heap0 [], Some None)"
proof -
  have a1: "(28::nat) \<le> length (replicate 24 0 @ bytes32 2)"
    and a2: "(72::nat) \<le> length (replicate 68 0 @ bytes32 2)"
    and a3: "(36::nat) \<le> length (bytes32 2 @ replicate 32 0)"
    by (simp_all add: length_bytes32)
  have "field32 (replicate 24 0 @ bytes32 2) 24 = 2"
    using le32_bytes32 [of 2 "[]"] by (simp add: field32_def)
  then have b1: "field32 (replicate 24 0 @ bytes32 2) 24 \<noteq> NMG_POLYMESHDETAIL_VERSION"
    by (simp add: NMG_POLYMESHDETAIL_VERSION_def)
  have "field32 (replicate 68 0 @ bytes32 2) 68 = 2"
    using le32_bytes32 [of 2 "[]"] by (simp add: field32_def)
  then have b2: "field32 (replicate 68 0 @ bytes32 2) 68 \<noteq> NMG_POLYMESH_VERSION"
    by (simp add: NMG_POLYMESH_VERSION_def)
  have "field32 (bytes32 2 @ replicate 32 0) 0 = 2"
    by (simp add: field32_def le32_bytes32)
  then have b3: "field32 (bytes32 2 @ replicate 32 0) 0 \<noteq> RCN_NAVMESH_VERSION"
    by (simp add: RCN_NAVMESH_VERSION_def)
  note T = version_guard [of "replicate 24 0 @ bytes32 2" "heap0 []" 28 "Some pd_empty"
      "replicate 68 0 @ bytes32 2" 72 "Some pm_empty" "Some 0" "Some 0" "Some 0" "Some 0"
      "bytes32 2 @ replicate 32 0" listOps 36 True "Some None"]
  from T a1 b1 have c1: "rcpdBuildFromMeshData (heap0 []) (Some (replicate 24 0 @ bytes32 2)) 28 (Some pd_empty)
     = Some (False, heap0 [], Some pd_empty)" by blast
  from T a2 b2 have c2: "rcpmBuildSerializedData (heap0 []) (Some (replicate 68 0 @ bytes32 2)) 72 (Some pm_empty)
       (Some 0) (Some 0) (Some 0) (Some 0)
     = Some (False, heap0 [], Some pm_empty, Some 0, Some 0, Some 0, Some 0)" by blast
  have rd: "rdbytes (bytes32 2 @ replicate 32 0) 0 (sint setHeaderSize) = Some (bytes32 2 @ replicate 32 0)"
    by (simp add: rdbytes_def setHeaderSize_def length_bytes32)
  have c3: "dtnmBuildDTNavMeshFromRaw listOps (heap0 []) (Some (bytes32 2 @ replicate 32 0)) 36 True (Some None)
     = Some (DT_FAILURE + DT_WRONG_VERSION, heap0 [], Some None)"
    using b3 rd by (simp add: dtnmBuildDTNavMeshFromRaw_def setHeaderSize_def)
  from a1 b1 c1 a2 b2 c2 a3 b3 c3 show ?thesis by blast
qed

section \<open>Detail-mesh deserializer: the record after a failed allocation\<close>

text \<open>
  C3 at a concrete input. The buffer holds a well-formed record with one sub-mesh, one
  triangle and one vertex; the target is a zeroed record; the first allocation succeeds
  and the second returns null. \<^verbatim>\<open>rcpdBuildFromMeshData\<close> returns false, and the block
  allocated for \<^verbatim>\<open>meshes\<close> is freed, but the record is not as it was: \<^verbatim>\<open>meshes\<close> still
  holds the address of the freed block and the resource type is now the locally-owned one.
\<close>

theorem rcpdBuildFromMeshData_failed_alloc_leaves_dangling:
  "\<exists>h' r'. rcpdBuildFromMeshData (heap0 [True, False]) (Some pd_buffer1) 60 (Some pd_empty)
             = Some (False, h', Some r') \<and>
           pd_meshes r' = 1 \<and> \<not> live h' 1 \<and> pd_meshes pd_empty = 0 \<and>
           pd_resourcetype r' = NMG_ALLOC_TYPE_LOCAL \<and>
           pd_resourcetype pd_empty = NMG_ALLOC_TYPE_EXTERN \<and> r' \<noteq> pd_empty"
proof -
  have len: "length pd_buffer1 = 60"
    by (simp add: pd_buffer1_def length_bytes32)
  have rd: "rdbytes pd_buffer1 0 28 = Some (take 28 pd_buffer1)"
    using len by (simp add: rdbytes_def)
  have f: "field32 (take 28 pd_buffer1) 24 = 1" "field32 (take 28 pd_buffer1) 12 = 1"
    "field32 (take 28 pd_buffer1) 16 = 1" "field32 (take 28 pd_buffer1) 20 = 1"
    by (simp_all add: field32_take, simp_all add: pd_buffer1_def field32_def length_bytes32 le32_bytes32)
  show ?thesis
    by (simp add: rcpdBuildFromMeshData_def rd f pd_empty_def NMG_POLYMESHDETAIL_VERSION_def
        Let_def pd_headerSize_def pd_vertSize_def pd_meshSize_def pd_trisSize_def alloc_def heap0_def
        rcpdFreeMeshData_def free_def live_def NMG_ALLOC_TYPE_LOCAL_def NMG_ALLOC_TYPE_EXTERN_def)
qed

theorem rcpdBuildFromMeshData_failed_alloc_leaves_dangling_witness:
  "\<exists>h' r'. rcpdBuildFromMeshData (heap0 [True, False]) (Some pd_buffer1) 60 (Some pd_empty)
             = Some (False, h', Some r') \<and>
           pd_meshes r' = 1 \<and> \<not> live h' 1"
  using rcpdBuildFromMeshData_failed_alloc_leaves_dangling by blast

text \<open>
  The polygon-mesh reader's failure paths: the record comes back untouched (a check
  failed before any allocation) or as the zeroed record that \<^verbatim>\<open>rcpmFreeMeshData\<close> leaves.
\<close>

lemma rcpmFreeMeshData_zeroes: "\<exists>h'. rcpmFreeMeshData h (Some m) = (True, h', Some pm_empty)"
  by (simp add: rcpmFreeMeshData_def pm_empty_def)

lemma rcpmBuildSerializedData_failure:
  assumes "rcpmBuildSerializedData h (Some d) n (Some rm) mv wh wrd ws = Some (False, h', r', outs)"
  shows "(r' = Some rm \<and> h' = h) \<or> r' = Some pm_empty"
  using assms
  unfolding rcpmBuildSerializedData_def Let_def
  by (auto simp: rcpmFreeMeshData_def pm_empty_def split: option.splits if_splits prod.splits)

section \<open>Detail-mesh record: serialize, then deserialize\<close>

lemma rcpdBuildFromMeshData_accepts:
  fixes D :: "byte list" and n :: "32 word"
  assumes hdr: "take 28 D = bytes32 a @ bytes32 b @ bytes32 c @ bytes32 mc @ bytes32 vc @ bytes32 tc
                   @ bytes32 NMG_POLYMESHDETAIL_VERSION"
    and len: "int (length D) = sint n"
    and tot: "n = pd_headerSize + pd_vertSize vc + pd_meshSize mc + pd_trisSize tc"
    and nonneg: "0 \<le> sint (pd_meshSize mc)" "0 \<le> sint (pd_trisSize tc)" "0 \<le> sint (pd_vertSize vc)"
    and fits: "28 + sint (pd_meshSize mc) + sint (pd_trisSize tc) + sint (pd_vertSize vc) \<le> sint n"
    and fresh: "pd_maxmeshes r = 0"
    and mem: "list_all (\<lambda>b. b) (take 3 (outcomes hb))"
  shows "\<exists>h'. rcpdBuildFromMeshData hb (Some D) n (Some r)
            = Some (True, h',
                Some (r\<lparr>pd_meshes := Suc (brk hb), pd_verts := Suc (Suc (Suc (brk hb))),
                        pd_tris := Suc (Suc (brk hb)),
                        pd_nmeshes := a, pd_nverts := b, pd_ntris := c,
                        pd_maxmeshes := mc, pd_maxverts := vc, pd_maxtris := tc,
                        pd_resourcetype := NMG_ALLOC_TYPE_LOCAL\<rparr>)) \<and>
          deref h' (Suc (brk hb)) = take (nat (sint (pd_meshSize mc))) (drop 28 D) \<and>
          deref h' (Suc (Suc (brk hb)))
            = take (nat (sint (pd_trisSize tc))) (drop (28 + nat (sint (pd_meshSize mc))) D) \<and>
          deref h' (Suc (Suc (Suc (brk hb))))
            = take (nat (sint (pd_vertSize vc)))
                (drop (28 + nat (sint (pd_meshSize mc)) + nat (sint (pd_trisSize tc))) D)"
proof -
  define m where "m = sint (pd_meshSize mc)"
  define t where "t = sint (pd_trisSize tc)"
  define v where "v = sint (pd_vertSize vc)"
  define header where "header = take 28 D"
  note nn = nonneg [folded m_def t_def v_def]
  from fits have fit: "28 + m + t + v \<le> sint n" by (simp add: m_def t_def v_def)
  have lt: "sint n < 2147483648" by (rule sint_32_lt)
  have hs: "sint pd_headerSize = 28" by (simp add: pd_headerSize_def)
  have guard: "\<not> (pd_maxmeshes r \<noteq> 0 \<or> sint n < sint pd_headerSize)"
    using fresh fit nn hs by simp
  have rd: "rdbytes D 0 (sint pd_headerSize) = Some header"
    using len fit nn by (simp add: rdbytes_def hs header_def)
  have fl: "field32 header 0 = a" "field32 header 4 = b" "field32 header 8 = c"
    "field32 header 12 = mc" "field32 header 16 = vc" "field32 header 20 = tc"
    "field32 header 24 = NMG_POLYMESHDETAIL_VERSION"
    unfolding header_def hdr by (rule pd_header_fields)+
  have total: "pd_headerSize + pd_vertSize (field32 header 16) + pd_meshSize (field32 header 12)
      + pd_trisSize (field32 header 20) = n"
    by (simp add: fl tot)
  have o2: "sint (pd_headerSize + pd_meshSize mc) = 28 + m"
    using sint_add_in_range [of pd_headerSize "pd_meshSize mc"] hs nn fit lt by (simp add: m_def)
  have o3: "sint (pd_headerSize + pd_meshSize mc + pd_trisSize tc) = 28 + m + t"
    using sint_add_in_range [of "pd_headerSize + pd_meshSize mc" "pd_trisSize tc"] o2 nn fit lt
    by (simp add: t_def)
  define pm where "pm = Suc (brk hb)"
  define pt where "pt = Suc (Suc (brk hb))"
  define pv where "pv = Suc (Suc (Suc (brk hb)))"
  define h1 where "h1 = hb\<lparr>blocks := (blocks hb)(pm \<mapsto> replicate (nat m) 0),
                             brk := pm, outcomes := tl (outcomes hb)\<rparr>"
  define h2 where "h2 = h1\<lparr>blocks := (blocks h1)(pt \<mapsto> replicate (nat t) 0),
                             brk := pt, outcomes := tl (outcomes h1)\<rparr>"
  define h3 where "h3 = h2\<lparr>blocks := (blocks h2)(pv \<mapsto> replicate (nat v) 0),
                             brk := pv, outcomes := tl (outcomes h2)\<rparr>"
  have mem2: "list_all (\<lambda>b. b) (take 2 (outcomes h1))"
    using mem outcomes_tl [of 2 "outcomes hb"] by (simp add: h1_def numeral_3_eq_3 numeral_2_eq_2)
  have mem1: "list_all (\<lambda>b. b) (take 1 (outcomes h2))"
    using mem2 outcomes_tl [of 1 "outcomes h1"] by (simp add: h2_def numeral_2_eq_2)
  have a1: "alloc (sint (pd_meshSize mc)) hb = (pm, h1)"
    using alloc_succeeds [where n = m and h = hb and k = 2] nn mem
    by (simp add: m_def pm_def h1_def numeral_3_eq_3)
  have a2: "alloc (sint (pd_trisSize tc)) h1 = (pt, h2)"
    using alloc_succeeds [where n = t and h = h1 and k = 1] nn mem2
    by (simp add: t_def pt_def h2_def h1_def pm_def numeral_2_eq_2)
  have a3: "alloc (sint (pd_vertSize vc)) h2 = (pv, h3)"
    using alloc_succeeds [where n = v and h = h2 and k = 0] nn mem1
    by (simp add: v_def pv_def h3_def h2_def h1_def pt_def pm_def)
  have ne: "pm \<noteq> 0" "pt \<noteq> 0" "pv \<noteq> 0" "pm \<noteq> pt" "pm \<noteq> pv" "pt \<noteq> pv"
    by (simp_all add: pm_def pt_def pv_def)
  have d3: "deref h3 pm = replicate (nat m) 0" "deref h3 pt = replicate (nat t) 0"
    "deref h3 pv = replicate (nat v) 0"
    using ne by (simp_all add: deref_def h3_def h2_def h1_def)
  define M where "M = take (nat m) (drop 28 D)"
  define T where "T = take (nat t) (drop (nat (28 + m)) D)"
  define V where "V = take (nat v) (drop (nat (28 + m + t)) D)"
  define h4 where "h4 = store h3 pm M"
  define h5 where "h5 = store h4 pt T"
  define h6 where "h6 = store h5 pv V"
  have c1: "memcpy_to h3 pm 0 D (sint pd_headerSize) (sint (pd_meshSize mc)) = Some h4"
    using memcpy_to_fresh [where soff = 28 and n = m and src = D and h = h3 and dst = pm] nn fit len d3
    by (simp add: hs m_def [symmetric] h4_def M_def)
  have d4: "deref h4 pt = replicate (nat t) 0" "deref h4 pv = replicate (nat v) 0"
    using ne d3 by (simp_all add: h4_def deref_store)
  have c2: "memcpy_to h4 pt 0 D (sint (pd_headerSize + pd_meshSize mc)) (sint (pd_trisSize tc)) = Some h5"
    using memcpy_to_fresh [where soff = "28 + m" and n = t and src = D and h = h4 and dst = pt] nn fit len d4
    by (simp add: o2 t_def [symmetric] h5_def T_def)
  have d5: "deref h5 pv = replicate (nat v) 0"
    using ne d4 by (simp add: h5_def deref_store)
  have c3: "memcpy_to h5 pv 0 D (sint (pd_headerSize + pd_meshSize mc + pd_trisSize tc))
              (sint (pd_vertSize vc)) = Some h6"
    using memcpy_to_fresh [where soff = "28 + m + t" and n = v and src = D and h = h5 and dst = pv] nn fit len d5
    by (simp add: o3 v_def [symmetric] h6_def V_def)
  have run: "rcpdBuildFromMeshData hb (Some D) n (Some r)
            = Some (True, h6,
                Some (r\<lparr>pd_meshes := pm, pd_verts := pv, pd_tris := pt,
                        pd_nmeshes := a, pd_nverts := b, pd_ntris := c,
                        pd_maxmeshes := mc, pd_maxverts := vc, pd_maxtris := tc,
                        pd_resourcetype := NMG_ALLOC_TYPE_LOCAL\<rparr>))"
    unfolding rcpdBuildFromMeshData_def
    using guard rd total
    by (simp add: fl Let_def a1 a2 a3 ne c1 c2 c3 del: One_nat_def)
  have r6: "deref h6 pm = M" "deref h6 pt = T" "deref h6 pv = V"
    using ne by (simp_all add: h6_def h5_def h4_def deref_store)
  have Te: "T = take (nat t) (drop (28 + nat m) D)" and Ve: "V = take (nat v) (drop (28 + nat m + nat t) D)"
    using nn by (simp_all add: T_def V_def nat_add_distrib)
  show ?thesis
    using run r6 unfolding M_def Te Ve pm_def pt_def pv_def m_def t_def v_def by blast
qed


lemma memcpy_to_keeps:
  assumes "memcpy_to h dst doff src soff n = Some h'"
  shows "length (deref h' dst) = length (deref h dst)"
    and "k \<le> nat doff \<Longrightarrow> take k (deref h' dst) = take k (deref h dst)"
proof -
  note D = memcpy_to_SomeD [OF assms]
  have l: "length (take (nat n) (drop (nat soff) src)) = nat n"
    using D(1,2,3) by simp
  from D(6) have e: "deref h' dst = take (nat doff) (deref h dst) @ take (nat n) (drop (nat soff) src)
                @ drop (nat doff + nat n) (deref h dst)"
    by (simp add: deref_store)
  show "length (deref h' dst) = length (deref h dst)"
    unfolding e using D(2,4,5) l by simp
  show "take k (deref h' dst) = take k (deref h dst)" if "k \<le> nat doff"
    unfolding e using that D(2,4,5) by simp
qed

lemma rcpdGetSerializedData_layout:
  assumes ser: "rcpdGetSerializedData h (Some mesh) includeBuffer (Some rd0) (Some ds0)
                  = Some (True, hs, Some p, Some n)"
    and mc: "mc = (if includeBuffer then pd_maxmeshes mesh else pd_nmeshes mesh)"
    and vc: "vc = (if includeBuffer then pd_maxverts mesh else pd_nverts mesh)"
    and tc: "tc = (if includeBuffer then pd_maxtris mesh else pd_ntris mesh)"
    and own: "issued h (pd_meshes mesh)" "issued h (pd_tris mesh)" "issued h (pd_verts mesh)"
  shows "take 28 (deref hs p) = bytes32 (pd_nmeshes mesh) @ bytes32 (pd_nverts mesh)
            @ bytes32 (pd_ntris mesh) @ bytes32 mc @ bytes32 vc @ bytes32 tc
            @ bytes32 NMG_POLYMESHDETAIL_VERSION"
    and "int (length (deref hs p)) = sint n"
    and "n = pd_headerSize + pd_vertSize vc + pd_meshSize mc + pd_trisSize tc"
    and "0 \<le> sint (pd_meshSize mc)" and "0 \<le> sint (pd_trisSize tc)" and "0 \<le> sint (pd_vertSize vc)"
    and "28 + sint (pd_meshSize mc) + sint (pd_trisSize tc) + sint (pd_vertSize vc) \<le> sint n"
    and "take (nat (sint (pd_meshSize mc))) (drop 28 (deref hs p))
           = take (nat (sint (pd_meshSize mc))) (deref h (pd_meshes mesh))"
    and "take (nat (sint (pd_trisSize tc))) (drop (28 + nat (sint (pd_meshSize mc))) (deref hs p))
           = take (nat (sint (pd_trisSize tc))) (deref h (pd_tris mesh))"
    and "take (nat (sint (pd_vertSize vc)))
             (drop (28 + nat (sint (pd_meshSize mc)) + nat (sint (pd_trisSize tc))) (deref hs p))
           = take (nat (sint (pd_vertSize vc))) (deref h (pd_verts mesh))"
    and "nat (sint (pd_meshSize mc)) \<le> length (deref h (pd_meshes mesh))"
    and "nat (sint (pd_trisSize tc)) \<le> length (deref h (pd_tris mesh))"
    and "nat (sint (pd_vertSize vc)) \<le> length (deref h (pd_verts mesh))"
proof -
  define header where "header = bytes32 (pd_nmeshes mesh) @ bytes32 (pd_nverts mesh)
            @ bytes32 (pd_ntris mesh) @ bytes32 mc @ bytes32 vc @ bytes32 tc
            @ bytes32 NMG_POLYMESHDETAIL_VERSION"
  define total where "total = pd_headerSize + pd_vertSize vc + pd_meshSize mc + pd_trisSize tc"
  have hl: "length header = 28" by (simp add: header_def length_bytes32)
  have hs: "sint pd_headerSize = 28" by (simp add: pd_headerSize_def)
  from ser obtain h0 h1 h2 h3
    where al: "alloc (sint total) h = (p, h0)" and p: "p \<noteq> 0"
      and c1: "memcpy_to h0 p 0 header 0 (sint pd_headerSize) = Some h1"
      and c2: "memcpy_to h1 p (sint pd_headerSize) (deref h1 (pd_meshes mesh)) 0 (sint (pd_meshSize mc))
                 = Some h2"
      and c3: "memcpy_to h2 p (sint (pd_headerSize + pd_meshSize mc)) (deref h2 (pd_tris mesh)) 0
                 (sint (pd_trisSize tc)) = Some h3"
      and c4: "memcpy_to h3 p (sint (pd_headerSize + pd_meshSize mc + pd_trisSize tc))
                 (deref h3 (pd_verts mesh)) 0 (sint (pd_vertSize vc)) = Some hs"
      and n: "n = total"
    unfolding rcpdGetSerializedData_def mc vc tc header_def total_def
    by (simp add: Let_def split: if_splits prod.splits option.splits)
  note A = alloc_nonnull [OF al p]
  have L0: "int (length (deref h0 p)) = sint total" using A(1,3) by simp
  note D1 = memcpy_to_SomeD [OF c1] and K1 = memcpy_to_keeps [OF c1]
  note D2 = memcpy_to_SomeD [OF c2] and K2 = memcpy_to_keeps [OF c2]
  note D3 = memcpy_to_SomeD [OF c3] and K3 = memcpy_to_keeps [OF c3]
  note D4 = memcpy_to_SomeD [OF c4] and K4 = memcpy_to_keeps [OF c4]
  have L: "int (length (deref hs p)) = sint total"
    using L0 K1(1) K2(1) K3(1) K4(1) by simp
  have lt: "sint total < 2147483648" by (rule sint_32_lt)
  have f2: "28 + sint (pd_meshSize mc) \<le> sint total"
    using D2(5) K1(1) L0 hs by simp
  have o2: "sint (pd_headerSize + pd_meshSize mc) = 28 + sint (pd_meshSize mc)"
    using sint_add_in_range [of pd_headerSize "pd_meshSize mc"] hs D2(2) f2 lt by simp
  have f3: "28 + sint (pd_meshSize mc) + sint (pd_trisSize tc) \<le> sint total"
    using D3(5) K1(1) K2(1) L0 o2 by simp
  have o3: "sint (pd_headerSize + pd_meshSize mc + pd_trisSize tc)
              = 28 + sint (pd_meshSize mc) + sint (pd_trisSize tc)"
    using sint_add_in_range [of "pd_headerSize + pd_meshSize mc" "pd_trisSize tc"] o2 D2(2) D3(2) f3 lt
    by simp
  have f4: "28 + sint (pd_meshSize mc) + sint (pd_trisSize tc) + sint (pd_vertSize vc) \<le> sint total"
    using D4(5) K1(1) K2(1) K3(1) L0 o3 by simp
  have h1: "take 28 (deref h1 p) = header"
    using D1(6) hl by (simp add: deref_store hs)
  have h2: "take 28 (deref h2 p) = take 28 (deref h1 p)"
    by (rule K2(2)) (simp add: hs)
  have h3: "take 28 (deref h3 p) = take 28 (deref h2 p)"
    using D2(2) by (intro K3(2)) (simp add: o2)
  have h4: "take 28 (deref hs p) = take 28 (deref h3 p)"
    using D2(2) D3(2) by (intro K4(2)) (simp add: o3)
  show "take 28 (deref hs p) = bytes32 (pd_nmeshes mesh) @ bytes32 (pd_nverts mesh)
            @ bytes32 (pd_ntris mesh) @ bytes32 mc @ bytes32 vc @ bytes32 tc
            @ bytes32 NMG_POLYMESHDETAIL_VERSION"
    using h1 h2 h3 h4 by (simp add: header_def)
  show "int (length (deref hs p)) = sint n" using L n by simp
  show "n = pd_headerSize + pd_vertSize vc + pd_meshSize mc + pd_trisSize tc"
    using n by (simp add: total_def)
  show "0 \<le> sint (pd_meshSize mc)" by (rule D2(2))
  show "0 \<le> sint (pd_trisSize tc)" by (rule D3(2))
  show "0 \<le> sint (pd_vertSize vc)" by (rule D4(2))
  show "28 + sint (pd_meshSize mc) + sint (pd_trisSize tc) + sint (pd_vertSize vc) \<le> sint n"
    using f4 n by simp
  define m where "m = nat (sint (pd_meshSize mc))"
  define t where "t = nat (sint (pd_trisSize tc))"
  define v where "v = nat (sint (pd_vertSize vc))"
  have fresh: "q \<noteq> p" if "issued h q" for q
    using that A(2) by (simp add: issued_def)
  have same: "deref h1 q = deref h q" "deref h2 q = deref h q" "deref h3 q = deref h q"
    if "issued h q" for q
    using alloc_keeps_issued [OF al that] memcpy_to_other [OF c1 fresh [OF that]]
      memcpy_to_other [OF c2 fresh [OF that]] memcpy_to_other [OF c3 fresh [OF that]]
    by simp_all
  have n2: "nat (sint (pd_headerSize + pd_meshSize mc)) = 28 + m"
    using o2 D2(2) by (simp add: m_def)
  have n3: "nat (sint (pd_headerSize + pd_meshSize mc + pd_trisSize tc)) = 28 + m + t"
    using o3 D2(2) D3(2) by (simp add: m_def t_def nat_add_distrib)
  have r2: "take m (drop 28 (deref h2 p)) = take m (deref h (pd_meshes mesh))"
    using memcpy_to_region [OF c2] by (simp add: hs same(1) [OF own(1)] m_def)
  have r3: "take t (drop (28 + m) (deref h3 p)) = take t (deref h (pd_tris mesh))"
    using memcpy_to_region [OF c3] by (simp add: n2 same(2) [OF own(2)] t_def)
  have r4: "take v (drop (28 + m + t) (deref hs p)) = take v (deref h (pd_verts mesh))"
    using memcpy_to_region [OF c4] by (simp add: n3 same(3) [OF own(3)] v_def)
  have k3: "take (28 + m) (deref h3 p) = take (28 + m) (deref h2 p)"
    by (rule K3(2)) (simp add: n2)
  have k4: "take (28 + m + t) (deref hs p) = take (28 + m + t) (deref h3 p)"
    by (rule K4(2)) (simp add: n3)
  have k4': "take (28 + m) (deref hs p) = take (28 + m) (deref h3 p)"
    by (rule K4(2)) (simp add: n3)
  have "take m (drop 28 (deref hs p)) = take m (drop 28 (deref h3 p))"
    by (rule region_kept [OF k4']) simp
  also have "\<dots> = take m (drop 28 (deref h2 p))"
    by (rule region_kept [OF k3]) simp
  finally show "take (nat (sint (pd_meshSize mc))) (drop 28 (deref hs p))
           = take (nat (sint (pd_meshSize mc))) (deref h (pd_meshes mesh))"
    using r2 by (simp add: m_def)
  have "take t (drop (28 + m) (deref hs p)) = take t (drop (28 + m) (deref h3 p))"
    by (rule region_kept [OF k4]) simp
  then show "take (nat (sint (pd_trisSize tc))) (drop (28 + nat (sint (pd_meshSize mc))) (deref hs p))
           = take (nat (sint (pd_trisSize tc))) (deref h (pd_tris mesh))"
    using r3 by (simp add: m_def t_def)
  show "take (nat (sint (pd_vertSize vc)))
             (drop (28 + nat (sint (pd_meshSize mc)) + nat (sint (pd_trisSize tc))) (deref hs p))
           = take (nat (sint (pd_vertSize vc))) (deref h (pd_verts mesh))"
    using r4 by (simp add: m_def t_def v_def)
  show "nat (sint (pd_meshSize mc)) \<le> length (deref h (pd_meshes mesh))"
    using D2(2,3) by (simp add: same(1) [OF own(1)])
  show "nat (sint (pd_trisSize tc)) \<le> length (deref h (pd_tris mesh))"
    using D3(2,3) by (simp add: same(2) [OF own(2)])
  show "nat (sint (pd_vertSize vc)) \<le> length (deref h (pd_verts mesh))"
    using D4(2,3) by (simp add: same(3) [OF own(3)])
qed


text \<open>
  C10. When \<^verbatim>\<open>rcpdGetSerializedData\<close> succeeds on a detail mesh (its \<^verbatim>\<open>maxmeshes\<close> is then
  not zero) whose three array pointers are null or were handed out by the allocator, and
  gives the buffer at \<open>p\<close> with size \<open>n\<close>, then \<^verbatim>\<open>rcpdBuildFromMeshData\<close> on that buffer
  and size, with a target record whose \<^verbatim>\<open>maxmeshes\<close> is zero, in any heap whose next three
  allocations succeed, returns true. The target's six counts are the six count fields of
  the serialized header (the mesh's three counts, and its capacities or counts as
  \<^verbatim>\<open>includeBuffer\<close> chose) and its resource type is the locally-owned one. The buffer's
  three array regions follow the header in the order meshes, tris, verts, and each holds
  the leading bytes of the mesh's array of that name, as many as the serialized count
  asks for; the target's \<^verbatim>\<open>meshes\<close>, \<^verbatim>\<open>tris\<close> and \<^verbatim>\<open>verts\<close> arrays hold exactly the
  bytes of these regions, hence the bytes of the mesh's arrays, and have the full size.
  The sizes are those of the 32-bit target, where the header is 28 bytes.
\<close>

theorem rcpd_serialize_roundtrip:
  assumes ser: "rcpdGetSerializedData h (Some mesh) includeBuffer (Some rd0) (Some ds0)
                  = Some (True, hs, Some p, Some n)"
    and own: "issued h (pd_meshes mesh)" "issued h (pd_tris mesh)" "issued h (pd_verts mesh)"
    and fresh: "pd_maxmeshes r = 0"
    and mem: "list_all (\<lambda>b. b) (take 3 (outcomes hb))"
  shows "\<exists>h' r'. rcpdBuildFromMeshData hb (Some (deref hs p)) n (Some r) = Some (True, h', Some r') \<and>
           pd_nmeshes r' = field32 (deref hs p) 0 \<and> pd_nverts r' = field32 (deref hs p) 4 \<and>
           pd_ntris r' = field32 (deref hs p) 8 \<and> pd_maxmeshes r' = field32 (deref hs p) 12 \<and>
           pd_maxverts r' = field32 (deref hs p) 16 \<and> pd_maxtris r' = field32 (deref hs p) 20 \<and>
           pd_nmeshes r' = pd_nmeshes mesh \<and> pd_nverts r' = pd_nverts mesh \<and>
           pd_ntris r' = pd_ntris mesh \<and>
           pd_maxmeshes r' = (if includeBuffer then pd_maxmeshes mesh else pd_nmeshes mesh) \<and>
           pd_maxverts r' = (if includeBuffer then pd_maxverts mesh else pd_nverts mesh) \<and>
           pd_maxtris r' = (if includeBuffer then pd_maxtris mesh else pd_ntris mesh) \<and>
           pd_resourcetype r' = NMG_ALLOC_TYPE_LOCAL \<and>
           deref h' (pd_meshes r')
             = take (nat (sint (pd_meshSize (pd_maxmeshes r')))) (drop 28 (deref hs p)) \<and>
           deref h' (pd_tris r')
             = take (nat (sint (pd_trisSize (pd_maxtris r'))))
                 (drop (28 + nat (sint (pd_meshSize (pd_maxmeshes r')))) (deref hs p)) \<and>
           deref h' (pd_verts r')
             = take (nat (sint (pd_vertSize (pd_maxverts r'))))
                 (drop (28 + nat (sint (pd_meshSize (pd_maxmeshes r')))
                          + nat (sint (pd_trisSize (pd_maxtris r')))) (deref hs p)) \<and>
           deref h' (pd_meshes r')
             = take (nat (sint (pd_meshSize (pd_maxmeshes r')))) (deref h (pd_meshes mesh)) \<and>
           deref h' (pd_tris r')
             = take (nat (sint (pd_trisSize (pd_maxtris r')))) (deref h (pd_tris mesh)) \<and>
           deref h' (pd_verts r')
             = take (nat (sint (pd_vertSize (pd_maxverts r')))) (deref h (pd_verts mesh)) \<and>
           length (deref h' (pd_meshes r')) = nat (sint (pd_meshSize (pd_maxmeshes r'))) \<and>
           length (deref h' (pd_tris r')) = nat (sint (pd_trisSize (pd_maxtris r'))) \<and>
           length (deref h' (pd_verts r')) = nat (sint (pd_vertSize (pd_maxverts r')))"
proof -
  define mc where "mc = (if includeBuffer then pd_maxmeshes mesh else pd_nmeshes mesh)"
  define vc where "vc = (if includeBuffer then pd_maxverts mesh else pd_nverts mesh)"
  define tc where "tc = (if includeBuffer then pd_maxtris mesh else pd_ntris mesh)"
  note Lay = rcpdGetSerializedData_layout [OF ser mc_def vc_def tc_def own]
  from rcpdBuildFromMeshData_accepts [OF Lay(1-7) fresh mem] obtain h'
    where run: "rcpdBuildFromMeshData hb (Some (deref hs p)) n (Some r)
            = Some (True, h',
                Some (r\<lparr>pd_meshes := Suc (brk hb), pd_verts := Suc (Suc (Suc (brk hb))),
                        pd_tris := Suc (Suc (brk hb)),
                        pd_nmeshes := pd_nmeshes mesh, pd_nverts := pd_nverts mesh,
                        pd_ntris := pd_ntris mesh,
                        pd_maxmeshes := mc, pd_maxverts := vc, pd_maxtris := tc,
                        pd_resourcetype := NMG_ALLOC_TYPE_LOCAL\<rparr>))"
      and arrays: "deref h' (Suc (brk hb)) = take (nat (sint (pd_meshSize mc))) (drop 28 (deref hs p))"
        "deref h' (Suc (Suc (brk hb)))
            = take (nat (sint (pd_trisSize tc))) (drop (28 + nat (sint (pd_meshSize mc))) (deref hs p))"
        "deref h' (Suc (Suc (Suc (brk hb))))
            = take (nat (sint (pd_vertSize vc)))
                (drop (28 + nat (sint (pd_meshSize mc)) + nat (sint (pd_trisSize tc))) (deref hs p))"
    by (elim exE conjE)
  have fl: "field32 (deref hs p) 0 = pd_nmeshes mesh" "field32 (deref hs p) 4 = pd_nverts mesh"
    "field32 (deref hs p) 8 = pd_ntris mesh" "field32 (deref hs p) 12 = mc"
    "field32 (deref hs p) 16 = vc" "field32 (deref hs p) 20 = tc"
    using pd_header_fields [of "pd_nmeshes mesh" "pd_nverts mesh" "pd_ntris mesh" mc vc tc
        NMG_POLYMESHDETAIL_VERSION, folded Lay(1)]
    by (simp_all add: field32_take)
  show ?thesis
    unfolding mc_def [symmetric] vc_def [symmetric] tc_def [symmetric]
    by (rule exI [of _ h'], rule exI, intro conjI, rule run) (simp_all add: fl arrays Lay(8-13))
qed

lemma pdMesh1_serialized:
  "\<exists>hs. rcpdGetSerializedData pdHeap (Some pdMesh1) True (Some 0) (Some 0)
           = Some (True, hs, Some 4, Some 60) \<and> outcomes hs = [] \<and> deref hs 4 = pd_buffer1"
  by (simp add: rcpdGetSerializedData_def pdHeap_def pdMesh1_def Let_def pd_headerSize_def
      pd_vertSize_def pd_meshSize_def pd_trisSize_def alloc_def memcpy_to_def rdbytes_def
      wrbytes_def deref_def store_def length_bytes32 pd_buffer1_def NMG_POLYMESHDETAIL_VERSION_def)

theorem rcpd_serialize_roundtrip_witness:
  "\<exists>hs. rcpdGetSerializedData pdHeap (Some pdMesh1) True (Some 0) (Some 0)
           = Some (True, hs, Some 4, Some 60) \<and>
         issued pdHeap (pd_meshes pdMesh1) \<and> issued pdHeap (pd_tris pdMesh1) \<and>
         issued pdHeap (pd_verts pdMesh1) \<and>
         pd_maxmeshes pd_empty = 0 \<and> list_all (\<lambda>b. b) (take 3 (outcomes hs)) \<and>
         (\<exists>h' r'. rcpdBuildFromMeshData hs (Some (deref hs 4)) 60 (Some pd_empty)
                     = Some (True, h', Some r') \<and>
                   pd_nmeshes r' = 1 \<and> pd_maxverts r' = 1 \<and>
                   pd_resourcetype r' = NMG_ALLOC_TYPE_LOCAL \<and>
                   deref h' (pd_meshes r') = deref pdHeap (pd_meshes pdMesh1) \<and>
                   deref h' (pd_tris r') = deref pdHeap (pd_tris pdMesh1) \<and>
                   deref h' (pd_verts r') = deref pdHeap (pd_verts pdMesh1) \<and>
                   deref h' (pd_meshes r') = replicate 16 0x11 \<and>
                   deref h' (pd_tris r') = replicate 4 0x22 \<and>
                   deref h' (pd_verts r') = replicate 12 0x33)"
proof -
  from pdMesh1_serialized obtain hs
    where ser: "rcpdGetSerializedData pdHeap (Some pdMesh1) True (Some 0) (Some 0)
           = Some (True, hs, Some 4, Some 60)"
      and out: "outcomes hs = []" and dat: "deref hs 4 = pd_buffer1"
    by (elim exE conjE)
  have fresh: "pd_maxmeshes pd_empty = 0" by (simp add: pd_empty_def)
  have mem: "list_all (\<lambda>b. b) (take 3 (outcomes hs))" by (simp add: out)
  have own: "issued pdHeap (pd_meshes pdMesh1)" "issued pdHeap (pd_tris pdMesh1)"
    "issued pdHeap (pd_verts pdMesh1)"
    by (simp_all add: issued_def pdHeap_def pdMesh1_def)
  from rcpd_serialize_roundtrip [OF ser own fresh mem] obtain h' r'
    where run: "rcpdBuildFromMeshData hs (Some (deref hs 4)) 60 (Some pd_empty) = Some (True, h', Some r')"
      and cnt: "pd_nmeshes r' = pd_nmeshes pdMesh1"
        "pd_maxmeshes r' = (if True then pd_maxmeshes pdMesh1 else pd_nmeshes pdMesh1)"
        "pd_maxverts r' = (if True then pd_maxverts pdMesh1 else pd_nverts pdMesh1)"
        "pd_maxtris r' = (if True then pd_maxtris pdMesh1 else pd_ntris pdMesh1)"
        "pd_resourcetype r' = NMG_ALLOC_TYPE_LOCAL"
      and arr: "deref h' (pd_meshes r')
             = take (nat (sint (pd_meshSize (pd_maxmeshes r')))) (drop 28 (deref hs 4))"
        "deref h' (pd_tris r')
             = take (nat (sint (pd_trisSize (pd_maxtris r'))))
                 (drop (28 + nat (sint (pd_meshSize (pd_maxmeshes r')))) (deref hs 4))"
        "deref h' (pd_verts r')
             = take (nat (sint (pd_vertSize (pd_maxverts r'))))
                 (drop (28 + nat (sint (pd_meshSize (pd_maxmeshes r')))
                          + nat (sint (pd_trisSize (pd_maxtris r')))) (deref hs 4))"
      and src: "deref h' (pd_meshes r')
             = take (nat (sint (pd_meshSize (pd_maxmeshes r')))) (deref pdHeap (pd_meshes pdMesh1))"
        "deref h' (pd_tris r')
             = take (nat (sint (pd_trisSize (pd_maxtris r')))) (deref pdHeap (pd_tris pdMesh1))"
        "deref h' (pd_verts r')
             = take (nat (sint (pd_vertSize (pd_maxverts r')))) (deref pdHeap (pd_verts pdMesh1))"
    by (elim exE conjE)
  have c: "pd_nmeshes r' = 1" "pd_maxmeshes r' = 1" "pd_maxverts r' = 1" "pd_maxtris r' = 1"
    using cnt by (simp_all add: pdMesh1_def)
  have a: "deref h' (pd_meshes r') = replicate 16 0x11" "deref h' (pd_tris r') = replicate 4 0x22"
    "deref h' (pd_verts r') = replicate 12 0x33"
    unfolding arr c dat
    by (simp_all add: pd_meshSize_def pd_trisSize_def pd_vertSize_def pd_buffer1_def length_bytes32)
  have b: "deref h' (pd_meshes r') = deref pdHeap (pd_meshes pdMesh1)"
    "deref h' (pd_tris r') = deref pdHeap (pd_tris pdMesh1)"
    "deref h' (pd_verts r') = deref pdHeap (pd_verts pdMesh1)"
    unfolding src c
    by (simp_all add: pd_meshSize_def pd_trisSize_def pd_vertSize_def pdHeap_def pdMesh1_def deref_def)
  have inner: "\<exists>h' r'. rcpdBuildFromMeshData hs (Some (deref hs 4)) 60 (Some pd_empty)
                     = Some (True, h', Some r') \<and>
                   pd_nmeshes r' = 1 \<and> pd_maxverts r' = 1 \<and>
                   pd_resourcetype r' = NMG_ALLOC_TYPE_LOCAL \<and>
                   deref h' (pd_meshes r') = deref pdHeap (pd_meshes pdMesh1) \<and>
                   deref h' (pd_tris r') = deref pdHeap (pd_tris pdMesh1) \<and>
                   deref h' (pd_verts r') = deref pdHeap (pd_verts pdMesh1) \<and>
                   deref h' (pd_meshes r') = replicate 16 0x11 \<and>
                   deref h' (pd_tris r') = replicate 4 0x22 \<and>
                   deref h' (pd_verts r') = replicate 12 0x33"
    by (rule exI [of _ h'], rule exI [of _ r']) (simp add: run c cnt(5) a b [symmetric])
  show ?thesis
    by (rule exI [of _ hs]) (simp only: ser own fresh mem inner simp_thms)
qed

section \<open>Truncated buffers\<close>

text \<open>
  The detail-mesh reader does compare the stated size with the size its header implies,
  before the first allocation and the first read behind the header.
\<close>

lemma rcpdBuildFromMeshData_truncated:
  assumes "28 \<le> length d"
    and "sint n < sint (pd_headerSize + pd_vertSize (field32 d 16) + pd_meshSize (field32 d 12)
                         + pd_trisSize (field32 d 20))"
  shows "rcpdBuildFromMeshData h (Some d) n rm = Some (False, h, rm)"
proof (cases rm)
  case None
  then show ?thesis by (simp add: rcpdBuildFromMeshData_def)
next
  case (Some r)
  have rd: "rdbytes d 0 (sint pd_headerSize) = Some (take 28 d)"
    using assms(1) by (simp add: rdbytes_def pd_headerSize_def)
  have f: "field32 (take 28 d) 12 = field32 d 12" "field32 (take 28 d) 16 = field32 d 16"
    "field32 (take 28 d) 20 = field32 d 20"
    by (simp_all add: field32_take)
  show ?thesis
    unfolding rcpdBuildFromMeshData_def using Some rd assms(2)
    by (simp add: f Let_def)
qed

text \<open>
  C4 on the archive reader. The only length check of \<^verbatim>\<open>dtnmBuildDTNavMeshFromRaw\<close> is the
  one against the size of the set header. When the buffer holds that header, the header has
  the right version and declares at least one tile, and the container was allocated and
  initialised, the loop reads a tile record header at offset 36; in a buffer shorter than
  48 bytes that read goes past the end of the buffer (\<open>None\<close>: no result is defined).
\<close>

theorem dtnmBuildDTNavMeshFromRaw_reads_past_end:
  assumes "36 \<le> length d" and "length d < 48" and "36 \<le> uint dataSize"
    and "field32 d 0 = RCN_NAVMESH_VERSION" and "0 < sint (field32 d 4)"
    and "dtAllocNavMesh ops h = (Some m, h1)"
    and "init ops m h1 (take 28 (drop 8 d)) = (st, m1, h2)" and "\<not> dtStatusFailed st"
  shows "rdbytes d (sint setHeaderSize) (sint tileHeaderSize) = None \<and>
         dtnmBuildDTNavMeshFromRaw ops h (Some d) dataSize safe (Some pp0) = None"
proof -
  have rd: "rdbytes d 0 (sint setHeaderSize) = Some (take 36 d)"
    using assms(1) by (simp add: rdbytes_def setHeaderSize_def)
  have f: "field32 (take 36 d) 0 = RCN_NAVMESH_VERSION" "field32 (take 36 d) 4 = field32 d 4"
    using assms(4) by (simp_all add: field32_take)
  have ps: "take 28 (drop 8 (take 36 d)) = take 28 (drop 8 d)"
    by (simp add: drop_take)
  from assms(5) obtain n where n: "nat (sint (field32 d 4)) = Suc n"
    by (cases "nat (sint (field32 d 4))") simp_all
  have past: "rdbytes d (sint setHeaderSize) (sint tileHeaderSize) = None"
    using assms(2) by (simp add: rdbytes_def setHeaderSize_def tileHeaderSize_def)
  then have "tileStep ops d safe (setHeaderSize, h2, m1) = None"
    by (simp add: tileStep_def)
  then have "readTiles ops d safe (Suc n) (setHeaderSize, h2, m1) = None"
    by simp
  then have "dtnmBuildDTNavMeshFromRaw ops h (Some d) dataSize safe (Some pp0) = None"
    using assms(3,6,7,8) rd f ps n
    by (simp add: dtnmBuildDTNavMeshFromRaw_def setHeaderSize_def del: readTiles.simps)
  with past show ?thesis by simp
qed

lemma headerOnly_fields:
  "length headerOnly = 36" "field32 headerOnly 0 = 1" "field32 headerOnly 4 = 1"
  by (simp_all add: headerOnly_def length_bytes32 field32_def le32_bytes32)

theorem dtnmBuildDTNavMeshFromRaw_reads_past_end_witness:
  "(36::nat) \<le> length headerOnly \<and> length headerOnly < 48 \<and> (36::int) \<le> uint (36 :: 32 word) \<and>
   field32 headerOnly 0 = RCN_NAVMESH_VERSION \<and> 0 < sint (field32 headerOnly 4) \<and>
   dtAllocNavMesh listOps (heap0 []) = (Some [], snd (alloc 64 (heap0 []))) \<and>
   init listOps [] (snd (alloc 64 (heap0 []))) (take 28 (drop 8 headerOnly))
     = (DT_SUCCESS, [], snd (alloc 64 (heap0 []))) \<and>
   \<not> dtStatusFailed DT_SUCCESS \<and>
   rdbytes headerOnly (sint setHeaderSize) (sint tileHeaderSize) = None \<and>
   dtnmBuildDTNavMeshFromRaw listOps (heap0 []) (Some headerOnly) 36 True (Some None) = None"
proof -
  have a: "(36::nat) \<le> length headerOnly" "length headerOnly < 48" "(36::int) \<le> uint (36 :: 32 word)"
    "field32 headerOnly 0 = RCN_NAVMESH_VERSION" "0 < sint (field32 headerOnly 4)"
    by (simp_all add: headerOnly_fields RCN_NAVMESH_VERSION_def)
  have b: "dtAllocNavMesh listOps (heap0 []) = (Some [], snd (alloc 64 (heap0 [])))"
    by (simp add: listOps_def alloc_def heap0_def)
  have c: "init listOps [] (snd (alloc 64 (heap0 []))) (take 28 (drop 8 headerOnly))
     = (DT_SUCCESS, [], snd (alloc 64 (heap0 [])))"
    by (simp add: listOps_def)
  have d: "\<not> dtStatusFailed DT_SUCCESS"
    by (rule status_failed_simps)
  from dtnmBuildDTNavMeshFromRaw_reads_past_end [OF a b c d, of True None] a b c d
  show ?thesis by simp
qed

section \<open>Archive unpack: all or nothing\<close>

lemma tileStep_Inl_failed:
  "tileStep ops d safe st = Some (Inl (status, h, m)) \<Longrightarrow> dtStatusFailed status"
  by (auto simp: tileStep_def Let_def status_failed_simps
      split: prod.splits option.splits if_splits)

lemma readTiles_Inl_failed:
  "readTiles ops d safe n st = Some (Inl (status, h, m)) \<Longrightarrow> dtStatusFailed status"
proof (induction n arbitrary: st)
  case 0
  then show ?case by simp
next
  case (Suc n)
  then show ?case
    by (auto split: option.splits sum.splits dest: tileStep_Inl_failed)
qed

lemma readTiles_after_passes:
  "passesDone ops d safe k st = Some st' \<Longrightarrow>
   readTiles ops d safe (k + n) st = readTiles ops d safe n st'"
proof (induction k arbitrary: st)
  case 0
  then show ?case by simp
next
  case (Suc k)
  then show ?case
    by (auto split: option.splits sum.splits)
qed

lemma tileStep_breaks:
  assumes "rdbytes d (sint pos) (sint tileHeaderSize) = Some th"
    and "le64 th = 0 \<or> field32 th 8 = 0 \<or> fst (alloc (sint (field32 th 8)) hk) = 0 \<or>
         (\<exists>hc. memcpy_to (snd (alloc (sint (field32 th 8)) hk)) (fst (alloc (sint (field32 th 8)) hk)) 0 d
                  (sint (pos + tileHeaderSize)) (sint (field32 th 8)) = Some hc \<and>
               dtStatusFailed (fst (addTile ops mk hc (fst (alloc (sint (field32 th 8)) hk))
                  (field32 th 8) (if safe then DT_TILE_FREE_DATA else 0) (le64 th))))"
  shows "\<exists>st hf mf. tileStep ops d safe (pos, hk, mk) = Some (Inl (st, hf, mf))"
  using assms
  by (cases safe) (auto simp: tileStep_def Let_def split: prod.splits option.splits)

text \<open>
  The status a call returns is a failed one and the container pointer is null, or it is
  \<^verbatim>\<open>DT_SUCCESS\<close> with a container: nothing in between, whenever the stated size covers the
  set header.
\<close>

lemma dtnmBuildDTNavMeshFromRaw_all_or_nothing:
  assumes run: "dtnmBuildDTNavMeshFromRaw ops h (Some d) dataSize safe (Some pp0) = Some (st, h', pp)"
    and sz: "36 \<le> uint dataSize"
  shows "(st = DT_SUCCESS \<and> (\<exists>m. pp = Some (Some m))) \<or> (dtStatusFailed st \<and> pp = Some None)"
proof -
  from sz have guard: "\<not> uint dataSize < uint setHeaderSize"
    by (simp add: setHeaderSize_def)
  from run guard obtain header where rd: "rdbytes d 0 (sint setHeaderSize) = Some header"
    by (cases "rdbytes d 0 (sint setHeaderSize)") (simp_all add: dtnmBuildDTNavMeshFromRaw_def)
  show ?thesis
  proof (cases "field32 header 0 \<noteq> RCN_NAVMESH_VERSION")
    case True
    with run guard rd show ?thesis
      by (auto simp: dtnmBuildDTNavMeshFromRaw_def status_failed_simps)
  next
    case v: False
    obtain mo h1 where al: "dtAllocNavMesh ops h = (mo, h1)" by (cases "dtAllocNavMesh ops h")
    show ?thesis
    proof (cases mo)
      case None
      with run guard rd v al show ?thesis
        by (auto simp: dtnmBuildDTNavMeshFromRaw_def status_failed_simps)
    next
      case (Some mesh)
      obtain st0 m1 h2 where ini: "init ops mesh h1 (take 28 (drop 8 header)) = (st0, m1, h2)"
        by (cases "init ops mesh h1 (take 28 (drop 8 header))")
      show ?thesis
      proof (cases "dtStatusFailed st0")
        case True
        with run guard rd v al Some ini show ?thesis
          by (auto simp: dtnmBuildDTNavMeshFromRaw_def)
      next
        case ok: False
        show ?thesis
        proof (cases "readTiles ops d safe (nat (sint (field32 header 4))) (setHeaderSize, h2, m1)")
          case None
          with run guard rd v al Some ini ok show ?thesis
            by (simp add: dtnmBuildDTNavMeshFromRaw_def)
        next
          case (Some res)
          show ?thesis
          proof (cases res)
            case (Inl failure)
            obtain st' h3 m3 where fl: "failure = (st', h3, m3)" by (cases failure)
            from \<open>readTiles ops d safe (nat (sint (field32 header 4))) (setHeaderSize, h2, m1) = Some res\<close>
              Inl fl have "dtStatusFailed st'" by (auto dest: readTiles_Inl_failed)
            with run guard rd v al \<open>mo = Some mesh\<close> ini ok Some Inl fl show ?thesis
              by (auto simp: dtnmBuildDTNavMeshFromRaw_def)
          next
            case (Inr fin)
            obtain pos h3 m3 where dn: "fin = (pos, h3, m3)" by (cases fin)
            with run guard rd v al \<open>mo = Some mesh\<close> ini ok Some Inr show ?thesis
              by (auto simp: dtnmBuildDTNavMeshFromRaw_def)
          qed
        qed
      qed
    qed
  qed
qed

text \<open>
  C2. Take an archive whose set header is accepted (right version, container allocated and
  initialised) and declares more than \<open>k\<close> tile records, and let the first \<open>k\<close> passes of
  the loop reach their end. If the next record header lies in the buffer and has a zero
  tile reference or a zero size, or the allocation for its data returns null, or the data is
  copied and the container's \<^verbatim>\<open>addTile\<close> returns a failed status, then
  \<^verbatim>\<open>dtnmBuildDTNavMeshFromRaw\<close> returns a failed status and sets the caller's container
  pointer to null: the container that took the first \<open>k\<close> tiles is not handed out.
\<close>

theorem dtnmBuildDTNavMeshFromRaw_atomic:
  assumes "36 \<le> length d" and "36 \<le> uint dataSize" and "field32 d 0 = RCN_NAVMESH_VERSION"
    and "dtAllocNavMesh ops h = (Some m, h1)"
    and "init ops m h1 (take 28 (drop 8 d)) = (st0, m1, h2)" and "\<not> dtStatusFailed st0"
    and "k < nat (sint (field32 d 4))"
    and "passesDone ops d safe k (setHeaderSize, h2, m1) = Some (pos, hk, mk)"
    and "rdbytes d (sint pos) (sint tileHeaderSize) = Some th"
    and "le64 th = 0 \<or> field32 th 8 = 0 \<or> fst (alloc (sint (field32 th 8)) hk) = 0 \<or>
         (\<exists>hc. memcpy_to (snd (alloc (sint (field32 th 8)) hk)) (fst (alloc (sint (field32 th 8)) hk)) 0 d
                  (sint (pos + tileHeaderSize)) (sint (field32 th 8)) = Some hc \<and>
               dtStatusFailed (fst (addTile ops mk hc (fst (alloc (sint (field32 th 8)) hk))
                  (field32 th 8) (if safe then DT_TILE_FREE_DATA else 0) (le64 th))))"
  shows "\<exists>st hf. dtnmBuildDTNavMeshFromRaw ops h (Some d) dataSize safe (Some pp0)
                    = Some (st, hf, Some None) \<and> dtStatusFailed st"
proof -
  have rd: "rdbytes d 0 (sint setHeaderSize) = Some (take 36 d)"
    using assms(1) by (simp add: rdbytes_def setHeaderSize_def)
  have f: "field32 (take 36 d) 0 = RCN_NAVMESH_VERSION" "field32 (take 36 d) 4 = field32 d 4"
    using assms(3) by (simp_all add: field32_take)
  have ps: "take 28 (drop 8 (take 36 d)) = take 28 (drop 8 d)"
    by (simp add: drop_take)
  from assms(7) have "\<exists>n. nat (sint (field32 d 4)) = Suc (k + n)"
    by (rule less_imp_Suc_add)
  then obtain n where n: "nat (sint (field32 d 4)) = k + Suc n"
    by (elim exE) simp
  have "\<exists>st hf mf. tileStep ops d safe (pos, hk, mk) = Some (Inl (st, hf, mf))"
    by (rule tileStep_breaks [OF assms(9,10)])
  then obtain st hf mf
    where brk: "tileStep ops d safe (pos, hk, mk) = Some (Inl (st, hf, mf))"
    by (elim exE)
  then have failed: "dtStatusFailed st" by (rule tileStep_Inl_failed)
  have "readTiles ops d safe (k + Suc n) (setHeaderSize, h2, m1)
          = readTiles ops d safe (Suc n) (pos, hk, mk)"
    by (rule readTiles_after_passes [OF assms(8)])
  also have "\<dots> = Some (Inl (st, hf, mf))"
    using brk by simp
  finally have run: "readTiles ops d safe (nat (sint (field32 d 4))) (setHeaderSize, h2, m1)
               = Some (Inl (st, hf, mf))"
    by (simp only: n)
  have "dtnmBuildDTNavMeshFromRaw ops h (Some d) dataSize safe (Some pp0)
          = Some (st, dtFreeNavMesh ops mf hf, Some None)"
    using assms(2,4,5,6) rd f ps run
    by (simp add: dtnmBuildDTNavMeshFromRaw_def setHeaderSize_def del: readTiles.simps)
  with failed show ?thesis by blast
qed

lemma secondCorrupt_bytes:
  "secondCorrupt = [1, 0, 0, 0, 2, 0, 0, 0] @ replicate 28 0 @
     [1, 0, 0, 0, 0, 0, 0, 0, 4, 0, 0, 0, 1, 2, 3, 4, 2, 0, 0, 0, 0, 0, 0, 0, 0, 0, 0, 0]"
  by (simp add: secondCorrupt_def bytes32_def bytes64_def)

lemma secondCorrupt_reads:
  "length secondCorrupt = 64"
  "field32 secondCorrupt 0 = 1"
  "field32 secondCorrupt 4 = 2"
  "rdbytes secondCorrupt 36 12 = Some [1, 0, 0, 0, 0, 0, 0, 0, 4, 0, 0, 0]"
  "rdbytes secondCorrupt 48 4 = Some [1, 2, 3, 4]"
  "rdbytes secondCorrupt 52 12 = Some [2, 0, 0, 0, 0, 0, 0, 0, 0, 0, 0, 0]"
  by (simp_all add: secondCorrupt_bytes field32_def le32_def rdbytes_def)

lemma secondCorrupt_first_pass:
  "\<exists>hk. passesDone listOps secondCorrupt True 1 (setHeaderSize, snd (alloc 64 (heap0 [])), [])
     = Some (52, hk, [\<lparr>t_header = 2, t_dataSize = 4, t_data = 2\<rparr>])"
  by (simp add: tileStep_def setHeaderSize_def tileHeaderSize_def secondCorrupt_reads
      le64_def field32_def le32_def alloc_def heap0_def memcpy_to_def deref_def wrbytes_def
      store_def listOps_def status_failed_simps DT_TILE_FREE_DATA_def)

theorem dtnmBuildDTNavMeshFromRaw_atomic_witness:
  "(1::nat) < nat (sint (field32 secondCorrupt 4)) \<and>
   (\<exists>pos hk mk th. passesDone listOps secondCorrupt True 1
        (setHeaderSize, snd (alloc 64 (heap0 [])), []) = Some (pos, hk, mk) \<and>
      rdbytes secondCorrupt (sint pos) (sint tileHeaderSize) = Some th \<and> field32 th 8 = 0) \<and>
   (\<exists>st hf. dtnmBuildDTNavMeshFromRaw listOps (heap0 []) (Some secondCorrupt) 64 True (Some None)
        = Some (st, hf, Some None) \<and> dtStatusFailed st)"
proof -
  have a: "36 \<le> length secondCorrupt" "(36::int) \<le> uint (64 :: 32 word)"
    "field32 secondCorrupt 0 = RCN_NAVMESH_VERSION"
    by (simp_all add: secondCorrupt_reads RCN_NAVMESH_VERSION_def)
  have b: "dtAllocNavMesh listOps (heap0 []) = (Some [], snd (alloc 64 (heap0 [])))"
    by (simp add: listOps_def alloc_def heap0_def)
  have c: "init listOps [] (snd (alloc 64 (heap0 []))) (take 28 (drop 8 secondCorrupt))
     = (DT_SUCCESS, [], snd (alloc 64 (heap0 [])))"
    by (simp add: listOps_def)
  have d: "\<not> dtStatusFailed DT_SUCCESS"
    by (rule status_failed_simps)
  have k: "(1::nat) < nat (sint (field32 secondCorrupt 4))"
    by (simp add: secondCorrupt_reads)
  from secondCorrupt_first_pass obtain hk
    where p: "passesDone listOps secondCorrupt True 1 (setHeaderSize, snd (alloc 64 (heap0 [])), [])
      = Some (52, hk, [\<lparr>t_header = 2, t_dataSize = 4, t_data = 2\<rparr>])" by (elim exE)
  have r: "rdbytes secondCorrupt (sint (52 :: 32 word)) (sint tileHeaderSize)
      = Some [2, 0, 0, 0, 0, 0, 0, 0, 0, 0, 0, 0]"
    by (simp add: tileHeaderSize_def secondCorrupt_reads)
  have z: "field32 [2, 0, 0, 0, 0, 0, 0, 0, 0, 0, 0, 0] 8 = 0"
    by (simp add: field32_def le32_def)
  then have cause: "le64 [2, 0, 0, 0, 0, 0, 0, 0, 0, 0, 0, 0] = 0 \<or>
      field32 [2, 0, 0, 0, 0, 0, 0, 0, 0, 0, 0, 0] 8 = 0 \<or>
      fst (alloc (sint (field32 [2, 0, 0, 0, 0, 0, 0, 0, 0, 0, 0, 0] 8)) hk) = 0 \<or>
      (\<exists>hc. memcpy_to (snd (alloc (sint (field32 [2, 0, 0, 0, 0, 0, 0, 0, 0, 0, 0, 0] 8)) hk))
               (fst (alloc (sint (field32 [2, 0, 0, 0, 0, 0, 0, 0, 0, 0, 0, 0] 8)) hk)) 0 secondCorrupt
               (sint (52 + tileHeaderSize)) (sint (field32 [2, 0, 0, 0, 0, 0, 0, 0, 0, 0, 0, 0] 8)) = Some hc \<and>
             dtStatusFailed (fst (addTile listOps [\<lparr>t_header = 2, t_dataSize = 4, t_data = 2\<rparr>] hc
               (fst (alloc (sint (field32 [2, 0, 0, 0, 0, 0, 0, 0, 0, 0, 0, 0] 8)) hk))
               (field32 [2, 0, 0, 0, 0, 0, 0, 0, 0, 0, 0, 0] 8)
               (if True then DT_TILE_FREE_DATA else 0) (le64 [2, 0, 0, 0, 0, 0, 0, 0, 0, 0, 0, 0]))))"
    by (intro disjI2 disjI1)
  note T = dtnmBuildDTNavMeshFromRaw_atomic [OF a b c d k p r cause, of None]
  have "\<exists>pos hk mk th. passesDone listOps secondCorrupt True 1
        (setHeaderSize, snd (alloc 64 (heap0 [])), []) = Some (pos, hk, mk) \<and>
      rdbytes secondCorrupt (sint pos) (sint tileHeaderSize) = Some th \<and> field32 th 8 = 0"
    using p r z by blast
  with k T show ?thesis by (intro conjI)
qed

section \<open>Archive pack: a live tile behind an empty slot\<close>

lemma wr_length: "wr xs i x = Some ys \<Longrightarrow> length ys = length xs"
  by (auto simp: wr_def split: if_splits)

lemma fillHeaders_overflow:
  "k \<in> set slots \<Longrightarrow> liveTile view m (int k) \<noteq> None \<Longrightarrow> length ths \<le> k \<Longrightarrow>
   fillHeaders view m slots (ths, tot) = None"
proof (induction slots arbitrary: ths tot)
  case Nil
  then show ?case by simp
next
  case (Cons j slots)
  show ?case
  proof (cases "liveTile view m (int j)")
    case None
    with Cons.prems have "k \<in> set slots" by auto
    from Cons.IH [OF this Cons.prems(2,3)] None show ?thesis by simp
  next
    case (Some kt)
    obtain k' tile where kt: "kt = (k', tile)" by (cases kt)
    show ?thesis
    proof (cases "wr ths (int j) (Some (getTileRef view m k', t_dataSize tile))")
      case None
      with Some kt show ?thesis by simp
    next
      case (Some ths')
      then have len: "length ths' = length ths" by (rule wr_length)
      from Some have "j < length ths" by (auto simp: wr_def split: if_splits)
      with Cons.prems have "k \<in> set slots" by auto
      from Cons.IH [OF this Cons.prems(2)] len Cons.prems(3)
      have "fillHeaders view m slots (ths', tot + t_dataSize tile) = None" by simp
      with Some \<open>liveTile view m (int j) = Some kt\<close> kt show ?thesis by simp
    qed
  qed
qed

text \<open>
  C1 on the packer. \<^verbatim>\<open>dtnmGetNavMeshRawData\<close> sizes \<^verbatim>\<open>tileHeaders\<close> by the number of live
  tiles and then writes entry \<open>i\<close> for each live slot \<open>i\<close>. When a live tile sits in a slot
  whose index is not below the number of live tiles (the live tiles are not the first
  slots), that write is past the end of the array, and the call has no defined result
  (\<open>None\<close>): no archive is produced that could be unpacked.
\<close>

theorem dtnmGetNavMeshRawData_gap_overflows:
  assumes "0 \<le> i" and "i < getMaxTiles view m" and "liveTile view m i \<noteq> None"
    and "sint (countTiles view m [0..<nat (getMaxTiles view m)] 0) \<le> i"
  shows "dtnmGetNavMeshRawData view h (Some m) (Some rd0) (Some ds0) = None"
proof -
  have mem: "nat i \<in> set [0..<nat (getMaxTiles view m)]"
    using assms(1,2) by simp
  have lv: "liveTile view m (int (nat i)) \<noteq> None"
    using assms(1,3) by simp
  have len: "length (replicate (nat (sint (countTiles view m [0..<nat (getMaxTiles view m)] 0))) None
               :: (dtTileRef \<times> 32 word) option list) \<le> nat i"
    using assms(4) by simp
  from fillHeaders_overflow [OF mem lv len]
  show ?thesis
    by (simp add: dtnmGetNavMeshRawData_def Let_def)
qed

theorem dtnmGetNavMeshRawData_gap_overflows_witness:
  "(0::int) \<le> 1 \<and> 1 < getMaxTiles listView gapMesh \<and> liveTile listView gapMesh 1 \<noteq> None \<and>
   sint (countTiles listView gapMesh [0..<nat (getMaxTiles listView gapMesh)] 0) \<le> 1 \<and>
   dtnmGetNavMeshRawData listView gapHeap (Some gapMesh) (Some 0) (Some 0) = None"
proof -
  have a: "(0::int) \<le> 1" by simp
  have b: "1 < getMaxTiles listView gapMesh"
    by (simp add: listView_def gapMesh_def)
  have c: "liveTile listView gapMesh 1 \<noteq> None"
    by (simp add: liveTile_def listView_def gapMesh_def)
  have up: "[0..<nat (getMaxTiles listView gapMesh)] = [0, 1]"
    by (simp add: listView_def gapMesh_def upt_rec)
  have d: "sint (countTiles listView gapMesh [0..<nat (getMaxTiles listView gapMesh)] 0) \<le> 1"
    unfolding up by (simp add: liveTile_def listView_def gapMesh_def)
  from dtnmGetNavMeshRawData_gap_overflows [OF a b c d, of gapHeap 0 0] a b c d
  show ?thesis by simp
qed

text \<open>
  With the same tile in the first slot the slot index and the running index agree: the
  archive is written, and unpacking it gives a container with that one tile and its bytes.
\<close>

lemma packedMesh_roundtrip:
  "\<exists>h p n h' m. dtnmGetNavMeshRawData listView gapHeap (Some packedMesh) (Some 0) (Some 0)
                    = Some (h, Some p, Some n) \<and>
     dtnmBuildDTNavMeshFromRaw listOps h (Some (deref h p)) n True (Some None)
       = Some (DT_SUCCESS, h', Some (Some m)) \<and>
     length m = 1 \<and> deref h' (t_data (m ! 0)) = [1, 2, 3, 4]"
  by (simp add: dtnmGetNavMeshRawData_def dtnmBuildDTNavMeshFromRaw_def listView_def listOps_def
      gapHeap_def packedMesh_def liveTile_def Let_def upt_rec wr_def rd_def alloc_def
      memcpy_to_def rdbytes_def wrbytes_def deref_def store_def tileStep_def
      setHeaderSize_def tileHeaderSize_def length_bytes32 length_bytes64 field32_def
      le32_bytes32 le32_bytes32_plain le64_bytes64 RCN_NAVMESH_VERSION_def status_failed_simps
      DT_TILE_FREE_DATA_def)

end
